theory Spec2Isabelle
  imports Complex_Main "HOL-Library.Word"
begin

section \<open>Common types\<close>

text \<open>
  \<^verbatim>\<open>rmf_traffic::Time\<close> is a \<^verbatim>\<open>std::chrono::steady_clock::time_point\<close>: a count of
  nanoseconds. It is modelled as an \<open>int\<close>; no claim depends on the 64-bit range.
  A C++ \<^verbatim>\<open>double\<close> is modelled as a \<open>real\<close>: rounding, NaN and the infinities are left
  out, except for the infinite corners of the void bounding box, which are written out.
\<close>

type_synonym Time = int

section \<open>rmf\_tasks: the AGV State (src/rmf\_tasks/src/agv/State.cpp)\<close>

text \<open>
  \<^verbatim>\<open>State::Implementation\<close> holds the five fields; \<^verbatim>\<open>std::size_t\<close> is a 64-bit word.
  The source names the fields \<^verbatim>\<open>_waypoint\<close>, \<^verbatim>\<open>_charging_waypoint\<close>, ...; a name cannot
  start with an underscore here, so the prefix is \<open>impl\<close>.
\<close>

record State_Implementation =
  impl_waypoint :: "64 word"
  impl_charging_waypoint :: "64 word"
  impl_finish_time :: Time
  impl_battery_soc :: real
  impl_threshold_soc :: real

text \<open>
  A \<^verbatim>\<open>State\<close> object owns its implementation through \<^verbatim>\<open>_pimpl\<close>. The setters mutate the
  object in place and return \<^verbatim>\<open>*this\<close>, so objects live in a store: a \<open>State\<close> is the
  identity (address) of an object and the store maps it to the fields it currently
  holds. A call on an object that is not in the store has no defined result (\<open>None\<close>).
\<close>

type_synonym State = nat
type_synonym State_store = "State \<rightharpoonup> State_Implementation"

definition State_new ::
  "State_store \<Rightarrow> State \<Rightarrow> 64 word \<Rightarrow> 64 word \<Rightarrow> Time \<Rightarrow> real \<Rightarrow> real \<Rightarrow> State_store" where
  "State_new \<sigma> this waypoint charging_waypoint finish_time battery_soc threshold_soc =
     \<sigma>(this \<mapsto> \<lparr> impl_waypoint = waypoint,
                  impl_charging_waypoint = charging_waypoint,
                  impl_finish_time = finish_time,
                  impl_battery_soc = battery_soc,
                  impl_threshold_soc = threshold_soc \<rparr>)"

definition waypoint :: "State_store \<Rightarrow> State \<Rightarrow> 64 word option" where
  "waypoint \<sigma> this = map_option impl_waypoint (\<sigma> this)"

definition set_waypoint :: "State_store \<Rightarrow> State \<Rightarrow> 64 word \<Rightarrow> (State \<times> State_store) option" where
  "set_waypoint \<sigma> this new_waypoint =
     (case \<sigma> this of
        None \<Rightarrow> None
      | Some pimpl \<Rightarrow> Some (this, \<sigma>(this \<mapsto> pimpl\<lparr>impl_waypoint := new_waypoint\<rparr>)))"

definition charging_waypoint :: "State_store \<Rightarrow> State \<Rightarrow> 64 word option" where
  "charging_waypoint \<sigma> this = map_option impl_charging_waypoint (\<sigma> this)"

definition set_charging_waypoint ::
  "State_store \<Rightarrow> State \<Rightarrow> 64 word \<Rightarrow> (State \<times> State_store) option" where
  "set_charging_waypoint \<sigma> this new_charging_waypoint =
     (case \<sigma> this of
        None \<Rightarrow> None
      | Some pimpl \<Rightarrow>
          Some (this, \<sigma>(this \<mapsto> pimpl\<lparr>impl_charging_waypoint := new_charging_waypoint\<rparr>)))"

definition finish_time :: "State_store \<Rightarrow> State \<Rightarrow> Time option" where
  "finish_time \<sigma> this = map_option impl_finish_time (\<sigma> this)"

definition set_finish_time :: "State_store \<Rightarrow> State \<Rightarrow> Time \<Rightarrow> (State \<times> State_store) option" where
  "set_finish_time \<sigma> this new_finish_time =
     (case \<sigma> this of
        None \<Rightarrow> None
      | Some pimpl \<Rightarrow> Some (this, \<sigma>(this \<mapsto> pimpl\<lparr>impl_finish_time := new_finish_time\<rparr>)))"

definition battery_soc :: "State_store \<Rightarrow> State \<Rightarrow> real option" where
  "battery_soc \<sigma> this = map_option impl_battery_soc (\<sigma> this)"

definition set_battery_soc :: "State_store \<Rightarrow> State \<Rightarrow> real \<Rightarrow> (State \<times> State_store) option" where
  "set_battery_soc \<sigma> this new_battery_soc =
     (case \<sigma> this of
        None \<Rightarrow> None
      | Some pimpl \<Rightarrow> Some (this, \<sigma>(this \<mapsto> pimpl\<lparr>impl_battery_soc := new_battery_soc\<rparr>)))"

definition threshold_soc :: "State_store \<Rightarrow> State \<Rightarrow> real option" where
  "threshold_soc \<sigma> this = map_option impl_threshold_soc (\<sigma> this)"

definition set_threshold_soc :: "State_store \<Rightarrow> State \<Rightarrow> real \<Rightarrow> (State \<times> State_store) option" where
  "set_threshold_soc \<sigma> this new_threshold_soc =
     (case \<sigma> this of
        None \<Rightarrow> None
      | Some pimpl \<Rightarrow> Some (this, \<sigma>(this \<mapsto> pimpl\<lparr>impl_threshold_soc := new_threshold_soc\<rparr>)))"

text \<open>
  The five getters of an object at once, to state that a setter leaves the others alone.
\<close>

definition State_getters ::
  "State_store \<Rightarrow> State \<Rightarrow>
     64 word option \<times> 64 word option \<times> Time option \<times> real option \<times> real option" where
  "State_getters \<sigma> this =
     (waypoint \<sigma> this, charging_waypoint \<sigma> this, finish_time \<sigma> this,
      battery_soc \<sigma> this, threshold_soc \<sigma> this)"

section \<open>rmf\_traffic: conflict detection (src/rmf\_traffic/src/rmf\_traffic/DetectConflict.cpp)\<close>

subsection \<open>Trajectories, splines and profiles\<close>

text \<open>
  A trajectory is its waypoints in time order. An iterator is an index into the list;
  \<^verbatim>\<open>begin()\<close> is 0 and \<^verbatim>\<open>end()\<close> is the length. \<^verbatim>\<open>Eigen::Vector3d\<close> (x, y, yaw) and
  \<^verbatim>\<open>Eigen::Vector4d\<close> (the coefficients \<open>a0 .. a3\<close> of one dimension) are tuples.
\<close>

type_synonym Vector3d = "real \<times> real \<times> real"
type_synonym Vector4d = "real \<times> real \<times> real \<times> real"

record Waypoint =
  time :: Time
  position :: Vector3d
  velocity :: Vector3d

type_synonym Trajectory = "Waypoint list"

text \<open>
  \<^verbatim>\<open>Trajectory::start_time()\<close> and \<^verbatim>\<open>finish_time()\<close> return a pointer that is null on an
  empty trajectory.
\<close>

definition Trajectory_start_time :: "Trajectory \<Rightarrow> Time option" where
  "Trajectory_start_time trajectory = (case trajectory of [] \<Rightarrow> None | w # _ \<Rightarrow> Some (time w))"

definition Trajectory_finish_time :: "Trajectory \<Rightarrow> Time option" where
  "Trajectory_finish_time trajectory =
     (if trajectory = [] then None else Some (time (last trajectory)))"

text \<open>
  Modelled from the spec: \<^verbatim>\<open>Trajectory::find\<close> is not among the sources. It seeks the segment
  that contains the given time, a segment being identified by its right-hand waypoint:
  the first waypoint whose time is not before \<open>t\<close>, and \<^verbatim>\<open>end()\<close> when \<open>t\<close> is outside
  the trajectory.
\<close>

definition Trajectory_find :: "Trajectory \<Rightarrow> Time \<Rightarrow> nat" where
  "Trajectory_find trajectory t =
     (case trajectory of
        [] \<Rightarrow> 0
      | w # _ \<Rightarrow>
          if t < time w then length trajectory
          else length (takeWhile (\<lambda>w. time w < t) trajectory))"

text \<open>
  Modelled from the spec: \<^verbatim>\<open>Trajectory::insert\<close> is not among the sources. It keeps the
  waypoints strictly ordered by time; a waypoint whose time is already taken is not
  inserted.
\<close>

fun Trajectory_insert :: "Waypoint \<Rightarrow> Trajectory \<Rightarrow> Trajectory" where
  "Trajectory_insert w [] = [w]"
| "Trajectory_insert w (x # xs) =
     (if time w < time x then w # x # xs
      else if time w = time x then x # xs
      else x # Trajectory_insert w xs)"

text \<open>
  Modelled from the spec: the class \<^verbatim>\<open>Spline\<close> is not among the sources. \<^verbatim>\<open>Spline(it)\<close>
  is the segment between the waypoint before \<open>it\<close> and the waypoint \<open>it\<close>; its start
  time is the left waypoint's time and its finish time the right waypoint's. Built on
  \<^verbatim>\<open>begin()\<close> or on \<^verbatim>\<open>end()\<close> it has no defined value (\<open>None\<close>).
\<close>

type_synonym Spline = "Waypoint \<times> Waypoint"

definition make_Spline :: "Trajectory \<Rightarrow> nat \<Rightarrow> Spline option" where
  "make_Spline trajectory it =
     (if 0 < it \<and> it < length trajectory
      then Some (trajectory ! (it - 1), trajectory ! it) else None)"

definition Spline_start_time :: "Spline \<Rightarrow> Time" where
  "Spline_start_time spline = time (fst spline)"

definition Spline_finish_time :: "Spline \<Rightarrow> Time" where
  "Spline_finish_time spline = time (snd spline)"

text \<open>
  \<^verbatim>\<open>Spline::to_fcl(start, finish)\<close> is the motion of the spline restricted to a time
  window: the spline together with the window.
\<close>

type_synonym Motion = "Spline \<times> Time \<times> Time"

text \<open>
  \<^verbatim>\<open>Profile::Implementation\<close>: two shared pointers to final convex shapes, either of which
  may be null (\<open>None\<close>). A value of \<open>'shape\<close> is the object pointed to, so that equality
  of two \<open>'shape option\<close> is the pointer equality the source tests.
\<close>

record 'shape Profile =
  footprint :: "'shape option"
  vicinity :: "'shape option"

text \<open>
  The collaborators whose code is not among the sources are parameters of the model:
  the characteristic length of a shape, the spline's coefficients, position and velocity,
  FCL's static and continuous collision tests, and the \<^verbatim>\<open>DistanceDifferential\<close> of two
  splines. FCL's continuous test returns the time of contact as a fraction of the
  motion's window when the objects collide.
\<close>

record 'shape collaborators =
  get_characteristic_length :: "'shape \<Rightarrow> real"
  get_params_coeffs :: "Spline \<Rightarrow> Vector4d \<times> Vector4d \<times> Vector4d"
  compute_position :: "Spline \<Rightarrow> Time \<Rightarrow> Vector3d"
  compute_velocity :: "Spline \<Rightarrow> Time \<Rightarrow> Vector3d"
  fcl_collide :: "'shape \<Rightarrow> Vector3d \<Rightarrow> 'shape \<Rightarrow> Vector3d \<Rightarrow> bool"
  fcl_continuous_collide :: "'shape \<Rightarrow> Motion \<Rightarrow> 'shape \<Rightarrow> Motion \<Rightarrow> real option"
  initially_approaching :: "Spline \<Rightarrow> Spline \<Rightarrow> bool"
  approach_times :: "Spline \<Rightarrow> Spline \<Rightarrow> Time list"
  D_start_time :: "Spline \<Rightarrow> Spline \<Rightarrow> Time"
  D_finish_time :: "Spline \<Rightarrow> Spline \<Rightarrow> Time"

datatype error = invalid_trajectory_error nat | undefined_behaviour

subsection \<open>Time overlap and the initial iterators\<close>

text \<open>
  \<^verbatim>\<open>have_time_overlap\<close> dereferences the four time pointers; the assertions say they are
  not null. On an empty trajectory the model has no result (\<open>None\<close>).
\<close>

definition have_time_overlap :: "Trajectory \<Rightarrow> Trajectory \<Rightarrow> bool option" where
  "have_time_overlap trajectory_a trajectory_b =
     (case (Trajectory_start_time trajectory_a, Trajectory_finish_time trajectory_b,
            Trajectory_start_time trajectory_b, Trajectory_finish_time trajectory_a) of
        (Some t_a0, Some t_bf, Some t_b0, Some t_af) \<Rightarrow>
          Some (if t_bf < t_a0 then False
                else if t_af < t_b0 then False
                else True)
      | _ \<Rightarrow> None)"

definition get_initial_iterators :: "Trajectory \<Rightarrow> Trajectory \<Rightarrow> (nat \<times> nat) option" where
  "get_initial_iterators trajectory_a trajectory_b =
     (case (Trajectory_start_time trajectory_a, Trajectory_start_time trajectory_b) of
        (Some t_a0, Some t_b0) \<Rightarrow>
          Some (if t_a0 < t_b0 then (Trajectory_find trajectory_a t_b0, 1)
                else if t_b0 < t_a0 then (1, Trajectory_find trajectory_b t_a0)
                else (1, 1))
      | _ \<Rightarrow> None)"

subsection \<open>Spline extrema and bounding boxes\<close>

fun evaluate_spline :: "Vector4d \<Rightarrow> real \<Rightarrow> real" where
  "evaluate_spline (c0, c1, c2, c3) t = c3 * t * t * t + c2 * t * t + c1 * t + c0"

text \<open>
  The parameters at which \<^verbatim>\<open>get_local_extrema\<close> evaluates the spline besides the two
  endpoints, in the order in which it appends their values to \<^verbatim>\<open>extrema_candidates\<close>.
  The source tests none of them against the interval from 0 to 1.
\<close>

fun critical_parameters :: "Vector4d \<Rightarrow> real list" where
  "critical_parameters (c0, c1, c2, c3) =
     (if \<bar>c3\<bar> < 1 / 10 ^ 12 then
        (if \<bar>c2\<bar> > 1 / 10 ^ 12 then [- c1 / (2 * c2)] else [])
      else
        (let D = 4 * c2\<^sup>2 - 12 * c3 * c1 in
         if \<bar>D\<bar> < 1 / 10 ^ 4 then [(- 2 * c2) / (6 * c3)]
         else if D < 0 then []
         else [((- 2 * c2) + sqrt D) / (6 * c3), ((- 2 * c2) - sqrt D) / (6 * c3)]))"

definition extrema_candidates :: "Vector4d \<Rightarrow> real list" where
  "extrema_candidates coeffs =
     [evaluate_spline coeffs 0, evaluate_spline coeffs 1]
     @ map (evaluate_spline coeffs) (critical_parameters coeffs)"

text \<open>\<^verbatim>\<open>std::min_element\<close> and \<^verbatim>\<open>std::max_element\<close>, dereferenced, on a non-empty vector.\<close>

fun min_element :: "real list \<Rightarrow> real" where
  "min_element [x] = x"
| "min_element (x # y # ys) = min x (min_element (y # ys))"

fun max_element :: "real list \<Rightarrow> real" where
  "max_element [x] = x"
| "max_element (x # y # ys) = max x (max_element (y # ys))"

definition get_local_extrema :: "Vector4d \<Rightarrow> real \<times> real" where
  "get_local_extrema coeffs =
     (min_element (extrema_candidates coeffs), max_element (extrema_candidates coeffs))"

text \<open>
  The corners of a bounding box are doubles that may be infinite: the void box has
  \<open>min = +\<infinity>\<close> and \<open>max = -\<infinity>\<close>.
\<close>

datatype xdouble = MinusInf | Finite real | PlusInf

fun xless :: "xdouble \<Rightarrow> xdouble \<Rightarrow> bool" where
  "xless MinusInf MinusInf = False"
| "xless MinusInf (Finite y) = True"
| "xless MinusInf PlusInf = True"
| "xless (Finite x) MinusInf = False"
| "xless (Finite x) (Finite y) = (x < y)"
| "xless (Finite x) PlusInf = True"
| "xless PlusInf y = False"

fun xplus :: "xdouble \<Rightarrow> real \<Rightarrow> xdouble" where
  "xplus (Finite x) v = Finite (x + v)"
| "xplus MinusInf v = MinusInf"
| "xplus PlusInf v = PlusInf"

type_synonym Vector2d = "xdouble \<times> xdouble"

record BoundingBox =
  box_min :: Vector2d
  box_max :: Vector2d

record BoundingProfile =
  bound_footprint :: BoundingBox
  bound_vicinity :: BoundingBox

definition get_bounding_box :: "'shape collaborators \<Rightarrow> Spline \<Rightarrow> BoundingBox" where
  "get_bounding_box env spline =
     (case get_params_coeffs env spline of
        (coeffs_x, coeffs_y, coeffs_yaw) \<Rightarrow>
          (let extrema_x = get_local_extrema coeffs_x;
               extrema_y = get_local_extrema coeffs_y
           in \<lparr> box_min = (Finite (fst extrema_x), Finite (fst extrema_y)),
                box_max = (Finite (snd extrema_x), Finite (snd extrema_y)) \<rparr>))"

definition void_box :: BoundingBox where
  "void_box = \<lparr> box_min = (PlusInf, PlusInf), box_max = (MinusInf, MinusInf) \<rparr>"

definition adjust_bounding_box :: "BoundingBox \<Rightarrow> real \<Rightarrow> BoundingBox" where
  "adjust_bounding_box input v =
     \<lparr> box_min = (xplus (fst (box_min input)) (- v), xplus (snd (box_min input)) (- v)),
       box_max = (xplus (fst (box_max input)) v, xplus (snd (box_max input)) v) \<rparr>"

definition get_bounding_profile ::
  "'shape collaborators \<Rightarrow> Spline \<Rightarrow> 'shape Profile \<Rightarrow> BoundingProfile" where
  "get_bounding_profile env spline profile =
     (let base_box = get_bounding_box env spline;
          f_box = (case footprint profile of
                     Some f \<Rightarrow> adjust_bounding_box base_box (get_characteristic_length env f)
                   | None \<Rightarrow> void_box);
          v_box = (case vicinity profile of
                     Some v \<Rightarrow> adjust_bounding_box base_box (get_characteristic_length env v)
                   | None \<Rightarrow> void_box)
      in \<lparr> bound_footprint = f_box, bound_vicinity = v_box \<rparr>)"

definition overlap :: "BoundingBox \<Rightarrow> BoundingBox \<Rightarrow> bool" where
  "overlap box_a box_b =
     (if xless (fst (box_max box_a)) (fst (box_min box_b)) then False
      else if xless (fst (box_max box_b)) (fst (box_min box_a)) then False
      else if xless (snd (box_max box_a)) (snd (box_min box_b)) then False
      else if xless (snd (box_max box_b)) (snd (box_min box_a)) then False
      else True)"

subsection \<open>Narrowphase calls, profile normalisation and contact times\<close>

text \<open>
  \<^verbatim>\<open>check_collision\<close> takes its two shapes by reference; the callers pass
  \<^verbatim>\<open>*profile.footprint\<close> and \<^verbatim>\<open>*profile.vicinity\<close>, so a null pointer there is a
  dereference of null.
\<close>

definition check_collision ::
  "'shape collaborators \<Rightarrow> 'shape option \<Rightarrow> Motion \<Rightarrow> 'shape option \<Rightarrow> Motion
     \<Rightarrow> error + real option" where
  "check_collision env shape_a motion_a shape_b motion_b =
     (case (shape_a, shape_b) of
        (Some a, Some b) \<Rightarrow> Inr (fcl_continuous_collide env a motion_a b motion_b)
      | _ \<Rightarrow> Inl undefined_behaviour)"

definition convert_profile :: "'shape Profile \<Rightarrow> 'shape Profile" where
  "convert_profile profile =
     (if vicinity profile = None then profile\<lparr>vicinity := footprint profile\<rparr> else profile)"

text \<open>
  \<^verbatim>\<open>Duration::rep(scaled_time * (finish_time - start_time).count())\<close> converts a double to
  an integer, which truncates towards zero.
\<close>

definition Duration_rep :: "real \<Rightarrow> int" where
  "Duration_rep x = (if 0 \<le> x then \<lfloor>x\<rfloor> else \<lceil>x\<rceil>)"

definition compute_time :: "real \<Rightarrow> Time \<Rightarrow> Time \<Rightarrow> Time" where
  "compute_time scaled_time start finish =
     start + Duration_rep (scaled_time * real_of_int (finish - start))"

subsection \<open>Static overlap and the close start\<close>

text \<open>
  \<^verbatim>\<open>check_overlap\<close> tests the pair (footprint of a, vicinity of b) and then the pair
  (vicinity of a, footprint of b); it dereferences both pointers of a pair before it
  asks FCL, and returns at the first pair that collides.
\<close>

definition check_overlap ::
  "'shape collaborators \<Rightarrow> 'shape Profile \<Rightarrow> Spline \<Rightarrow> 'shape Profile \<Rightarrow> Spline \<Rightarrow> Time
     \<Rightarrow> error + bool" where
  "check_overlap env profile_a spline_a profile_b spline_b t =
     (let pos_a = compute_position env spline_a t;
          pos_b = compute_position env spline_b t
      in case (footprint profile_a, vicinity profile_b) of
           (Some fa, Some vb) \<Rightarrow>
             if fcl_collide env fa pos_a vb pos_b then Inr True
             else (case (vicinity profile_a, footprint profile_b) of
                     (Some va, Some fb) \<Rightarrow>
                       if fcl_collide env va pos_a fb pos_b then Inr True else Inr False
                   | _ \<Rightarrow> Inl undefined_behaviour)
         | _ \<Rightarrow> Inl undefined_behaviour)"

definition close_start ::
  "'shape collaborators \<Rightarrow> 'shape Profile \<Rightarrow> Trajectory \<Rightarrow> nat
     \<Rightarrow> 'shape Profile \<Rightarrow> Trajectory \<Rightarrow> nat \<Rightarrow> error + bool" where
  "close_start env profile_a trajectory_a a_it profile_b trajectory_b b_it =
     (case (make_Spline trajectory_a a_it, make_Spline trajectory_b b_it) of
        (Some spline_a, Some spline_b) \<Rightarrow>
          check_overlap env profile_a spline_a profile_b spline_b
            (max (Spline_start_time spline_a) (Spline_start_time spline_b))
      | _ \<Rightarrow> Inl undefined_behaviour)"

subsection \<open>Invasion mode\<close>

text \<open>
  A conflict is the two iterators and the time. \<^verbatim>\<open>output_conflicts\<close> is a pointer to a
  vector: \<open>None\<close> is the null pointer, \<open>Some cs\<close> the vector's contents. Every function
  that can write to the vector returns its contents next to its own result.
\<close>

type_synonym Conflict = "nat \<times> nat \<times> Time"
type_synonym Conflicts = "Conflict list option"

definition conflict_time :: "Conflict \<Rightarrow> Time" where
  "conflict_time c = snd (snd c)"

definition emplace_back :: "Conflicts \<Rightarrow> Conflict \<Rightarrow> Conflicts" where
  "emplace_back output_conflicts c = map_option (\<lambda>cs. cs @ [c]) output_conflicts"

text \<open>
  The end of \<^verbatim>\<open>detect_invasion\<close> and of \<^verbatim>\<open>detect_approach\<close>: no time without a vector or
  with an empty one, else the time of the vector's front.
\<close>

definition front_time :: "Conflicts \<Rightarrow> Time option" where
  "front_time output_conflicts =
     (case output_conflicts of
        None \<Rightarrow> None
      | Some [] \<Rightarrow> None
      | Some (c # _) \<Rightarrow> Some (conflict_time c))"

text \<open>
  The iterators advance by the finish times of the two current splines.
\<close>

definition advance :: "Spline \<Rightarrow> nat \<Rightarrow> Spline \<Rightarrow> nat \<Rightarrow> nat \<times> nat" where
  "advance spline_a a_it spline_b b_it =
     (if Spline_finish_time spline_a < Spline_finish_time spline_b then (a_it + 1, b_it)
      else if Spline_finish_time spline_b < Spline_finish_time spline_a then (a_it, b_it + 1)
      else (a_it + 1, b_it + 1))"

text \<open>
  One pass through the body of the loop of \<^verbatim>\<open>detect_invasion\<close>, up to the advance of the
  iterators: \<open>Inr (Inl time)\<close> is the \<^verbatim>\<open>return time\<close> taken when there is no vector,
  \<open>Inr (Inr out)\<close> carries the vector on to the next pass.
\<close>

definition invasion_step ::
  "'shape collaborators \<Rightarrow> 'shape Profile \<Rightarrow> Spline \<Rightarrow> nat \<Rightarrow> 'shape Profile \<Rightarrow> Spline \<Rightarrow> nat
     \<Rightarrow> Conflicts \<Rightarrow> error + (Time + Conflicts)" where
  "invasion_step env profile_a spline_a a_it profile_b spline_b b_it output_conflicts =
     (let test_complement =
            (vicinity profile_a \<noteq> footprint profile_a \<or> vicinity profile_b \<noteq> footprint profile_b);
          start = max (Spline_start_time spline_a) (Spline_start_time spline_b);
          finish = min (Spline_finish_time spline_a) (Spline_finish_time spline_b);
          motion_a = (spline_a, start, finish);
          motion_b = (spline_b, start, finish);
          bound_a = get_bounding_profile env spline_a profile_a;
          bound_b = get_bounding_profile env spline_b profile_b
      in
      case (if overlap (bound_footprint bound_a) (bound_vicinity bound_b)
            then check_collision env (footprint profile_a) motion_a (vicinity profile_b) motion_b
            else Inr None) of
        Inl e \<Rightarrow> Inl e
      | Inr collision1 \<Rightarrow>
          (case (collision1, output_conflicts) of
             (Some c, None) \<Rightarrow> Inr (Inl (compute_time c start finish))
           | _ \<Rightarrow>
             (let out1 =
                    (case collision1 of
                       None \<Rightarrow> output_conflicts
                     | Some c \<Rightarrow>
                         emplace_back output_conflicts (a_it, b_it, compute_time c start finish))
              in
              case (if test_complement \<and> overlap (bound_vicinity bound_a) (bound_footprint bound_b)
                    then check_collision env (vicinity profile_a) motion_a
                           (footprint profile_b) motion_b
                    else Inr None) of
                Inl e \<Rightarrow> Inl e
              | Inr collision2 \<Rightarrow>
                  (case (collision2, out1) of
                     (Some c, None) \<Rightarrow> Inr (Inl (compute_time c start finish))
                   | _ \<Rightarrow>
                       Inr (Inr (case collision2 of
                                   None \<Rightarrow> out1
                                 | Some c \<Rightarrow>
                                     emplace_back out1
                                       (a_it, b_it, compute_time c start finish)))))))"

function detect_invasion_loop ::
  "'shape collaborators \<Rightarrow> 'shape Profile \<Rightarrow> Trajectory \<Rightarrow> nat
     \<Rightarrow> 'shape Profile \<Rightarrow> Trajectory \<Rightarrow> nat \<Rightarrow> Conflicts \<Rightarrow> error + (Time + Conflicts)" where
  "detect_invasion_loop env profile_a trajectory_a a_it profile_b trajectory_b b_it out =
     (if a_it < length trajectory_a \<and> b_it < length trajectory_b then
        (case (make_Spline trajectory_a a_it, make_Spline trajectory_b b_it) of
           (Some spline_a, Some spline_b) \<Rightarrow>
             (case invasion_step env profile_a spline_a a_it profile_b spline_b b_it out of
                Inl e \<Rightarrow> Inl e
              | Inr (Inl t) \<Rightarrow> Inr (Inl t)
              | Inr (Inr out') \<Rightarrow>
                  detect_invasion_loop env
                    profile_a trajectory_a (fst (advance spline_a a_it spline_b b_it))
                    profile_b trajectory_b (snd (advance spline_a a_it spline_b b_it)) out')
         | _ \<Rightarrow> Inl undefined_behaviour)
      else Inr (Inr out))"
  by pat_completeness auto
termination
  by (relation "measure (\<lambda>(env, pa, ta, a_it, pb, tb, b_it, out).
                   (length ta - a_it) + (length tb - b_it))")
     (auto simp: advance_def)

declare detect_invasion_loop.simps [simp del]

text \<open>
  \<^verbatim>\<open>detect_invasion\<close> clears the vector, runs the loop, and ends on the front of the
  vector. The result is the returned time and the final contents of the vector.
\<close>

definition detect_invasion ::
  "'shape collaborators \<Rightarrow> 'shape Profile \<Rightarrow> Trajectory \<Rightarrow> nat
     \<Rightarrow> 'shape Profile \<Rightarrow> Trajectory \<Rightarrow> nat \<Rightarrow> Conflicts
     \<Rightarrow> error + (Time option \<times> Conflicts)" where
  "detect_invasion env profile_a trajectory_a a_it profile_b trajectory_b b_it output_conflicts =
     (case detect_invasion_loop env profile_a trajectory_a a_it profile_b trajectory_b b_it
             (map_option (\<lambda>cs. []) output_conflicts) of
        Inl e \<Rightarrow> Inl e
      | Inr (Inl t) \<Rightarrow> Inr (Some t, None)
      | Inr (Inr out) \<Rightarrow> Inr (front_time out, out))"

subsection \<open>Approach mode\<close>

definition slice_trajectory ::
  "'shape collaborators \<Rightarrow> Time \<Rightarrow> Spline \<Rightarrow> Trajectory \<Rightarrow> nat \<Rightarrow> Trajectory" where
  "slice_trajectory env t spline trajectory it =
     fold Trajectory_insert (drop it trajectory)
       [\<lparr> time = t,
          position = compute_position env spline t,
          velocity = compute_velocity env spline t \<rparr>]"

text \<open>
  The loop of \<^verbatim>\<open>detect_approach\<close> over the approach times of one pair of splines.
  \<open>Inr (Inl r)\<close> is a \<^verbatim>\<open>return\<close> out of \<^verbatim>\<open>detect_approach\<close> with the result \<open>r\<close>,
  \<open>Inr (Inr out)\<close> is the end of the loop with the vector \<open>out\<close>.
\<close>

fun approach_times_loop ::
  "'shape collaborators \<Rightarrow> 'shape Profile \<Rightarrow> Trajectory \<Rightarrow> Spline \<Rightarrow> nat
     \<Rightarrow> 'shape Profile \<Rightarrow> Trajectory \<Rightarrow> Spline \<Rightarrow> nat \<Rightarrow> Time list \<Rightarrow> Conflicts
     \<Rightarrow> error + ((Time option \<times> Conflicts) + Conflicts)" where
  "approach_times_loop env profile_a trajectory_a spline_a a_it
       profile_b trajectory_b spline_b b_it [] out = Inr (Inr out)"
| "approach_times_loop env profile_a trajectory_a spline_a a_it
       profile_b trajectory_b spline_b b_it (t # ts) out =
     (case check_overlap env profile_a spline_a profile_b spline_b t of
        Inl e \<Rightarrow> Inl e
      | Inr False \<Rightarrow>
          (case detect_invasion env
                  profile_a (slice_trajectory env t spline_a trajectory_a a_it) 1
                  profile_b (slice_trajectory env t spline_b trajectory_b b_it) 1 out of
             Inl e \<Rightarrow> Inl e
           | Inr r \<Rightarrow> Inr (Inl r))
      | Inr True \<Rightarrow>
          (case out of
             None \<Rightarrow> Inr (Inl (Some t, None))
           | Some cs \<Rightarrow>
               approach_times_loop env profile_a trajectory_a spline_a a_it
                 profile_b trajectory_b spline_b b_it ts (emplace_back out (a_it, b_it, t))))"

text \<open>
  One pass through the body of the loop of \<^verbatim>\<open>detect_approach\<close>, up to the advance of the
  iterators: a \<^verbatim>\<open>return\<close> with its result, or the vector and \<^verbatim>\<open>still_close\<close>.
\<close>

definition approach_step ::
  "'shape collaborators \<Rightarrow> 'shape Profile \<Rightarrow> Trajectory \<Rightarrow> Spline \<Rightarrow> nat
     \<Rightarrow> 'shape Profile \<Rightarrow> Trajectory \<Rightarrow> Spline \<Rightarrow> nat \<Rightarrow> Conflicts
     \<Rightarrow> error + ((Time option \<times> Conflicts) + (Conflicts \<times> bool))" where
  "approach_step env profile_a trajectory_a spline_a a_it
       profile_b trajectory_b spline_b b_it output_conflicts =
     (if initially_approaching env spline_a spline_b \<and> output_conflicts = None
      then Inr (Inl (Some (D_start_time env spline_a spline_b), None))
      else
        (let out0 =
               (if initially_approaching env spline_a spline_b
                then emplace_back output_conflicts
                       (a_it, b_it, D_start_time env spline_a spline_b)
                else output_conflicts)
         in
         case approach_times_loop env profile_a trajectory_a spline_a a_it
                profile_b trajectory_b spline_b b_it (approach_times env spline_a spline_b) out0 of
           Inl e \<Rightarrow> Inl e
         | Inr (Inl r) \<Rightarrow> Inr (Inl r)
         | Inr (Inr out1) \<Rightarrow>
             (case check_overlap env profile_a spline_a profile_b spline_b
                     (D_finish_time env spline_a spline_b) of
                Inl e \<Rightarrow> Inl e
              | Inr still_close \<Rightarrow> Inr (Inr (out1, still_close)))))"

function detect_approach ::
  "'shape collaborators \<Rightarrow> 'shape Profile \<Rightarrow> Trajectory \<Rightarrow> nat
     \<Rightarrow> 'shape Profile \<Rightarrow> Trajectory \<Rightarrow> nat \<Rightarrow> Conflicts
     \<Rightarrow> error + (Time option \<times> Conflicts)" where
  "detect_approach env profile_a trajectory_a a_it profile_b trajectory_b b_it out =
     (if a_it < length trajectory_a \<and> b_it < length trajectory_b then
        (case (make_Spline trajectory_a a_it, make_Spline trajectory_b b_it) of
           (Some spline_a, Some spline_b) \<Rightarrow>
             (case approach_step env profile_a trajectory_a spline_a a_it
                     profile_b trajectory_b spline_b b_it out of
                Inl e \<Rightarrow> Inl e
              | Inr (Inl r) \<Rightarrow> Inr r
              | Inr (Inr (out', still_close)) \<Rightarrow>
                  if \<not> still_close then
                    detect_invasion env
                      profile_a trajectory_a (fst (advance spline_a a_it spline_b b_it))
                      profile_b trajectory_b (snd (advance spline_a a_it spline_b b_it)) out'
                  else
                    detect_approach env
                      profile_a trajectory_a (fst (advance spline_a a_it spline_b b_it))
                      profile_b trajectory_b (snd (advance spline_a a_it spline_b b_it)) out')
         | _ \<Rightarrow> Inl undefined_behaviour)
      else Inr (front_time out, out))"
  by pat_completeness auto
termination
  by (relation "measure (\<lambda>(env, pa, ta, a_it, pb, tb, b_it, out).
                   (length ta - a_it) + (length tb - b_it))")
     (auto simp: advance_def)

declare detect_approach.simps [simp del]

subsection \<open>The entry point\<close>

text \<open>
  \<^verbatim>\<open>DetectConflict::Implementation::between\<close>. The public \<^verbatim>\<open>DetectConflict::between\<close> calls it
  without a vector (\<open>None\<close>); the extended form passes one. A thrown
  \<^verbatim>\<open>invalid_trajectory_error\<close> carries the size of the rejected trajectory.
\<close>

definition between ::
  "'shape collaborators \<Rightarrow> 'shape Profile \<Rightarrow> Trajectory \<Rightarrow> 'shape Profile \<Rightarrow> Trajectory
     \<Rightarrow> Conflicts \<Rightarrow> error + (Time option \<times> Conflicts)" where
  "between env input_profile_a trajectory_a input_profile_b trajectory_b output_conflicts =
     (if length trajectory_a < 2 then Inl (invalid_trajectory_error (length trajectory_a))
      else if length trajectory_b < 2 then Inl (invalid_trajectory_error (length trajectory_b))
      else
        (let profile_a = convert_profile input_profile_a;
             profile_b = convert_profile input_profile_b
         in
         if footprint profile_a = None \<and> footprint profile_b = None
         then Inr (None, output_conflicts)
         else if vicinity profile_a = None \<or> vicinity profile_b = None
         then Inr (None, output_conflicts)
         else
           (case have_time_overlap trajectory_a trajectory_b of
              None \<Rightarrow> Inl undefined_behaviour
            | Some False \<Rightarrow> Inr (None, output_conflicts)
            | Some True \<Rightarrow>
                (case get_initial_iterators trajectory_a trajectory_b of
                   None \<Rightarrow> Inl undefined_behaviour
                 | Some (a_it, b_it) \<Rightarrow>
                     (case close_start env profile_a trajectory_a a_it
                             profile_b trajectory_b b_it of
                        Inl e \<Rightarrow> Inl e
                      | Inr True \<Rightarrow>
                          detect_approach env profile_a trajectory_a a_it
                            profile_b trajectory_b b_it output_conflicts
                      | Inr False \<Rightarrow>
                          detect_invasion env profile_a trajectory_a a_it
                            profile_b trajectory_b b_it output_conflicts)))))"

subsection \<open>A trajectory against a region\<close>

text \<open>
  \<^verbatim>\<open>Spacetime\<close>: the optional time bounds, the pose and a pointer to the region's final
  shape. The shape is seen only through the list of its collision geometries; \<open>None\<close>
  is the null pointer.
\<close>

record 'geom Spacetime =
  lower_time_bound :: "Time option"
  upper_time_bound :: "Time option"
  pose :: Vector3d
  shape :: "'geom list option"

text \<open>
  The inner loop of \<^verbatim>\<open>internal::detect_conflicts\<close> over the collision geometries of the
  region, for the spline at \<open>it\<close>. \<open>collide\<close> is FCL's continuous test of the vicinity on
  its motion against one geometry standing at the region's pose. \<open>Inr (Inl True)\<close> is
  the \<^verbatim>\<open>return true\<close> taken when there is no vector.
\<close>

fun region_shapes_loop ::
  "('shape \<Rightarrow> Motion \<Rightarrow> 'geom \<Rightarrow> Vector3d \<Rightarrow> real option) \<Rightarrow> 'shape \<Rightarrow> Motion \<Rightarrow> Vector3d
     \<Rightarrow> nat \<Rightarrow> 'geom list \<Rightarrow> Conflicts \<Rightarrow> bool + Conflicts" where
  "region_shapes_loop collide vic motion region_pose it [] out = Inr out"
| "region_shapes_loop collide vic motion region_pose it (region_shape # rest) out =
     (case collide vic motion region_shape region_pose of
        None \<Rightarrow> region_shapes_loop collide vic motion region_pose it rest out
      | Some time_of_contact \<Rightarrow>
          (case out of
             None \<Rightarrow> Inl True
           | Some cs \<Rightarrow>
               region_shapes_loop collide vic motion region_pose it rest
                 (emplace_back out
                    (it, it, compute_time time_of_contact (fst (snd motion)) (snd (snd motion))))))"

text \<open>
  The loop \<^verbatim>\<open>for (auto it = begin_it; it != end_it; ++it)\<close>. The assertion on the region's
  shape stands inside the loop; without it the null pointer is dereferenced.
\<close>

function region_loop ::
  "('shape \<Rightarrow> Motion \<Rightarrow> 'geom \<Rightarrow> Vector3d \<Rightarrow> real option) \<Rightarrow> 'shape \<Rightarrow> Trajectory
     \<Rightarrow> 'geom Spacetime \<Rightarrow> Time \<Rightarrow> Time \<Rightarrow> nat \<Rightarrow> nat \<Rightarrow> Conflicts
     \<Rightarrow> error + (bool + Conflicts)" where
  "region_loop collide vic trajectory region start finish it end_it out =
     (if it = end_it then Inr (Inr out)
      else
        (case make_Spline trajectory it of
           None \<Rightarrow> Inl undefined_behaviour
         | Some spline_trajectory \<Rightarrow>
             (case shape region of
                None \<Rightarrow> Inl undefined_behaviour
              | Some region_shapes \<Rightarrow>
                  (case region_shapes_loop collide vic
                          (spline_trajectory,
                           max (Spline_start_time spline_trajectory) start,
                           min (Spline_finish_time spline_trajectory) finish)
                          (pose region) it region_shapes out of
                     Inl b \<Rightarrow> Inr (Inl b)
                   | Inr out' \<Rightarrow>
                       region_loop collide vic trajectory region start finish
                         (it + 1) end_it out'))))"
  by pat_completeness auto
termination
  by (relation "measure (\<lambda>(collide, vic, trajectory, region, start, finish, it, end_it, out).
                   length trajectory - it)")
     (auto simp: make_Spline_def split: if_splits)

declare region_loop.simps [simp del]

text \<open>
  Modelled from the spec: the public getter \<^verbatim>\<open>Profile::vicinity()\<close> is not among the
  sources. The spec's profile has a vicinity that, if absent, is normalised to equal the
  footprint: the getter returns the profile's own vicinity when there is one and the
  footprint otherwise. \<^verbatim>\<open>between\<close> does not use the getter; it reads the fields through
  \<^verbatim>\<open>Profile::Implementation::get\<close> and normalises them with \<^verbatim>\<open>convert_profile\<close>.
\<close>

definition Profile_vicinity :: "'shape Profile \<Rightarrow> 'shape option" where
  "Profile_vicinity profile =
     (case vicinity profile of Some v \<Rightarrow> Some v | None \<Rightarrow> footprint profile)"

text \<open>
  \<^verbatim>\<open>internal::detect_conflicts\<close>. \<open>NDEBUG\<close> says whether the build defines the macro: the
  check of the trajectory's size is compiled only when it does not. The vicinity is what
  the getter \<^verbatim>\<open>profile.vicinity()\<close> returns.
\<close>

definition detect_conflicts ::
  "bool \<Rightarrow> ('shape \<Rightarrow> Motion \<Rightarrow> 'geom \<Rightarrow> Vector3d \<Rightarrow> real option)
     \<Rightarrow> 'shape Profile \<Rightarrow> Trajectory \<Rightarrow> 'geom Spacetime \<Rightarrow> Conflicts
     \<Rightarrow> error + (bool \<times> Conflicts)" where
  "detect_conflicts NDEBUG collide profile trajectory region output_conflicts =
     (if \<not> NDEBUG \<and> length trajectory < 2
      then Inl (invalid_trajectory_error (length trajectory))
      else
        (case Profile_vicinity profile of
           None \<Rightarrow> Inr (False, output_conflicts)
         | Some vic \<Rightarrow>
             (case (Trajectory_start_time trajectory, Trajectory_finish_time trajectory) of
                (Some trajectory_start_time, Some trajectory_finish_time) \<Rightarrow>
                  (let start =
                         (case lower_time_bound region of
                            Some l \<Rightarrow> max l trajectory_start_time
                          | None \<Rightarrow> trajectory_start_time);
                       finish =
                         (case upper_time_bound region of
                            Some u \<Rightarrow> min u trajectory_finish_time
                          | None \<Rightarrow> trajectory_finish_time)
                   in
                   if finish < start then Inr (False, output_conflicts)
                   else
                     (let begin_it =
                            (if trajectory_start_time < start
                             then Trajectory_find trajectory start else 1);
                          end_it =
                            (if finish < trajectory_finish_time
                             then Trajectory_find trajectory finish + 1
                             else length trajectory)
                      in
                      case region_loop collide vic trajectory region start finish
                             begin_it end_it (map_option (\<lambda>cs. []) output_conflicts) of
                        Inl e \<Rightarrow> Inl e
                      | Inr (Inl b) \<Rightarrow> Inr (b, None)
                      | Inr (Inr out) \<Rightarrow>
                          Inr (case out of
                                 None \<Rightarrow> (False, None)
                               | Some cs \<Rightarrow> (cs \<noteq> [], out))))
              | _ \<Rightarrow> Inl undefined_behaviour)))"

subsection \<open>Invasion mode from the start, ordered trajectories, contact fractions\<close>

text \<open>
  \<^verbatim>\<open>between\<close> enters approach mode when \<^verbatim>\<open>close_start\<close> holds at the initial iterators,
  and invasion mode otherwise.
\<close>

definition close_at_start ::
  "'shape collaborators \<Rightarrow> 'shape Profile \<Rightarrow> Trajectory \<Rightarrow> 'shape Profile \<Rightarrow> Trajectory
     \<Rightarrow> bool" where
  "close_at_start env input_profile_a trajectory_a input_profile_b trajectory_b =
     (case get_initial_iterators trajectory_a trajectory_b of
        None \<Rightarrow> False
      | Some (a_it, b_it) \<Rightarrow>
          close_start env (convert_profile input_profile_a) trajectory_a a_it
            (convert_profile input_profile_b) trajectory_b b_it = Inr True)"

text \<open>The invariant of the data model: waypoint times are strictly increasing.\<close>

definition strictly_increasing :: "Trajectory \<Rightarrow> bool" where
  "strictly_increasing trajectory = sorted_wrt (\<lambda>v w. time v < time w) trajectory"

text \<open>
  The contract of the continuous collision test: the time of contact is a fraction of
  the motion's window, between 0 and 1.
\<close>

definition contact_fractions_in_range :: "'shape collaborators \<Rightarrow> bool" where
  "contact_fractions_in_range env \<longleftrightarrow>
     (\<forall>shape_a motion_a shape_b motion_b x.
         fcl_continuous_collide env shape_a motion_a shape_b motion_b = Some x
           \<longrightarrow> 0 \<le> x \<and> x \<le> 1)"

text \<open>
  The splines at the two iterators overlap in time: each starts no later than the other
  finishes.
\<close>

definition aligned :: "Trajectory \<Rightarrow> nat \<Rightarrow> Trajectory \<Rightarrow> nat \<Rightarrow> bool" where
  "aligned trajectory_a a_it trajectory_b b_it \<longleftrightarrow>
     0 < a_it \<and> 0 < b_it
     \<and> time (trajectory_a ! (a_it - 1)) \<le> time (trajectory_b ! b_it)
     \<and> time (trajectory_b ! (b_it - 1)) \<le> time (trajectory_a ! a_it)"

text \<open>Two conflicts found on the same pair of splines carry the same two iterators.\<close>

definition same_pair :: "Conflict \<Rightarrow> Conflict \<Rightarrow> bool" where
  "same_pair c c' \<longleftrightarrow> fst c = fst c' \<and> fst (snd c) = fst (snd c')"

subsection \<open>Symmetric collaborators\<close>

text \<open>
  The collaborators do not depend on the order in which the two vehicles are given:
  FCL's tests and the distance differential of two splines are symmetric.
\<close>

definition symmetric_collaborators :: "'shape collaborators \<Rightarrow> bool" where
  "symmetric_collaborators env \<longleftrightarrow>
     (\<forall>shape_a pos_a shape_b pos_b.
         fcl_collide env shape_a pos_a shape_b pos_b = fcl_collide env shape_b pos_b shape_a pos_a)
   \<and> (\<forall>shape_a motion_a shape_b motion_b.
         fcl_continuous_collide env shape_a motion_a shape_b motion_b
           = fcl_continuous_collide env shape_b motion_b shape_a motion_a)
   \<and> (\<forall>spline_a spline_b.
         initially_approaching env spline_a spline_b = initially_approaching env spline_b spline_a)
   \<and> (\<forall>spline_a spline_b.
         approach_times env spline_a spline_b = approach_times env spline_b spline_a)
   \<and> (\<forall>spline_a spline_b.
         D_start_time env spline_a spline_b = D_start_time env spline_b spline_a)
   \<and> (\<forall>spline_a spline_b.
         D_finish_time env spline_a spline_b = D_finish_time env spline_b spline_a)"

subsection \<open>An instance of the collaborators: discs in uniform motion\<close>

text \<open>
  The theorems below hold for every choice of the collaborators. To run the engine on a
  concrete input the collaborators are instantiated as follows. A shape is a disc, given
  by its radius (in absolute value), which is also its characteristic length. A spline is the cubic Hermite
  segment through its two waypoints (positions, and velocities scaled by the duration in
  seconds), as the spec describes it. FCL's static test says whether two discs touch.
  FCL's continuous test and the distance differential are written out for the motions
  used here, in which each vehicle moves with constant velocity along the x axis over
  the window: the distance \<open>d\<close> between the centres is then linear in the fraction of the
  window, the first contact is where \<open>\<bar>d\<bar>\<close> reaches the sum of the radii, and the
  derivative of \<open>d\<^sup>2\<close> never turns from non-negative to negative.
\<close>

definition to_seconds :: "int \<Rightarrow> real" where
  "to_seconds d = real_of_int d / 10 ^ 9"

definition hermite :: "real \<Rightarrow> real \<Rightarrow> real \<Rightarrow> real \<Rightarrow> Vector4d" where
  "hermite x0 x1 v0 v1 =
     (x0, v0, - 3 * x0 + 3 * x1 - 2 * v0 - v1, 2 * x0 - 2 * x1 + v0 + v1)"

definition hermite_coeffs :: "Spline \<Rightarrow> Vector4d \<times> Vector4d \<times> Vector4d" where
  "hermite_coeffs spline =
     (case (position (fst spline), position (snd spline),
            velocity (fst spline), velocity (snd spline)) of
        ((x0, y0, w0), (x1, y1, w1), (vx0, vy0, vw0), (vx1, vy1, vw1)) \<Rightarrow>
          (let delta_t = to_seconds (time (snd spline) - time (fst spline))
           in (hermite x0 x1 (delta_t * vx0) (delta_t * vx1),
               hermite y0 y1 (delta_t * vy0) (delta_t * vy1),
               hermite w0 w1 (delta_t * vw0) (delta_t * vw1))))"

definition hermite_position :: "Spline \<Rightarrow> Time \<Rightarrow> Vector3d" where
  "hermite_position spline t =
     (case hermite_coeffs spline of
        (cx, cy, cw) \<Rightarrow>
          (let tau = real_of_int (t - time (fst spline))
                       / real_of_int (time (snd spline) - time (fst spline))
           in (evaluate_spline cx tau, evaluate_spline cy tau, evaluate_spline cw tau)))"

fun evaluate_derivative :: "Vector4d \<Rightarrow> real \<Rightarrow> real" where
  "evaluate_derivative (c0, c1, c2, c3) t = 3 * c3 * t * t + 2 * c2 * t + c1"

definition hermite_velocity :: "Spline \<Rightarrow> Time \<Rightarrow> Vector3d" where
  "hermite_velocity spline t =
     (case hermite_coeffs spline of
        (cx, cy, cw) \<Rightarrow>
          (let delta_t = to_seconds (time (snd spline) - time (fst spline));
               tau = real_of_int (t - time (fst spline))
                       / real_of_int (time (snd spline) - time (fst spline))
           in (evaluate_derivative cx tau / delta_t,
               evaluate_derivative cy tau / delta_t,
               evaluate_derivative cw tau / delta_t)))"

definition discs_collide :: "real \<Rightarrow> Vector3d \<Rightarrow> real \<Rightarrow> Vector3d \<Rightarrow> bool" where
  "discs_collide radius_a pos_a radius_b pos_b =
     ((fst pos_a - fst pos_b)\<^sup>2 + (fst (snd pos_a) - fst (snd pos_b))\<^sup>2
        \<le> (\<bar>radius_a\<bar> + \<bar>radius_b\<bar>)\<^sup>2)"

text \<open>The signed distance along x between the centres at an instant.\<close>

definition x_gap :: "Spline \<Rightarrow> Spline \<Rightarrow> Time \<Rightarrow> real" where
  "x_gap spline_a spline_b t =
     fst (hermite_position spline_a t) - fst (hermite_position spline_b t)"

text \<open>
  The x coordinates of the centre at the start and at the end of a motion's window.
\<close>

definition motion_x :: "Motion \<Rightarrow> real \<times> real" where
  "motion_x motion =
     (fst (hermite_position (fst motion) (fst (snd motion))),
      fst (hermite_position (fst motion) (snd (snd motion))))"

definition discs_first_contact :: "real \<Rightarrow> Motion \<Rightarrow> real \<Rightarrow> Motion \<Rightarrow> real option" where
  "discs_first_contact radius_a motion_a radius_b motion_b =
     (let d0 = fst (motion_x motion_a) - fst (motion_x motion_b);
          d1 = snd (motion_x motion_a) - snd (motion_x motion_b);
          r = \<bar>radius_a\<bar> + \<bar>radius_b\<bar>
      in if \<bar>d0\<bar> \<le> r then Some 0
         else if r < d0 then (if d1 \<le> r then Some ((d0 - r) / (d0 - d1)) else None)
         else (if - r \<le> d1 then Some ((- r - d0) / (d1 - d0)) else None))"

definition uniform_start_time :: "Spline \<Rightarrow> Spline \<Rightarrow> Time" where
  "uniform_start_time spline_a spline_b =
     max (Spline_start_time spline_a) (Spline_start_time spline_b)"

definition uniform_finish_time :: "Spline \<Rightarrow> Spline \<Rightarrow> Time" where
  "uniform_finish_time spline_a spline_b =
     min (Spline_finish_time spline_a) (Spline_finish_time spline_b)"

definition uniform_initially_approaching :: "Spline \<Rightarrow> Spline \<Rightarrow> bool" where
  "uniform_initially_approaching spline_a spline_b =
     (let d0 = x_gap spline_a spline_b (uniform_start_time spline_a spline_b);
          d1 = x_gap spline_a spline_b (uniform_finish_time spline_a spline_b)
      in d0 * (d1 - d0) < 0)"

definition discs :: "real collaborators" where
  "discs =
     \<lparr> get_characteristic_length = (\<lambda>radius. \<bar>radius\<bar>),
       get_params_coeffs = hermite_coeffs,
       compute_position = hermite_position,
       compute_velocity = hermite_velocity,
       fcl_collide = discs_collide,
       fcl_continuous_collide = discs_first_contact,
       initially_approaching = uniform_initially_approaching,
       approach_times = (\<lambda>spline_a spline_b. []),
       D_start_time = uniform_start_time,
       D_finish_time = uniform_finish_time \<rparr>"

text \<open>
  Two vehicles for ten seconds: the first stands at the origin, the second drives from
  \<open>x = 10\<close> to the origin at one metre per second. The first has a footprint of radius
  \<open>0.1\<close> and a vicinity of radius 1, the second a footprint of radius \<open>0.1\<close> and no
  vicinity of its own.
\<close>

definition standing :: Trajectory where
  "standing =
     [\<lparr> time = 0, position = (0, 0, 0), velocity = (0, 0, 0) \<rparr>,
      \<lparr> time = 10000000000, position = (0, 0, 0), velocity = (0, 0, 0) \<rparr>]"

definition driving :: Trajectory where
  "driving =
     [\<lparr> time = 0, position = (10, 0, 0), velocity = (- 1, 0, 0) \<rparr>,
      \<lparr> time = 10000000000, position = (0, 0, 0), velocity = (- 1, 0, 0) \<rparr>]"

definition wide_profile :: "real Profile" where
  "wide_profile = \<lparr> footprint = Some (1 / 10), vicinity = Some 1 \<rparr>"

definition plain_profile :: "real Profile" where
  "plain_profile = \<lparr> footprint = Some (1 / 10), vicinity = None \<rparr>"

text \<open>The same drive twenty seconds later, after the standing vehicle's plan has ended.\<close>

definition driving_later :: Trajectory where
  "driving_later =
     [\<lparr> time = 20000000000, position = (10, 0, 0), velocity = (- 1, 0, 0) \<rparr>,
      \<lparr> time = 30000000000, position = (0, 0, 0), velocity = (- 1, 0, 0) \<rparr>]"

text \<open>
  A third plan: the vehicle starts half a metre from the origin, inside the standing
  vehicle's vicinity, and drives through to \<open>x = - 10\<close> in ten seconds.
\<close>

definition passing :: Trajectory where
  "passing =
     [\<lparr> time = 0, position = (1 / 2, 0, 0), velocity = (- 21 / 20, 0, 0) \<rparr>,
      \<lparr> time = 10000000000, position = (- 10, 0, 0), velocity = (- 21 / 20, 0, 0) \<rparr>]"

definition passing_spline :: Spline where
  "passing_spline = (passing ! 0, passing ! 1)"

text \<open>
  A region: a disc of radius 1 standing at the origin, with no time bounds. The
  continuous test of a moving disc against a standing one is written out as for two
  moving discs.
\<close>

definition disc_region_contact :: "real \<Rightarrow> Motion \<Rightarrow> real \<Rightarrow> Vector3d \<Rightarrow> real option" where
  "disc_region_contact radius motion region_radius region_pose =
     (let d0 = fst (motion_x motion) - fst region_pose;
          d1 = snd (motion_x motion) - fst region_pose;
          r = \<bar>radius\<bar> + \<bar>region_radius\<bar>
      in if \<bar>d0\<bar> \<le> r then Some 0
         else if r < d0 then (if d1 \<le> r then Some ((d0 - r) / (d0 - d1)) else None)
         else (if - r \<le> d1 then Some ((- r - d0) / (d1 - d0)) else None))"

definition disc_region :: "real Spacetime" where
  "disc_region =
     \<lparr> lower_time_bound = None, upper_time_bound = None, pose = (0, 0, 0),
       shape = Some [1] \<rparr>"

definition standing_spline :: Spline where
  "standing_spline = (standing ! 0, standing ! 1)"

definition driving_spline :: Spline where
  "driving_spline = (driving ! 0, driving ! 1)"

section \<open>rmf\_traffic: the reservation system\<close>

text \<open>
  Modelled from the spec: the class \<^verbatim>\<open>ReservationSystem\<close> is not among the sources; only
  its unit test (test/unit/reservation/test\_ReservationSystem.cpp) is. The definitions
  below follow the words of the specification. A reservation is an id, a resource, a
  start and an end, the end being absent for an indefinite hold. It occupies the
  half-open interval from its start to its end. The scheduler holds the reservations
  made so far and the next fresh id.
\<close>

record Reservation =
  reservation_id :: nat
  reservation_waypoint :: string
  reservation_start :: Time
  reservation_end :: "Time option"

record ReservationSystem =
  reservations :: "Reservation list"
  next_id :: nat

text \<open>Modelled from the spec: a scheduler starts with no reservation.\<close>

definition empty_system :: ReservationSystem where
  "empty_system = \<lparr> reservations = [], next_id = 0 \<rparr>"

text \<open>
  Modelled from the spec: two half-open intervals overlap when some instant lies in
  both, that is, when the later start is before the earlier end; touching endpoints do
  not overlap. An absent end is \<open>+\<infinity>\<close>.
\<close>

definition intervals_overlap :: "Time \<Rightarrow> Time option \<Rightarrow> Time \<Rightarrow> Time option \<Rightarrow> bool" where
  "intervals_overlap s1 e1 s2 e2 =
     (case (e1, e2) of
        (None, None) \<Rightarrow> True
      | (Some a, None) \<Rightarrow> max s1 s2 < a
      | (None, Some b) \<Rightarrow> max s1 s2 < b
      | (Some a, Some b) \<Rightarrow> max s1 s2 < min a b)"

text \<open>
  Modelled from the spec: a resource conflicts with a requested interval when an
  existing reservation on that resource overlaps it.
\<close>

definition conflicts_with :: "Reservation \<Rightarrow> string \<Rightarrow> Time \<Rightarrow> Time option \<Rightarrow> bool" where
  "conflicts_with r resource start finish =
     (reservation_waypoint r = resource \<and>
      intervals_overlap (reservation_start r) (reservation_end r) start finish)"

text \<open>
  Modelled from the spec: a resource is free for a requested interval when no existing
  reservation conflicts with it there.
\<close>

definition is_free :: "ReservationSystem \<Rightarrow> Time \<Rightarrow> Time option \<Rightarrow> string \<Rightarrow> bool" where
  "is_free sys start finish resource =
     list_all (\<lambda>r. \<not> conflicts_with r resource start finish) (reservations sys)"

text \<open>
  Modelled from the spec: \<^verbatim>\<open>reserve(start_time, resources, optional duration)\<close> tries the
  resources in the given order and accepts the first one that is free over the requested
  interval; the accepted reservation carries the chosen resource and a fresh id.
\<close>

definition reserve ::
  "ReservationSystem \<Rightarrow> Time \<Rightarrow> string list \<Rightarrow> int option
     \<Rightarrow> Reservation option \<times> ReservationSystem" where
  "reserve sys start resources duration =
     (let finish = map_option (\<lambda>d. start + d) duration in
      case List.find (is_free sys start finish) resources of
        None \<Rightarrow> (None, sys)
      | Some resource \<Rightarrow>
          (let r = \<lparr> reservation_id = next_id sys,
                      reservation_waypoint = resource,
                      reservation_start = start,
                      reservation_end = finish \<rparr>
           in (Some r, \<lparr> reservations = r # reservations sys, next_id = next_id sys + 1 \<rparr>)))"

text \<open>
  Modelled from the spec: \<^verbatim>\<open>cancel(id)\<close> removes the reservation with this id and fails
  with \<^verbatim>\<open>UnknownReservation\<close> when there is none.
\<close>

datatype reservation_error = UnknownReservation nat

definition cancel_reservation ::
  "ReservationSystem \<Rightarrow> nat \<Rightarrow> reservation_error + ReservationSystem" where
  "cancel_reservation sys rid =
     (if list_ex (\<lambda>r. reservation_id r = rid) (reservations sys)
      then Inr (sys\<lparr>reservations := filter (\<lambda>r. reservation_id r \<noteq> rid) (reservations sys)\<rparr>)
      else Inl (UnknownReservation rid))"

section \<open>Theorems about State\<close>

lemmas State_defs =
  waypoint_def set_waypoint_def charging_waypoint_def set_charging_waypoint_def
  finish_time_def set_finish_time_def battery_soc_def set_battery_soc_def
  threshold_soc_def set_threshold_soc_def State_getters_def

text \<open>
  Claim C10. Each State setter (waypoint, charging\_waypoint, finish\_time, battery\_soc,
  threshold\_soc) modifies only its own field: on every live State \<open>this\<close> and every new
  value \<open>v\<close> the setter returns a reference to the same object \<open>this\<close>, afterwards the
  matching getter returns \<open>v\<close>, and the other four getters return what they returned
  before the call.
\<close>

theorem State_setters_frame:
  assumes "\<sigma> this = Some pimpl"
  shows "(\<exists>\<sigma>'. set_waypoint \<sigma> this w = Some (this, \<sigma>') \<and>
            State_getters \<sigma>' this =
              (Some w, charging_waypoint \<sigma> this, finish_time \<sigma> this,
               battery_soc \<sigma> this, threshold_soc \<sigma> this))
       \<and> (\<exists>\<sigma>'. set_charging_waypoint \<sigma> this c = Some (this, \<sigma>') \<and>
            State_getters \<sigma>' this =
              (waypoint \<sigma> this, Some c, finish_time \<sigma> this,
               battery_soc \<sigma> this, threshold_soc \<sigma> this))
       \<and> (\<exists>\<sigma>'. set_finish_time \<sigma> this t = Some (this, \<sigma>') \<and>
            State_getters \<sigma>' this =
              (waypoint \<sigma> this, charging_waypoint \<sigma> this, Some t,
               battery_soc \<sigma> this, threshold_soc \<sigma> this))
       \<and> (\<exists>\<sigma>'. set_battery_soc \<sigma> this b = Some (this, \<sigma>') \<and>
            State_getters \<sigma>' this =
              (waypoint \<sigma> this, charging_waypoint \<sigma> this, finish_time \<sigma> this,
               Some b, threshold_soc \<sigma> this))
       \<and> (\<exists>\<sigma>'. set_threshold_soc \<sigma> this h = Some (this, \<sigma>') \<and>
            State_getters \<sigma>' this =
              (waypoint \<sigma> this, charging_waypoint \<sigma> this, finish_time \<sigma> this,
               battery_soc \<sigma> this, Some h))"
  using assms by (simp add: State_defs)

theorem State_setters_frame_witness:
  "(\<exists>\<sigma>'. set_waypoint (State_new Map.empty 0 1 2 3 (1/2) (1/4)) 0 7 = Some (0, \<sigma>') \<and>
      State_getters \<sigma>' 0 = (Some 7, Some 2, Some 3, Some (1/2), Some (1/4)))
   \<and> (\<exists>\<sigma>'. set_battery_soc (State_new Map.empty 0 1 2 3 (1/2) (1/4)) 0 (3/4) = Some (0, \<sigma>') \<and>
      State_getters \<sigma>' 0 = (Some 1, Some 2, Some 3, Some (3/4), Some (1/4)))"
  using State_setters_frame [of "State_new Map.empty 0 1 2 3 (1/2) (1/4)" 0 _ 7 2 3 "3/4" "1/4"]
  by (simp add: State_new_def State_defs)

section \<open>Theorems about the spline extrema\<close>

lemma extrema_candidates_nonempty: "extrema_candidates c \<noteq> []"
  by (simp add: extrema_candidates_def)

lemma min_element_le: "v \<in> set xs \<Longrightarrow> min_element xs \<le> v"
  by (induction xs rule: min_element.induct) auto

lemma min_element_in: "xs \<noteq> [] \<Longrightarrow> min_element xs \<in> set xs"
  by (induction xs rule: min_element.induct) (auto simp: min_def)

lemma max_element_ge: "v \<in> set xs \<Longrightarrow> v \<le> max_element xs"
  by (induction xs rule: max_element.induct) auto

lemma max_element_in: "xs \<noteq> [] \<Longrightarrow> max_element xs \<in> set xs"
  by (induction xs rule: max_element.induct) (auto simp: max_def)

lemma quadratic_roots:
  fixes a b c t :: real
  assumes a: "a \<noteq> 0" and D: "0 \<le> b\<^sup>2 - 4 * a * c" and root: "a * t\<^sup>2 + b * t + c = 0"
  shows "t = (- b + sqrt (b\<^sup>2 - 4 * a * c)) / (2 * a) \<or> t = (- b - sqrt (b\<^sup>2 - 4 * a * c)) / (2 * a)"
proof -
  have sq: "(2 * a * t + b)\<^sup>2 = b\<^sup>2 - 4 * a * c"
  proof -
    have "(2 * a * t + b)\<^sup>2 = 4 * a * (a * t\<^sup>2 + b * t + c) + (b\<^sup>2 - 4 * a * c)"
      by (simp add: power2_eq_square algebra_simps)
    then show ?thesis using root by simp
  qed
  then have "\<bar>2 * a * t + b\<bar> = sqrt (b\<^sup>2 - 4 * a * c)"
    by (metis real_sqrt_abs)
  then have "2 * a * t + b = sqrt (b\<^sup>2 - 4 * a * c) \<or> 2 * a * t + b = - sqrt (b\<^sup>2 - 4 * a * c)"
    by linarith
  then show ?thesis
  proof
    assume "2 * a * t + b = sqrt (b\<^sup>2 - 4 * a * c)"
    then have "t = (- b + sqrt (b\<^sup>2 - 4 * a * c)) / (2 * a)"
      using a by (simp add: field_simps)
    then show ?thesis ..
  next
    assume "2 * a * t + b = - sqrt (b\<^sup>2 - 4 * a * c)"
    then have "t = (- b - sqrt (b\<^sup>2 - 4 * a * c)) / (2 * a)"
      using a by (simp add: field_simps)
    then show ?thesis ..
  qed
qed

lemma derivative_roots_are_critical_parameters:
  assumes c3: "1 / 10 ^ 12 \<le> \<bar>c3\<bar>" and D: "1 / 10 ^ 4 \<le> 4 * c2\<^sup>2 - 12 * c3 * c1"
    and root: "3 * c3 * t\<^sup>2 + 2 * c2 * t + c1 = 0"
  shows "t \<in> set (critical_parameters (c0, c1, c2, c3))"
proof -
  have nz: "3 * c3 \<noteq> 0" using c3 by auto
  have eq: "(2 * c2)\<^sup>2 - 4 * (3 * c3) * c1 = 4 * c2\<^sup>2 - 12 * c3 * c1"
    by (simp add: power2_eq_square)
  have pos: "(0::real) < 1 / 10 ^ 4" by simp
  have "0 \<le> 4 * c2\<^sup>2 - 12 * c3 * c1" using D pos by linarith
  then have "0 \<le> (2 * c2)\<^sup>2 - 4 * (3 * c3) * c1" by (simp only: eq)
  from quadratic_roots [OF nz this root]
  have "t = (- 2 * c2 + sqrt (4 * c2\<^sup>2 - 12 * c3 * c1)) / (6 * c3)
      \<or> t = (- 2 * c2 - sqrt (4 * c2\<^sup>2 - 12 * c3 * c1)) / (6 * c3)"
    unfolding eq by simp
  moreover have "\<not> \<bar>c3\<bar> < 1 / 10 ^ 12" using c3 by linarith
  moreover have "\<not> \<bar>4 * c2\<^sup>2 - 12 * c3 * c1\<bar> < 1 / 10 ^ 4" using D by linarith
  moreover have "\<not> 4 * c2\<^sup>2 - 12 * c3 * c1 < 0" using D pos by linarith
  ultimately show ?thesis by (auto simp: Let_def)
qed

text \<open>
  Claim C3, as amended. For every coefficient vector \<open>(a0, a1, a2, a3)\<close>,
  \<^verbatim>\<open>get_local_extrema\<close> returns the least and the greatest value of the candidate list.
  The list always holds the endpoint values \<open>p(0)\<close> and \<open>p(1)\<close>, and it holds \<open>p\<close> at
  every critical parameter the code computes, whether or not that parameter lies between
  0 and 1. So the returned pair bounds \<open>p\<close> at the endpoints and at each computed critical
  parameter; where the cubic branch takes its two roots (the leading coefficient at
  least \<open>1e-12\<close> in size, the discriminant at least \<open>1e-4\<close>), it bounds \<open>p\<close> at every real
  root of the derivative.
\<close>

theorem get_local_extrema_candidates:
  assumes "get_local_extrema (c0, c1, c2, c3) = (lo, hi)"
  shows "lo \<in> set (extrema_candidates (c0, c1, c2, c3))
       \<and> hi \<in> set (extrema_candidates (c0, c1, c2, c3))
       \<and> lo \<le> evaluate_spline (c0, c1, c2, c3) 0 \<and> evaluate_spline (c0, c1, c2, c3) 0 \<le> hi
       \<and> lo \<le> evaluate_spline (c0, c1, c2, c3) 1 \<and> evaluate_spline (c0, c1, c2, c3) 1 \<le> hi
       \<and> (\<forall>t \<in> set (critical_parameters (c0, c1, c2, c3)).
             lo \<le> evaluate_spline (c0, c1, c2, c3) t \<and> evaluate_spline (c0, c1, c2, c3) t \<le> hi)
       \<and> (1 / 10 ^ 12 \<le> \<bar>c3\<bar> \<and> 1 / 10 ^ 4 \<le> 4 * c2\<^sup>2 - 12 * c3 * c1 \<longrightarrow>
            (\<forall>t. 3 * c3 * t\<^sup>2 + 2 * c2 * t + c1 = 0 \<longrightarrow>
               lo \<le> evaluate_spline (c0, c1, c2, c3) t \<and> evaluate_spline (c0, c1, c2, c3) t \<le> hi))"
proof -
  let ?c = "(c0, c1, c2, c3)"
  let ?cs = "extrema_candidates ?c"
  have lo: "lo = min_element ?cs" and hi: "hi = max_element ?cs"
    using assms by (simp_all add: get_local_extrema_def)
  have ne: "?cs \<noteq> []" by (rule extrema_candidates_nonempty)
  have bound: "lo \<le> v \<and> v \<le> hi" if "v \<in> set ?cs" for v
    using that lo hi min_element_le max_element_ge by blast
  have p0: "evaluate_spline ?c 0 \<in> set ?cs" and p1: "evaluate_spline ?c 1 \<in> set ?cs"
    by (simp_all add: extrema_candidates_def)
  have crit: "evaluate_spline ?c t \<in> set ?cs" if "t \<in> set (critical_parameters ?c)" for t
    using that unfolding extrema_candidates_def by (simp del: critical_parameters.simps evaluate_spline.simps)
  have "lo \<in> set ?cs" "hi \<in> set ?cs"
    using lo hi ne min_element_in max_element_in by blast+
  moreover have "lo \<le> evaluate_spline ?c 0 \<and> evaluate_spline ?c 0 \<le> hi"
    using bound p0 by blast
  moreover have "lo \<le> evaluate_spline ?c 1 \<and> evaluate_spline ?c 1 \<le> hi"
    using bound p1 by blast
  moreover have "\<forall>t \<in> set (critical_parameters ?c).
             lo \<le> evaluate_spline ?c t \<and> evaluate_spline ?c t \<le> hi"
    using bound crit by blast
  moreover have "1 / 10 ^ 12 \<le> \<bar>c3\<bar> \<and> 1 / 10 ^ 4 \<le> 4 * c2\<^sup>2 - 12 * c3 * c1 \<longrightarrow>
            (\<forall>t. 3 * c3 * t\<^sup>2 + 2 * c2 * t + c1 = 0 \<longrightarrow>
               lo \<le> evaluate_spline ?c t \<and> evaluate_spline ?c t \<le> hi)"
    using bound crit derivative_roots_are_critical_parameters by blast
  ultimately show ?thesis by blast
qed

lemma sqrt_81: "sqrt 81 = 9"
  using real_sqrt_abs [of 9] by simp

theorem get_local_extrema_candidates_witness:
  "get_local_extrema (0, 1, 1, 0) = (- 1 / 4, 2)
   \<and> critical_parameters (0, 1, 1, 0) = [- 1 / 2]
   \<and> - 1 / 4 \<le> evaluate_spline (0, 1, 1, 0) (- 1 / 2)
   \<and> evaluate_spline (0, 1, 1, 0) (- 1 / 2) \<le> 2
   \<and> get_local_extrema (0, - 6, - 3 / 2, 1) = (- 10, 7 / 2)
   \<and> critical_parameters (0, - 6, - 3 / 2, 1) = [2, - 1]
   \<and> 1 / 10 ^ 12 \<le> \<bar>1 :: real\<bar>
   \<and> (1 :: real) / 10 ^ 4 \<le> 4 * (- 3 / 2)\<^sup>2 - 12 * 1 * (- 6)
   \<and> (3 :: real) * 1 * 2\<^sup>2 + 2 * (- 3 / 2) * 2 + (- 6) = 0
   \<and> - 10 \<le> evaluate_spline (0, - 6, - 3 / 2, 1) 2
   \<and> evaluate_spline (0, - 6, - 3 / 2, 1) 2 \<le> 7 / 2"
proof -
  have g: "get_local_extrema (0, 1, 1, 0) = (- 1 / 4, 2)"
    by (simp add: get_local_extrema_def extrema_candidates_def)
  have c: "critical_parameters (0, 1, 1, 0) = [- 1 / 2]" by simp
  from get_local_extrema_candidates [OF g] c
  have quadratic: "- 1 / 4 \<le> evaluate_spline (0, 1, 1, 0) (- 1 / 2)
        \<and> evaluate_spline (0, 1, 1, 0) (- 1 / 2) \<le> 2"
    by (simp del: evaluate_spline.simps critical_parameters.simps)
  have D: "4 * (- 3 / 2)\<^sup>2 - 12 * 1 * (- 6) = (81 :: real)"
    by (simp add: power2_eq_square)
  have c': "critical_parameters (0, - 6, - 3 / 2, 1) = [2, - 1]"
    by (simp add: Let_def power2_eq_square sqrt_81)
  have g': "get_local_extrema (0, - 6, - 3 / 2, 1) = (- 10, 7 / 2)"
    unfolding get_local_extrema_def extrema_candidates_def c' by simp
  have h1: "1 / 10 ^ 12 \<le> \<bar>1 :: real\<bar>" by simp
  have h2: "(1 :: real) / 10 ^ 4 \<le> 4 * (- 3 / 2)\<^sup>2 - 12 * 1 * (- 6)" unfolding D by simp
  have h3: "(3 :: real) * 1 * 2\<^sup>2 + 2 * (- 3 / 2) * 2 + (- 6) = 0" by simp
  from get_local_extrema_candidates [OF g'] h1 h2 h3
  have cubic: "- 10 \<le> evaluate_spline (0, - 6, - 3 / 2, 1) 2
        \<and> evaluate_spline (0, - 6, - 3 / 2, 1) 2 \<le> 7 / 2"
    by blast
  from g c quadratic g' c' h1 h2 h3 cubic show ?thesis by blast
qed

text \<open>
  Claim C3, as stated, fails: for \<open>p(\<tau>) = \<tau> + \<tau>\<^sup>2\<close> the only critical parameter is
  \<open>-1/2\<close>, outside the interval from 0 to 1, and the returned minimum is \<open>p(-1/2) = -1/4\<close>,
  below both endpoint values 0 and 2.
\<close>

theorem get_local_extrema_outside_counterexample:
  "critical_parameters (0, 1, 1, 0) = [- 1 / 2]
   \<and> (- 1 / 2 :: real) < 0
   \<and> evaluate_spline (0, 1, 1, 0) 0 = 0
   \<and> evaluate_spline (0, 1, 1, 0) 1 = 2
   \<and> get_local_extrema (0, 1, 1, 0) = (- 1 / 4, 2)
   \<and> fst (get_local_extrema (0, 1, 1, 0))
       < min (evaluate_spline (0, 1, 1, 0) 0) (evaluate_spline (0, 1, 1, 0) 1)"
  by (simp add: get_local_extrema_def extrema_candidates_def)

section \<open>Theorems about the early exits of the conflict engine\<close>

lemma Trajectory_start_time_valid:
  "2 \<le> length trajectory \<Longrightarrow> Trajectory_start_time trajectory = Some (time (hd trajectory))"
  by (cases trajectory) (simp_all add: Trajectory_start_time_def)

lemma Trajectory_finish_time_valid:
  "2 \<le> length trajectory \<Longrightarrow> Trajectory_finish_time trajectory = Some (time (last trajectory))"
  by (cases trajectory) (simp_all add: Trajectory_finish_time_def)

lemma have_time_overlap_valid:
  assumes "2 \<le> length trajectory_a" and "2 \<le> length trajectory_b"
  shows "have_time_overlap trajectory_a trajectory_b =
           Some (\<not> time (last trajectory_b) < time (hd trajectory_a)
                 \<and> \<not> time (last trajectory_a) < time (hd trajectory_b))"
  using assms
  by (simp add: have_time_overlap_def Trajectory_start_time_valid Trajectory_finish_time_valid)

lemma get_initial_iterators_valid:
  assumes "2 \<le> length trajectory_a" and "2 \<le> length trajectory_b"
  shows "get_initial_iterators trajectory_a trajectory_b =
           Some (if time (hd trajectory_a) < time (hd trajectory_b)
                 then (Trajectory_find trajectory_a (time (hd trajectory_b)), 1)
                 else if time (hd trajectory_b) < time (hd trajectory_a)
                 then (1, Trajectory_find trajectory_b (time (hd trajectory_a)))
                 else (1, 1))"
  using assms by (simp add: get_initial_iterators_def Trajectory_start_time_valid)

lemma footprint_convert_profile: "footprint (convert_profile p) = footprint p"
  by (simp add: convert_profile_def)

text \<open>
  Claim C4. Time-overlap necessity: for every pair of valid trajectories (each with at
  least two waypoints), if trajectory a finishes strictly before trajectory b starts, or
  trajectory b finishes strictly before trajectory a starts, then \<^verbatim>\<open>between\<close> returns none.
  It throws nothing and leaves the vector of conflicts, if one is given, as it was.
\<close>

theorem between_no_time_overlap:
  assumes "2 \<le> length trajectory_a" and "2 \<le> length trajectory_b"
    and "time (last trajectory_a) < time (hd trajectory_b)
         \<or> time (last trajectory_b) < time (hd trajectory_a)"
  shows "between env profile_a trajectory_a profile_b trajectory_b output_conflicts
           = Inr (None, output_conflicts)"
proof -
  have "have_time_overlap trajectory_a trajectory_b = Some False"
    using assms by (auto simp: have_time_overlap_valid)
  then show ?thesis
    using assms(1,2) by (simp add: between_def Let_def)
qed

text \<open>
  Claim C6. Empty-geometry early exit: for every pair of valid trajectories, if both
  profiles' footprints are absent then \<^verbatim>\<open>between\<close> returns none; and if after the
  normalisation by \<^verbatim>\<open>convert_profile\<close> (an absent vicinity is set to the footprint) either
  profile's vicinity is still absent, \<^verbatim>\<open>between\<close> returns none.
\<close>

theorem between_empty_geometry:
  assumes "2 \<le> length trajectory_a" and "2 \<le> length trajectory_b"
    and "(footprint profile_a = None \<and> footprint profile_b = None)
         \<or> vicinity (convert_profile profile_a) = None
         \<or> vicinity (convert_profile profile_b) = None"
  shows "between env profile_a trajectory_a profile_b trajectory_b output_conflicts
           = Inr (None, output_conflicts)"
  using assms(3) assms(1,2)
  by (auto simp: between_def Let_def footprint_convert_profile)

section \<open>The shape of the results of the conflict engine\<close>

text \<open>
  No function below the entry point throws \<^verbatim>\<open>invalid_trajectory_error\<close>; without a vector
  of conflicts none is returned; with one, the returned time is the time of its front.
\<close>

lemma check_collision_error:
  "check_collision env sa ma sb mb = Inl e \<Longrightarrow> e = undefined_behaviour"
  by (auto simp: check_collision_def split: option.splits)

lemma invasion_step_error:
  "invasion_step env pa sa a pb sb b out = Inl e \<Longrightarrow> e = undefined_behaviour"
  unfolding invasion_step_def Let_def
  by (auto split: if_splits sum.splits option.splits prod.splits dest: check_collision_error)

lemma emplace_back_Some: "emplace_back (Some cs) c = Some (cs @ [c])"
  by (simp add: emplace_back_def)

lemma emplace_back_None: "emplace_back None c = None"
  by (simp add: emplace_back_def)

lemma invasion_step_Some:
  "invasion_step env pa sa a pb sb b (Some cs) = Inr x \<Longrightarrow> \<exists>cs'. x = Inr (Some cs')"
  unfolding invasion_step_def Let_def
  by (auto split: if_splits sum.splits option.splits prod.splits simp: emplace_back_Some)

lemma invasion_step_None:
  "invasion_step env pa sa a pb sb b None = Inr (Inr out') \<Longrightarrow> out' = None"
  unfolding invasion_step_def Let_def
  by (auto split: if_splits sum.splits option.splits prod.splits simp: emplace_back_None)

lemma detect_invasion_loop_error:
  "detect_invasion_loop env pa ta a pb tb b out = Inl e \<Longrightarrow> e = undefined_behaviour"
proof (induction env pa ta a pb tb b out rule: detect_invasion_loop.induct)
  case (1 env pa ta a pb tb b out)
  from "1.prems" have "detect_invasion_loop env pa ta a pb tb b out = Inl e" .
  then show ?case using "1.IH"
    by (subst (asm) detect_invasion_loop.simps)
       (auto split: if_splits option.splits sum.splits dest: invasion_step_error)
qed

lemma detect_invasion_loop_Some:
  "detect_invasion_loop env pa ta a pb tb b (Some cs) = Inr x \<Longrightarrow> \<exists>cs'. x = Inr (Some cs')"
proof (induction env pa ta a pb tb b "Some cs :: Conflicts" arbitrary: cs
       rule: detect_invasion_loop.induct)
  case (1 env pa ta a pb tb b)
  from "1.prems" have "detect_invasion_loop env pa ta a pb tb b (Some cs) = Inr x" .
  then show ?case using "1.hyps"
    by (subst (asm) detect_invasion_loop.simps)
       (auto split: if_splits option.splits sum.splits dest: invasion_step_Some)
qed

lemma detect_invasion_loop_None:
  "detect_invasion_loop env pa ta a pb tb b None = Inr (Inr out') \<Longrightarrow> out' = None"
proof (induction env pa ta a pb tb b "None :: Conflicts"
       rule: detect_invasion_loop.induct)
  case (1 env pa ta a pb tb b)
  from "1.prems" have "detect_invasion_loop env pa ta a pb tb b None = Inr (Inr out')" .
  then show ?case using "1.hyps"
    by (subst (asm) detect_invasion_loop.simps)
       (auto split: if_splits option.splits sum.splits dest: invasion_step_None)
qed

lemma detect_invasion_error:
  "detect_invasion env pa ta a pb tb b out = Inl e \<Longrightarrow> e = undefined_behaviour"
  by (auto simp: detect_invasion_def split: sum.splits dest: detect_invasion_loop_error)

lemma detect_invasion_Some:
  "detect_invasion env pa ta a pb tb b (Some cs) = Inr (r, out)
     \<Longrightarrow> r = front_time out \<and> out \<noteq> None"
  by (auto simp: detect_invasion_def split: sum.splits dest: detect_invasion_loop_Some)

lemma detect_invasion_None:
  "detect_invasion env pa ta a pb tb b None = Inr (r, out) \<Longrightarrow> out = None"
  by (auto simp: detect_invasion_def front_time_def split: sum.splits dest: detect_invasion_loop_None)


lemma check_overlap_error:
  "check_overlap env pa sa pb sb t = Inl e \<Longrightarrow> e = undefined_behaviour"
  by (auto simp: check_overlap_def Let_def split: option.splits if_splits)

lemma approach_times_loop_error:
  "approach_times_loop env pa ta sa a pb tb sb b ts out = Inl e \<Longrightarrow> e = undefined_behaviour"
proof (induction ts arbitrary: out)
  case Nil
  then show ?case by simp
next
  case (Cons t ts)
  show ?case
  proof (cases "check_overlap env pa sa pb sb t")
    case (Inl e')
    then show ?thesis using Cons.prems by (auto dest: check_overlap_error)
  next
    case (Inr close)
    show ?thesis
    proof (cases close)
      case True
      show ?thesis
      proof (cases out)
        case None
        with True Inr Cons.prems show ?thesis by simp
      next
        case (Some cs)
        with True Inr Cons.prems
        have "approach_times_loop env pa ta sa a pb tb sb b ts
                (emplace_back out (a, b, t)) = Inl e"
          by simp
        then show ?thesis by (rule Cons.IH)
      qed
    next
      case False
      with Inr Cons.prems show ?thesis
        by (auto split: sum.splits dest: detect_invasion_error)
    qed
  qed
qed

lemma approach_times_loop_Some:
  "approach_times_loop env pa ta sa a pb tb sb b ts (Some cs) = Inr x \<Longrightarrow>
     (case x of Inl (r, out) \<Rightarrow> r = front_time out \<and> out \<noteq> None | Inr out \<Rightarrow> out \<noteq> None)"
proof (induction ts arbitrary: cs)
  case Nil
  then show ?case by auto
next
  case (Cons t ts)
  show ?case
  proof (cases "check_overlap env pa sa pb sb t")
    case (Inl e)
    then show ?thesis using Cons.prems by simp
  next
    case (Inr close)
    show ?thesis
    proof (cases close)
      case True
      with Inr Cons.prems
      have "approach_times_loop env pa ta sa a pb tb sb b ts (Some (cs @ [(a, b, t)])) = Inr x"
        by (simp add: emplace_back_Some)
      then show ?thesis by (rule Cons.IH)
    next
      case False
      with Inr Cons.prems show ?thesis
        by (auto split: sum.splits dest: detect_invasion_Some)
    qed
  qed
qed

lemma approach_times_loop_None:
  "approach_times_loop env pa ta sa a pb tb sb b ts None = Inr x \<Longrightarrow>
     (case x of Inl (r, out) \<Rightarrow> out = None | Inr out \<Rightarrow> out = None)"
  by (cases ts) (auto split: sum.splits bool.splits dest: detect_invasion_None)

lemma approach_step_error:
  "approach_step env pa ta sa a pb tb sb b out = Inl e \<Longrightarrow> e = undefined_behaviour"
  unfolding approach_step_def Let_def
  by (auto split: if_splits sum.splits dest: approach_times_loop_error check_overlap_error)

lemma approach_step_Some:
  "approach_step env pa ta sa a pb tb sb b (Some cs) = Inr x \<Longrightarrow>
     (case x of Inl (r, out) \<Rightarrow> r = front_time out \<and> out \<noteq> None
      | Inr (out, still_close) \<Rightarrow> out \<noteq> None)"
  unfolding approach_step_def Let_def
  by (auto split: if_splits sum.splits simp: emplace_back_Some dest!: approach_times_loop_Some)

lemma approach_step_None:
  "approach_step env pa ta sa a pb tb sb b None = Inr x \<Longrightarrow>
     (case x of Inl (r, out) \<Rightarrow> out = None | Inr (out, still_close) \<Rightarrow> out = None)"
  unfolding approach_step_def Let_def
  by (auto split: if_splits sum.splits simp: emplace_back_None dest!: approach_times_loop_None)

lemma detect_approach_error:
  "detect_approach env pa ta a pb tb b out = Inl e \<Longrightarrow> e = undefined_behaviour"
proof (induction env pa ta a pb tb b out rule: detect_approach.induct)
  case (1 env pa ta a pb tb b out)
  from "1.prems" have "detect_approach env pa ta a pb tb b out = Inl e" .
  then show ?case using "1.IH"
    by (subst (asm) detect_approach.simps)
       (auto split: if_splits option.splits sum.splits prod.splits
             dest: approach_step_error detect_invasion_error)
qed

lemma detect_approach_Some:
  "detect_approach env pa ta a pb tb b (Some cs) = Inr (r, out)
     \<Longrightarrow> r = front_time out \<and> out \<noteq> None"
proof (induction env pa ta a pb tb b "Some cs :: Conflicts" arbitrary: cs
       rule: detect_approach.induct)
  case (1 env pa ta a pb tb b)
  from "1.prems" have "detect_approach env pa ta a pb tb b (Some cs) = Inr (r, out)" .
  then show ?case using "1.hyps"
    by (subst (asm) detect_approach.simps)
       (auto split: if_splits option.splits sum.splits prod.splits
             dest!: approach_step_Some dest: detect_invasion_Some)
qed

lemma detect_approach_None:
  "detect_approach env pa ta a pb tb b None = Inr (r, out) \<Longrightarrow> out = None"
proof (induction env pa ta a pb tb b "None :: Conflicts" rule: detect_approach.induct)
  case (1 env pa ta a pb tb b)
  from "1.prems" have "detect_approach env pa ta a pb tb b None = Inr (r, out)" .
  then show ?case using "1.hyps"
    by (subst (asm) detect_approach.simps)
       (auto split: if_splits option.splits sum.splits prod.splits
             dest!: approach_step_None dest: detect_invasion_None)
qed

lemma close_start_error:
  "close_start env pa ta a pb tb b = Inl e \<Longrightarrow> e = undefined_behaviour"
  by (auto simp: close_start_def split: option.splits dest: check_overlap_error)

lemma between_raises_iff:
  "(\<exists>n. between env profile_a trajectory_a profile_b trajectory_b output_conflicts
           = Inl (invalid_trajectory_error n))
   \<longleftrightarrow> length trajectory_a < 2 \<or> length trajectory_b < 2"
proof
  assume "length trajectory_a < 2 \<or> length trajectory_b < 2"
  then show "\<exists>n. between env profile_a trajectory_a profile_b trajectory_b output_conflicts
           = Inl (invalid_trajectory_error n)"
    by (auto simp: between_def)
next
  assume "\<exists>n. between env profile_a trajectory_a profile_b trajectory_b output_conflicts
           = Inl (invalid_trajectory_error n)"
  then obtain n where n: "between env profile_a trajectory_a profile_b trajectory_b
      output_conflicts = Inl (invalid_trajectory_error n)" ..
  show "length trajectory_a < 2 \<or> length trajectory_b < 2"
  proof (rule ccontr)
    assume "\<not> (length trajectory_a < 2 \<or> length trajectory_b < 2)"
    with n have "invalid_trajectory_error n = undefined_behaviour"
      by (auto simp: between_def Let_def
               split: if_splits option.splits bool.splits sum.splits prod.splits
               dest: close_start_error detect_approach_error detect_invasion_error)
    then show False by simp
  qed
qed

section \<open>Symmetry of the conflict engine\<close>

lemma overlap_commute: "overlap box_a box_b = overlap box_b box_a"
  by (auto simp: overlap_def)

lemma advance_swap:
  "advance sb b sa a = (snd (advance sa a sb b), fst (advance sa a sb b))"
  by (auto simp: advance_def)

lemma invasion_step_None_unfold:
  assumes "footprint pa = Some fa" and "vicinity pa = Some va"
    and "footprint pb = Some fb" and "vicinity pb = Some vb"
  shows "invasion_step env pa sa a pb sb b None =
     (case (if overlap (bound_footprint (get_bounding_profile env sa pa))
                       (bound_vicinity (get_bounding_profile env sb pb))
            then fcl_continuous_collide env fa
                   (sa, max (Spline_start_time sa) (Spline_start_time sb),
                        min (Spline_finish_time sa) (Spline_finish_time sb))
                   vb
                   (sb, max (Spline_start_time sa) (Spline_start_time sb),
                        min (Spline_finish_time sa) (Spline_finish_time sb))
            else None) of
        Some x \<Rightarrow> Inr (Inl (compute_time x
                      (max (Spline_start_time sa) (Spline_start_time sb))
                      (min (Spline_finish_time sa) (Spline_finish_time sb))))
      | None \<Rightarrow>
         (case (if (va \<noteq> fa \<or> vb \<noteq> fb)
                    \<and> overlap (bound_vicinity (get_bounding_profile env sa pa))
                              (bound_footprint (get_bounding_profile env sb pb))
                then fcl_continuous_collide env va
                       (sa, max (Spline_start_time sa) (Spline_start_time sb),
                            min (Spline_finish_time sa) (Spline_finish_time sb))
                       fb
                       (sb, max (Spline_start_time sa) (Spline_start_time sb),
                            min (Spline_finish_time sa) (Spline_finish_time sb))
                else None) of
            Some x \<Rightarrow> Inr (Inl (compute_time x
                          (max (Spline_start_time sa) (Spline_start_time sb))
                          (min (Spline_finish_time sa) (Spline_finish_time sb))))
          | None \<Rightarrow> Inr (Inr None)))"
  unfolding invasion_step_def Let_def
  by (auto simp add: assms check_collision_def emplace_back_None split: option.splits)

lemma bound_vicinity_eq_footprint:
  "vicinity p = footprint p \<Longrightarrow>
     bound_vicinity (get_bounding_profile env s p) = bound_footprint (get_bounding_profile env s p)"
  by (simp add: get_bounding_profile_def Let_def)

lemma invasion_step_symmetric:
  assumes sym: "symmetric_collaborators env"
    and fa: "footprint pa = Some fa" and va: "vicinity pa = Some va"
    and fb: "footprint pb = Some fb" and vb: "vicinity pb = Some vb"
  shows "invasion_step env pa sa a pb sb b None = invasion_step env pb sb b pa sa a None
       \<or> ((va \<noteq> fa \<or> vb \<noteq> fb)
          \<and> (\<exists>t t'. invasion_step env pa sa a pb sb b None = Inr (Inl t)
                   \<and> invasion_step env pb sb b pa sa a None = Inr (Inl t')))"
proof -
  define st where "st = max (Spline_start_time sa) (Spline_start_time sb)"
  define fin where "fin = min (Spline_finish_time sa) (Spline_finish_time sb)"
  define Ba where "Ba = get_bounding_profile env sa pa"
  define Bb where "Bb = get_bounding_profile env sb pb"
  define T1 where "T1 = (if overlap (bound_footprint Ba) (bound_vicinity Bb)
                         then fcl_continuous_collide env fa (sa, st, fin) vb (sb, st, fin)
                         else None)"
  define T2 where "T2 = (if overlap (bound_vicinity Ba) (bound_footprint Bb)
                         then fcl_continuous_collide env va (sa, st, fin) fb (sb, st, fin)
                         else None)"
  define c where "c \<longleftrightarrow> va \<noteq> fa \<or> vb \<noteq> fb"
  define ret :: "real \<Rightarrow> error + (Time + Conflicts)"
    where "ret x = Inr (Inl (compute_time x st fin))" for x
  have st': "max (Spline_start_time sb) (Spline_start_time sa) = st"
    by (simp add: st_def max.commute)
  have fin': "min (Spline_finish_time sb) (Spline_finish_time sa) = fin"
    by (simp add: fin_def min.commute)
  have cc1: "fcl_continuous_collide env fb (sb, st, fin) va (sa, st, fin)
               = fcl_continuous_collide env va (sa, st, fin) fb (sb, st, fin)"
    and cc2: "fcl_continuous_collide env vb (sb, st, fin) fa (sa, st, fin)
               = fcl_continuous_collide env fa (sa, st, fin) vb (sb, st, fin)"
    using sym unfolding symmetric_collaborators_def by blast+
  have o1: "overlap (bound_footprint Bb) (bound_vicinity Ba)
              = overlap (bound_vicinity Ba) (bound_footprint Bb)"
    and o2: "overlap (bound_vicinity Bb) (bound_footprint Ba)
              = overlap (bound_footprint Ba) (bound_vicinity Bb)"
    by (rule overlap_commute)+
  have c': "(vb \<noteq> fb \<or> va \<noteq> fa) = c" by (auto simp: c_def)
  have X: "invasion_step env pa sa a pb sb b None =
             (case T1 of Some x \<Rightarrow> ret x
              | None \<Rightarrow> (case (if c then T2 else None) of
                            Some x \<Rightarrow> ret x | None \<Rightarrow> Inr (Inr None)))"
    unfolding invasion_step_None_unfold [OF fa va fb vb]
    by (auto simp add: T1_def T2_def c_def ret_def st_def fin_def Ba_def Bb_def
             split: option.splits)
  have Y: "invasion_step env pb sb b pa sa a None =
             (case T2 of Some x \<Rightarrow> ret x
              | None \<Rightarrow> (case (if c then T1 else None) of
                            Some x \<Rightarrow> ret x | None \<Rightarrow> Inr (Inr None)))"
    unfolding invasion_step_None_unfold [OF fb vb fa va] st' fin' c'
    unfolding Ba_def [symmetric] Bb_def [symmetric]
    by (auto simp add: T1_def T2_def ret_def cc1 cc2 o1 o2 split: option.splits)
  show ?thesis
  proof (cases c)
    case True
    then show ?thesis
      unfolding X Y c_def [symmetric] by (cases T1; cases T2) (simp_all add: ret_def)
  next
    case False
    then have eq: "va = fa" "vb = fb" by (simp_all add: c_def)
    have "bound_vicinity Ba = bound_footprint Ba" "bound_vicinity Bb = bound_footprint Bb"
      unfolding Ba_def Bb_def
      by (rule bound_vicinity_eq_footprint, simp add: fa va fb vb eq)+
    then have "T1 = T2" by (simp add: T1_def T2_def eq)
    then show ?thesis unfolding X Y using False by simp
  qed
qed


lemma detect_invasion_loop_symmetric:
  assumes sym: "symmetric_collaborators env"
    and fa: "footprint pa = Some fa" and va: "vicinity pa = Some va"
    and fb: "footprint pb = Some fb" and vb: "vicinity pb = Some vb"
  shows "detect_invasion_loop env pa ta a pb tb b None
           = detect_invasion_loop env pb tb b pa ta a None
       \<or> ((va \<noteq> fa \<or> vb \<noteq> fb)
          \<and> (\<exists>t t'. detect_invasion_loop env pa ta a pb tb b None = Inr (Inl t)
                   \<and> detect_invasion_loop env pb tb b pa ta a None = Inr (Inl t')))"
  using sym fa va fb vb
proof (induction env pa ta a pb tb b "None :: Conflicts" rule: detect_invasion_loop.induct)
  case (1 env pa ta a pb tb b)
  note sym = "1.prems"(1) and present = "1.prems"(2-5)
  let ?L = "detect_invasion_loop env pa ta a pb tb b None"
  let ?R = "detect_invasion_loop env pb tb b pa ta a None"
  show ?case
  proof (cases "a < length ta \<and> b < length tb")
    case False
    then have "?L = Inr (Inr None)" "?R = Inr (Inr None)"
      by (subst detect_invasion_loop.simps, auto)+
    then show ?thesis by simp
  next
    case inside: True
    show ?thesis
    proof (cases "make_Spline ta a")
      case None
      with inside have "?L = Inl undefined_behaviour" "?R = Inl undefined_behaviour"
        by (subst detect_invasion_loop.simps, auto split: option.splits)+
      then show ?thesis by simp
    next
      case sa: (Some sa)
      show ?thesis
      proof (cases "make_Spline tb b")
        case None
        with inside sa have "?L = Inl undefined_behaviour" "?R = Inl undefined_behaviour"
          by (subst detect_invasion_loop.simps, auto split: option.splits)+
        then show ?thesis by simp
      next
        case sb: (Some sb)
        let ?sl = "invasion_step env pa sa a pb sb b None"
        let ?sr = "invasion_step env pb sb b pa sa a None"
        let ?a' = "fst (advance sa a sb b)"
        let ?b' = "snd (advance sa a sb b)"
        have adv: "fst (advance sb b sa a) = ?b'" "snd (advance sb b sa a) = ?a'"
          by (simp_all add: advance_swap [of sb b sa a])
        have L: "?L = (case ?sl of Inl e \<Rightarrow> Inl e | Inr (Inl t) \<Rightarrow> Inr (Inl t)
                       | Inr (Inr out') \<Rightarrow>
                           detect_invasion_loop env pa ta ?a' pb tb ?b' out')"
          using inside sa sb by (subst detect_invasion_loop.simps) simp
        have R: "?R = (case ?sr of Inl e \<Rightarrow> Inl e | Inr (Inl t) \<Rightarrow> Inr (Inl t)
                       | Inr (Inr out') \<Rightarrow>
                           detect_invasion_loop env pb tb ?b' pa ta ?a' out')"
          using inside sa sb
          by (subst detect_invasion_loop.simps) (simp add: adv cong: sum.case_cong)
        from invasion_step_symmetric [OF sym present, of sa a sb b]
        consider (same) "?sl = ?sr"
          | (both) "va \<noteq> fa \<or> vb \<noteq> fb" "\<exists>t t'. ?sl = Inr (Inl t) \<and> ?sr = Inr (Inl t')"
          by blast
        then show ?thesis
        proof cases
          case both
          then show ?thesis unfolding L R by auto
        next
          case same
          show ?thesis
          proof (cases ?sl)
            case (Inl e)
            then have sl: "?sl = Inl e" .
            with same have sr: "?sr = Inl e" by simp
            show ?thesis unfolding L R sl sr by simp
          next
            case (Inr x)
            show ?thesis
            proof (cases x)
              case (Inl t)
              with Inr have sl: "?sl = Inr (Inl t)" by simp
              with same have sr: "?sr = Inr (Inl t)" by simp
              show ?thesis unfolding L R sl sr by simp
            next
              case (Inr out')
              with \<open>?sl = Inr x\<close> have sl: "?sl = Inr (Inr out')" by simp
              then have out': "out' = None" by (rule invasion_step_None)
              have IH: "detect_invasion_loop env pa ta ?a' pb tb ?b' None
                          = detect_invasion_loop env pb tb ?b' pa ta ?a' None
                      \<or> ((va \<noteq> fa \<or> vb \<noteq> fb)
                         \<and> (\<exists>t t'. detect_invasion_loop env pa ta ?a' pb tb ?b' None = Inr (Inl t)
                             \<and> detect_invasion_loop env pb tb ?b' pa ta ?a' None = Inr (Inl t')))"
                using "1.hyps" [OF inside _ sa sb sl [unfolded out'] _ sym present]
                by simp
              from sl same have sr: "?sr = Inr (Inr None)" by (simp add: out')
              have sl': "?sl = Inr (Inr None)" using sl out' by simp
              show ?thesis unfolding L R sl' sr using IH by simp
            qed
          qed
        qed
      qed
    qed
  qed
qed


lemma detect_invasion_symmetric:
  assumes sym: "symmetric_collaborators env"
    and fa: "footprint pa = Some fa" and va: "vicinity pa = Some va"
    and fb: "footprint pb = Some fb" and vb: "vicinity pb = Some vb"
  shows "detect_invasion env pa ta a pb tb b None = detect_invasion env pb tb b pa ta a None
       \<or> ((va \<noteq> fa \<or> vb \<noteq> fb)
          \<and> (\<exists>t t'. detect_invasion env pa ta a pb tb b None = Inr (Some t, None)
                   \<and> detect_invasion env pb tb b pa ta a None = Inr (Some t', None)))"
  using detect_invasion_loop_symmetric [OF assms, of ta a tb b]
  by (auto simp: detect_invasion_def)

lemma check_overlap_symmetric:
  assumes sym: "symmetric_collaborators env"
    and fa: "footprint pa = Some fa" and va: "vicinity pa = Some va"
    and fb: "footprint pb = Some fb" and vb: "vicinity pb = Some vb"
  shows "check_overlap env pa sa pb sb t = check_overlap env pb sb pa sa t"
proof -
  have "fcl_collide env fb (compute_position env sb t) va (compute_position env sa t)
          = fcl_collide env va (compute_position env sa t) fb (compute_position env sb t)"
    and "fcl_collide env vb (compute_position env sb t) fa (compute_position env sa t)
          = fcl_collide env fa (compute_position env sa t) vb (compute_position env sb t)"
    using sym unfolding symmetric_collaborators_def by blast+
  then show ?thesis
    by (auto simp: check_overlap_def Let_def fa va fb vb)
qed

lemma approach_times_loop_symmetric:
  assumes sym: "symmetric_collaborators env"
    and fa: "footprint pa = Some fa" and va: "vicinity pa = Some va"
    and fb: "footprint pb = Some fb" and vb: "vicinity pb = Some vb"
  shows "approach_times_loop env pa ta sa a pb tb sb b ts None
           = approach_times_loop env pb tb sb b pa ta sa a ts None
       \<or> ((va \<noteq> fa \<or> vb \<noteq> fb)
          \<and> (\<exists>t t'. approach_times_loop env pa ta sa a pb tb sb b ts None
                        = Inr (Inl (Some t, None))
                   \<and> approach_times_loop env pb tb sb b pa ta sa a ts None
                        = Inr (Inl (Some t', None))))"
proof (cases ts)
  case Nil
  then show ?thesis by simp
next
  case (Cons t ts')
  have co: "check_overlap env pb sb pa sa t = check_overlap env pa sa pb sb t"
    by (rule check_overlap_symmetric [OF assms, symmetric])
  show ?thesis
  proof (cases "check_overlap env pa sa pb sb t")
    case (Inl e)
    then show ?thesis using Cons co by simp
  next
    case (Inr close)
    show ?thesis
    proof (cases close)
      case True
      with Inr Cons co show ?thesis by simp
    next
      case False
      from detect_invasion_symmetric [OF assms,
             of "slice_trajectory env t sa ta a" 1 "slice_trajectory env t sb tb b" 1]
      show ?thesis using False Inr Cons co by auto
    qed
  qed
qed

lemma approach_step_symmetric:
  assumes sym: "symmetric_collaborators env"
    and fa: "footprint pa = Some fa" and va: "vicinity pa = Some va"
    and fb: "footprint pb = Some fb" and vb: "vicinity pb = Some vb"
  shows "approach_step env pa ta sa a pb tb sb b None
           = approach_step env pb tb sb b pa ta sa a None
       \<or> ((va \<noteq> fa \<or> vb \<noteq> fb)
          \<and> (\<exists>t t'. approach_step env pa ta sa a pb tb sb b None = Inr (Inl (Some t, None))
                   \<and> approach_step env pb tb sb b pa ta sa a None = Inr (Inl (Some t', None))))"
proof -
  have D: "initially_approaching env sb sa = initially_approaching env sa sb"
    "approach_times env sb sa = approach_times env sa sb"
    "D_start_time env sb sa = D_start_time env sa sb"
    "D_finish_time env sb sa = D_finish_time env sa sb"
    using sym unfolding symmetric_collaborators_def by blast+
  have co: "check_overlap env pb sb pa sa t = check_overlap env pa sa pb sb t" for t
    by (rule check_overlap_symmetric [OF assms, symmetric])
  show ?thesis
  proof (cases "initially_approaching env sa sb")
    case True
    then show ?thesis by (simp add: approach_step_def D)
  next
    case False
    let ?l = "approach_times_loop env pa ta sa a pb tb sb b (approach_times env sa sb) None"
    let ?r = "approach_times_loop env pb tb sb b pa ta sa a (approach_times env sa sb) None"
    have L: "approach_step env pa ta sa a pb tb sb b None =
               (case ?l of Inl e \<Rightarrow> Inl e | Inr (Inl r) \<Rightarrow> Inr (Inl r)
                | Inr (Inr out1) \<Rightarrow>
                    (case check_overlap env pa sa pb sb (D_finish_time env sa sb) of
                       Inl e \<Rightarrow> Inl e
                     | Inr still_close \<Rightarrow> Inr (Inr (out1, still_close))))"
      using False by (simp add: approach_step_def)
    have R: "approach_step env pb tb sb b pa ta sa a None =
               (case ?r of Inl e \<Rightarrow> Inl e | Inr (Inl r) \<Rightarrow> Inr (Inl r)
                | Inr (Inr out1) \<Rightarrow>
                    (case check_overlap env pa sa pb sb (D_finish_time env sa sb) of
                       Inl e \<Rightarrow> Inl e
                     | Inr still_close \<Rightarrow> Inr (Inr (out1, still_close))))"
      using False by (simp add: approach_step_def D co cong: sum.case_cong)
    from approach_times_loop_symmetric [OF assms, of ta sa a tb sb b "approach_times env sa sb"]
    show ?thesis unfolding L R by auto
  qed
qed


lemma detect_approach_symmetric:
  assumes sym: "symmetric_collaborators env"
    and fa: "footprint pa = Some fa" and va: "vicinity pa = Some va"
    and fb: "footprint pb = Some fb" and vb: "vicinity pb = Some vb"
  shows "detect_approach env pa ta a pb tb b None = detect_approach env pb tb b pa ta a None
       \<or> ((va \<noteq> fa \<or> vb \<noteq> fb)
          \<and> (\<exists>t t'. detect_approach env pa ta a pb tb b None = Inr (Some t, None)
                   \<and> detect_approach env pb tb b pa ta a None = Inr (Some t', None)))"
  using sym fa va fb vb
proof (induction env pa ta a pb tb b "None :: Conflicts" rule: detect_approach.induct)
  case (1 env pa ta a pb tb b)
  note sym = "1.prems"(1) and present = "1.prems"(2-5)
  let ?L = "detect_approach env pa ta a pb tb b None"
  let ?R = "detect_approach env pb tb b pa ta a None"
  show ?case
  proof (cases "a < length ta \<and> b < length tb")
    case False
    then have "?L = Inr (None, None)" "?R = Inr (None, None)"
      by (subst detect_approach.simps, auto simp: front_time_def)+
    then show ?thesis by simp
  next
    case inside: True
    show ?thesis
    proof (cases "make_Spline ta a")
      case None
      with inside have "?L = Inl undefined_behaviour" "?R = Inl undefined_behaviour"
        by (subst detect_approach.simps, auto split: option.splits)+
      then show ?thesis by simp
    next
      case sa: (Some sa)
      show ?thesis
      proof (cases "make_Spline tb b")
        case None
        with inside sa have "?L = Inl undefined_behaviour" "?R = Inl undefined_behaviour"
          by (subst detect_approach.simps, auto split: option.splits)+
        then show ?thesis by simp
      next
        case sb: (Some sb)
        let ?sl = "approach_step env pa ta sa a pb tb sb b None"
        let ?sr = "approach_step env pb tb sb b pa ta sa a None"
        let ?a' = "fst (advance sa a sb b)"
        let ?b' = "snd (advance sa a sb b)"
        have adv: "fst (advance sb b sa a) = ?b'" "snd (advance sb b sa a) = ?a'"
          by (simp_all add: advance_swap [of sb b sa a])
        have L: "?L = (case ?sl of Inl e \<Rightarrow> Inl e | Inr (Inl r) \<Rightarrow> Inr r
                       | Inr (Inr (out', still_close)) \<Rightarrow>
                           if \<not> still_close
                           then detect_invasion env pa ta ?a' pb tb ?b' out'
                           else detect_approach env pa ta ?a' pb tb ?b' out')"
          using inside sa sb by (subst detect_approach.simps) simp
        have R: "?R = (case ?sr of Inl e \<Rightarrow> Inl e | Inr (Inl r) \<Rightarrow> Inr r
                       | Inr (Inr (out', still_close)) \<Rightarrow>
                           if \<not> still_close
                           then detect_invasion env pb tb ?b' pa ta ?a' out'
                           else detect_approach env pb tb ?b' pa ta ?a' out')"
          using inside sa sb
          by (subst detect_approach.simps)
             (simp add: adv cong: sum.case_cong prod.case_cong if_cong)
        from approach_step_symmetric [OF sym present, of ta sa a tb sb b]
        consider (same) "?sl = ?sr"
          | (both) "va \<noteq> fa \<or> vb \<noteq> fb"
                   "\<exists>t t'. ?sl = Inr (Inl (Some t, None)) \<and> ?sr = Inr (Inl (Some t', None))"
          by blast
        then show ?thesis
        proof cases
          case both
          then show ?thesis unfolding L R by auto
        next
          case same
          show ?thesis
          proof (cases ?sl)
            case (Inl e)
            then have sl: "?sl = Inl e" .
            with same have sr: "?sr = Inl e" by simp
            show ?thesis unfolding L R sl sr by simp
          next
            case (Inr x)
            show ?thesis
            proof (cases x)
              case (Inl r)
              with Inr have sl: "?sl = Inr (Inl r)" by simp
              with same have sr: "?sr = Inr (Inl r)" by simp
              show ?thesis unfolding L R sl sr by simp
            next
              case (Inr y)
              obtain out' still_close where y: "y = (out', still_close)" by (cases y)
              with Inr \<open>?sl = Inr x\<close> have sl0: "?sl = Inr (Inr (out', still_close))" by simp
              from approach_step_None [OF sl0] have out': "out' = None" by simp
              have sl: "?sl = Inr (Inr (None, still_close))" using sl0 out' by simp
              with same have sr: "?sr = Inr (Inr (None, still_close))" by simp
              show ?thesis
              proof (cases still_close)
                case False
                from detect_invasion_symmetric [OF sym present, of ta ?a' tb ?b']
                show ?thesis unfolding L R sl sr using False by simp
              next
                case True
                have IH: "detect_approach env pa ta ?a' pb tb ?b' None
                            = detect_approach env pb tb ?b' pa ta ?a' None
                        \<or> ((va \<noteq> fa \<or> vb \<noteq> fb)
                           \<and> (\<exists>t t'. detect_approach env pa ta ?a' pb tb ?b' None
                                         = Inr (Some t, None)
                               \<and> detect_approach env pb tb ?b' pa ta ?a' None
                                         = Inr (Some t', None)))"
                  using "1.hyps" [OF inside refl sa sb sl refl refl _ sym present] True
                  by simp
                show ?thesis unfolding L R sl sr using IH True by simp
              qed
            qed
          qed
        qed
      qed
    qed
  qed
qed

lemma close_start_symmetric:
  assumes sym: "symmetric_collaborators env"
    and fa: "footprint pa = Some fa" and va: "vicinity pa = Some va"
    and fb: "footprint pb = Some fb" and vb: "vicinity pb = Some vb"
  shows "close_start env pa ta a pb tb b = close_start env pb tb b pa ta a"
  using check_overlap_symmetric [OF assms]
  by (auto simp: close_start_def max.commute split: option.splits)

lemma between_symmetric_core:
  assumes sym: "symmetric_collaborators env"
    and la: "2 \<le> length ta" and lb: "2 \<le> length tb"
    and present: "footprint pa \<noteq> None \<and> footprint pb \<noteq> None
                  \<or> vicinity (convert_profile pa) = footprint pa
                    \<and> vicinity (convert_profile pb) = footprint pb"
  shows "between env pa ta pb tb None = between env pb tb pa ta None
       \<or> ((vicinity (convert_profile pa) \<noteq> footprint pa
            \<or> vicinity (convert_profile pb) \<noteq> footprint pb)
          \<and> (\<exists>t t'. between env pa ta pb tb None = Inr (Some t, None)
                   \<and> between env pb tb pa ta None = Inr (Some t', None)))"
proof -
  let ?PA = "convert_profile pa" and ?PB = "convert_profile pb"
  let ?L = "between env pa ta pb tb None" and ?R = "between env pb tb pa ta None"
  have fp: "footprint ?PA = footprint pa" "footprint ?PB = footprint pb"
    by (simp_all add: footprint_convert_profile)
  show ?thesis
  proof (cases "(footprint pa = None \<and> footprint pb = None)
                \<or> vicinity ?PA = None \<or> vicinity ?PB = None")
    case True
    then have "?L = Inr (None, None)" "?R = Inr (None, None)"
      using la lb by (auto simp: between_def Let_def fp)
    then show ?thesis by simp
  next
    case False
    then obtain va vb where va: "vicinity ?PA = Some va" and vb: "vicinity ?PB = Some vb"
      by auto
    have "footprint pa \<noteq> None \<and> footprint pb \<noteq> None"
      using present va vb by (metis option.distinct(1))
    then obtain fa fb
      where fa: "footprint ?PA = Some fa" and fb: "footprint ?PB = Some fb"
      unfolding fp by blast
    note all = fa va fb vb
    have c: "(va \<noteq> fa \<or> vb \<noteq> fb)
               = (vicinity ?PA \<noteq> footprint pa \<or> vicinity ?PB \<noteq> footprint pb)"
      using all by (simp add: fp)
    define ov where "ov \<longleftrightarrow> \<not> time (last tb) < time (hd ta) \<and> \<not> time (last ta) < time (hd tb)"
    have ov: "have_time_overlap ta tb = Some ov" "have_time_overlap tb ta = Some ov"
      using la lb by (auto simp: have_time_overlap_valid ov_def)
    show ?thesis
    proof (cases ov)
      case False
      then have "?L = Inr (None, None)" "?R = Inr (None, None)"
        using la lb ov by (simp_all add: between_def Let_def all)
      then show ?thesis by simp
    next
      case True
      obtain a b where it: "get_initial_iterators ta tb = Some (a, b)"
        using la lb by (cases "the (get_initial_iterators ta tb)")
          (simp add: get_initial_iterators_valid)
      then have it': "get_initial_iterators tb ta = Some (b, a)"
        using la lb by (auto simp: get_initial_iterators_valid split: if_splits)
      have cs: "close_start env ?PB tb b ?PA ta a = close_start env ?PA ta a ?PB tb b"
        by (rule close_start_symmetric [OF sym all, symmetric])
      have L: "?L = (case close_start env ?PA ta a ?PB tb b of
                       Inl e \<Rightarrow> Inl e
                     | Inr True \<Rightarrow> detect_approach env ?PA ta a ?PB tb b None
                     | Inr False \<Rightarrow> detect_invasion env ?PA ta a ?PB tb b None)"
        using la lb ov True it by (simp add: between_def Let_def all)
      have R: "?R = (case close_start env ?PA ta a ?PB tb b of
                       Inl e \<Rightarrow> Inl e
                     | Inr True \<Rightarrow> detect_approach env ?PB tb b ?PA ta a None
                     | Inr False \<Rightarrow> detect_invasion env ?PB tb b ?PA ta a None)"
        using la lb ov True it' by (simp add: between_def Let_def all cs)
      show ?thesis
      proof (cases "close_start env ?PA ta a ?PB tb b")
        case (Inl e)
        then show ?thesis unfolding L R by simp
      next
        case (Inr close)
        show ?thesis
        proof (cases close)
          case True
          from detect_approach_symmetric [OF sym all, of ta a tb b]
          show ?thesis unfolding L R Inr c using True by simp
        next
          case False
          from detect_invasion_symmetric [OF sym all, of ta a tb b]
          show ?thesis unfolding L R Inr c using False by simp
        qed
      qed
    qed
  qed
qed

text \<open>
  Claim C1, as amended. Let the collaborators be symmetric and both trajectories valid.
  If neither profile has a vicinity other than its footprint (after normalisation), then
  \<^verbatim>\<open>between(A, TA, B, TB)\<close> and \<^verbatim>\<open>between(B, TB, A, TA)\<close> return the same result. If both
  footprints are present, the two calls return the same result or both report a
  conflict, possibly at different times.
\<close>

theorem between_symmetric:
  assumes "symmetric_collaborators env"
    and "2 \<le> length trajectory_a" and "2 \<le> length trajectory_b"
  shows "(vicinity (convert_profile profile_a) = footprint profile_a
          \<and> vicinity (convert_profile profile_b) = footprint profile_b
          \<longrightarrow> between env profile_a trajectory_a profile_b trajectory_b None
                = between env profile_b trajectory_b profile_a trajectory_a None)
       \<and> (footprint profile_a \<noteq> None \<and> footprint profile_b \<noteq> None
          \<longrightarrow> between env profile_a trajectory_a profile_b trajectory_b None
                  = between env profile_b trajectory_b profile_a trajectory_a None
              \<or> (\<exists>t t'. between env profile_a trajectory_a profile_b trajectory_b None
                            = Inr (Some t, None)
                       \<and> between env profile_b trajectory_b profile_a trajectory_a None
                            = Inr (Some t', None)))"
  using between_symmetric_core [OF assms, of profile_a profile_b] by blast

section \<open>The first detected conflict\<close>

text \<open>
  What the extended form records in invasion mode, next to what the plain form returns:
  the plain form returns at the first conflict that the extended form would record.
  A contact fraction between 0 and 1 puts the contact inside the window of its pair of
  splines, and the windows of successive pairs follow one another in time.
\<close>

lemma compute_time_bounds:
  assumes "0 \<le> x" and "x \<le> 1" and "s \<le> f"
  shows "s \<le> compute_time x s f \<and> compute_time x s f \<le> f"
proof -
  have d: "0 \<le> real_of_int (f - s)" using assms(3) by simp
  have nonneg: "0 \<le> x * real_of_int (f - s)" using assms(1) d by simp
  have le: "x * real_of_int (f - s) \<le> real_of_int (f - s)"
    using mult_right_mono [OF assms(2) d] by simp
  have rep: "Duration_rep (x * real_of_int (f - s)) = \<lfloor>x * real_of_int (f - s)\<rfloor>"
    using nonneg by (simp add: Duration_rep_def)
  have "0 \<le> \<lfloor>x * real_of_int (f - s)\<rfloor>" using nonneg by simp
  moreover have "\<lfloor>x * real_of_int (f - s)\<rfloor> \<le> f - s"
    using le by (metis floor_mono floor_of_int)
  ultimately show ?thesis unfolding compute_time_def rep by linarith
qed

lemma check_collision_Some:
  "check_collision env sa ma sb mb = Inr (Some x) \<Longrightarrow>
     \<exists>shape_a shape_b. fcl_continuous_collide env shape_a ma shape_b mb = Some x"
  by (auto simp: check_collision_def split: option.splits)

lemma invasion_step_conflicts:
  assumes ext: "invasion_step env pa sa a pb sb b (Some cs) = Inr x"
  shows "\<exists>new. x = Inr (Some (cs @ new))
      \<and> invasion_step env pa sa a pb sb b None
          = (case new of [] \<Rightarrow> Inr (Inr None) | c # _ \<Rightarrow> Inr (Inl (conflict_time c)))
      \<and> (\<forall>c \<in> set new. fst c = a \<and> fst (snd c) = b)
      \<and> (contact_fractions_in_range env
           \<and> max (Spline_start_time sa) (Spline_start_time sb)
               \<le> min (Spline_finish_time sa) (Spline_finish_time sb)
         \<longrightarrow> (\<forall>c \<in> set new.
                 max (Spline_start_time sa) (Spline_start_time sb) \<le> conflict_time c
               \<and> conflict_time c \<le> min (Spline_finish_time sa) (Spline_finish_time sb)))"
proof -
  define st where "st = max (Spline_start_time sa) (Spline_start_time sb)"
  define fin where "fin = min (Spline_finish_time sa) (Spline_finish_time sb)"
  define t1 where "t1 =
     (if overlap (bound_footprint (get_bounding_profile env sa pa))
                 (bound_vicinity (get_bounding_profile env sb pb))
      then check_collision env (footprint pa) (sa, st, fin) (vicinity pb) (sb, st, fin)
      else Inr None)"
  define t2 where "t2 =
     (if (vicinity pa \<noteq> footprint pa \<or> vicinity pb \<noteq> footprint pb)
         \<and> overlap (bound_vicinity (get_bounding_profile env sa pa))
                   (bound_footprint (get_bounding_profile env sb pb))
      then check_collision env (vicinity pa) (sa, st, fin) (footprint pb) (sb, st, fin)
      else Inr None)"
  define entry :: "real option \<Rightarrow> Conflict list"
    where "entry c = (case c of None \<Rightarrow> [] | Some y \<Rightarrow> [(a, b, compute_time y st fin)])" for c
  have E: "invasion_step env pa sa a pb sb b (Some cs) =
             (case t1 of Inl e \<Rightarrow> Inl e
              | Inr c1 \<Rightarrow> (case t2 of Inl e \<Rightarrow> Inl e
                           | Inr c2 \<Rightarrow> Inr (Inr (Some (cs @ entry c1 @ entry c2)))))"
    unfolding invasion_step_def Let_def t1_def t2_def st_def fin_def entry_def
    by (auto simp: emplace_back_Some split: sum.splits option.splits)
  have P: "invasion_step env pa sa a pb sb b None =
             (case t1 of Inl e \<Rightarrow> Inl e
              | Inr (Some y) \<Rightarrow> Inr (Inl (compute_time y st fin))
              | Inr None \<Rightarrow> (case t2 of Inl e \<Rightarrow> Inl e
                             | Inr (Some y) \<Rightarrow> Inr (Inl (compute_time y st fin))
                             | Inr None \<Rightarrow> Inr (Inr None)))"
    unfolding invasion_step_def Let_def t1_def t2_def st_def fin_def
    by (auto simp: emplace_back_None split: sum.splits option.splits)
  from ext E obtain c1 c2 where c1: "t1 = Inr c1" and c2: "t2 = Inr c2"
    and x: "x = Inr (Some (cs @ entry c1 @ entry c2))"
    by (auto split: sum.splits)
  have range1: "0 \<le> y \<and> y \<le> 1" if "c1 = Some y" and "contact_fractions_in_range env" for y
  proof -
    from c1 that(1) have "check_collision env (footprint pa) (sa, st, fin) (vicinity pb)
        (sb, st, fin) = Inr (Some y)"
      by (simp add: t1_def split: if_splits)
    from check_collision_Some [OF this] that(2) show ?thesis
      unfolding contact_fractions_in_range_def by blast
  qed
  have range2: "0 \<le> y \<and> y \<le> 1" if "c2 = Some y" and "contact_fractions_in_range env" for y
  proof -
    from c2 that(1) have "check_collision env (vicinity pa) (sa, st, fin) (footprint pb)
        (sb, st, fin) = Inr (Some y)"
      by (simp add: t2_def split: if_splits)
    from check_collision_Some [OF this] that(2) show ?thesis
      unfolding contact_fractions_in_range_def by blast
  qed
  have plain: "invasion_step env pa sa a pb sb b None
          = (case entry c1 @ entry c2 of [] \<Rightarrow> Inr (Inr None)
             | c # _ \<Rightarrow> Inr (Inl (conflict_time c)))"
    unfolding P c1 c2 by (cases c1; cases c2) (simp_all add: entry_def conflict_time_def)
  have iters: "\<forall>c \<in> set (entry c1 @ entry c2). fst c = a \<and> fst (snd c) = b"
    by (cases c1; cases c2) (auto simp: entry_def)
  have bounds: "\<forall>c \<in> set (entry c1 @ entry c2). st \<le> conflict_time c \<and> conflict_time c \<le> fin"
    if "contact_fractions_in_range env" and "st \<le> fin"
  proof -
    have "st \<le> compute_time y st fin \<and> compute_time y st fin \<le> fin" if "c1 = Some y" for y
      using range1 [OF that \<open>contact_fractions_in_range env\<close>] \<open>st \<le> fin\<close>
      by (simp add: compute_time_bounds)
    moreover
    have "st \<le> compute_time y st fin \<and> compute_time y st fin \<le> fin" if "c2 = Some y" for y
      using range2 [OF that \<open>contact_fractions_in_range env\<close>] \<open>st \<le> fin\<close>
      by (simp add: compute_time_bounds)
    ultimately show ?thesis
      by (cases c1; cases c2) (auto simp: entry_def conflict_time_def)
  qed
  from x plain iters bounds show ?thesis unfolding st_def fin_def by blast
qed

lemma strictly_increasing_nth:
  "strictly_increasing t \<Longrightarrow> i < j \<Longrightarrow> j < length t \<Longrightarrow> time (t ! i) < time (t ! j)"
  unfolding strictly_increasing_def by (rule sorted_wrt_nth_less)

lemma make_Spline_times:
  assumes "make_Spline t i = Some s"
  shows "Spline_start_time s = time (t ! (i - 1))" and "Spline_finish_time s = time (t ! i)"
    and "0 < i" and "i < length t"
  using assms
  by (auto simp: make_Spline_def Spline_start_time_def Spline_finish_time_def split: if_splits)

lemma aligned_window:
  assumes "aligned ta a tb b" and "strictly_increasing ta" and "strictly_increasing tb"
    and "a < length ta" and "b < length tb"
  shows "max (time (ta ! (a - 1))) (time (tb ! (b - 1))) \<le> min (time (ta ! a)) (time (tb ! b))"
proof -
  have "time (ta ! (a - 1)) < time (ta ! a)"
    using assms by (intro strictly_increasing_nth) (auto simp: aligned_def)
  moreover have "time (tb ! (b - 1)) < time (tb ! b)"
    using assms by (intro strictly_increasing_nth) (auto simp: aligned_def)
  ultimately show ?thesis using assms(1) by (auto simp: aligned_def)
qed

lemma aligned_advance:
  assumes al: "aligned ta a tb b" and sa: "strictly_increasing ta" and sb: "strictly_increasing tb"
    and spa: "make_Spline ta a = Some spline_a" and spb: "make_Spline tb b = Some spline_b"
    and adv: "advance spline_a a spline_b b = (a', b')"
  shows "min (time (ta ! a)) (time (tb ! b)) \<le> max (time (ta ! (a' - 1))) (time (tb ! (b' - 1)))"
    and "a' < length ta \<and> b' < length tb \<longrightarrow> aligned ta a' tb b'"
proof -
  note ta = make_Spline_times [OF spa] and tb = make_Spline_times [OF spb]
  have up_a: "time (ta ! a) < time (ta ! (a + 1))" if "a + 1 < length ta"
    using that sa by (intro strictly_increasing_nth) simp_all
  have up_b: "time (tb ! b) < time (tb ! (b + 1))" if "b + 1 < length tb"
    using that sb by (intro strictly_increasing_nth) simp_all
  consider (a) "time (ta ! a) < time (tb ! b)" "a' = a + 1" "b' = b"
    | (b) "time (tb ! b) < time (ta ! a)" "a' = a" "b' = b + 1"
    | (both) "time (ta ! a) = time (tb ! b)" "a' = a + 1" "b' = b + 1"
    using adv unfolding advance_def ta(2) tb(2) by (auto split: if_splits)
  then have "min (time (ta ! a)) (time (tb ! b)) \<le> max (time (ta ! (a' - 1))) (time (tb ! (b' - 1)))
      \<and> (a' < length ta \<and> b' < length tb \<longrightarrow> aligned ta a' tb b')"
  proof cases
    case a
    then show ?thesis using al up_a tb(3) by (auto simp: aligned_def)
  next
    case b
    then show ?thesis using al up_b ta(3) by (auto simp: aligned_def)
  next
    case both
    then show ?thesis using al up_a up_b by (auto simp: aligned_def)
  qed
  then show "min (time (ta ! a)) (time (tb ! b)) \<le> max (time (ta ! (a' - 1))) (time (tb ! (b' - 1)))"
    and "a' < length ta \<and> b' < length tb \<longrightarrow> aligned ta a' tb b'"
    by blast+
qed

lemma detect_invasion_loop_conflicts:
  assumes "detect_invasion_loop env pa ta a pb tb b (Some cs) = Inr x"
  shows "\<exists>new. x = Inr (Some (cs @ new))
     \<and> detect_invasion_loop env pa ta a pb tb b None
         = (case new of [] \<Rightarrow> Inr (Inr None) | c # _ \<Rightarrow> Inr (Inl (conflict_time c)))
     \<and> (strictly_increasing ta \<and> strictly_increasing tb \<and> contact_fractions_in_range env
          \<and> (a < length ta \<and> b < length tb \<longrightarrow> aligned ta a tb b)
         \<longrightarrow> (\<forall>c \<in> set new. max (time (ta ! (a - 1))) (time (tb ! (b - 1))) \<le> conflict_time c)
           \<and> (\<forall>c \<in> set new. same_pair c (hd new) \<or> conflict_time (hd new) \<le> conflict_time c))"
  using assms
proof (induction env pa ta a pb tb b "Some cs :: Conflicts" arbitrary: cs x
       rule: detect_invasion_loop.induct)
  case (1 env pa ta a pb tb b)
  let ?L = "detect_invasion_loop env pa ta a pb tb b"
  show ?case
  proof (cases "a < length ta \<and> b < length tb")
    case False
    then have "?L (Some cs) = Inr (Inr (Some cs))" and plain: "?L None = Inr (Inr None)"
      by (subst detect_invasion_loop.simps, auto)+
    with "1.prems" have "x = Inr (Some (cs @ []))" by simp
    with plain show ?thesis by (intro exI [of _ "[]"]) simp
  next
    case inside: True
    from "1.prems" inside obtain sa sb
      where sa: "make_Spline ta a = Some sa" and sb: "make_Spline tb b = Some sb"
      by (subst (asm) detect_invasion_loop.simps) (auto split: option.splits)
    let ?a' = "fst (advance sa a sb b)" and ?b' = "snd (advance sa a sb b)"
    have unfold: "?L out = (case invasion_step env pa sa a pb sb b out of
                      Inl e \<Rightarrow> Inl e | Inr (Inl t) \<Rightarrow> Inr (Inl t)
                    | Inr (Inr out') \<Rightarrow> detect_invasion_loop env pa ta ?a' pb tb ?b' out')"
      for out
      using inside sa sb by (subst detect_invasion_loop.simps) simp
    from "1.prems" obtain y where step: "invasion_step env pa sa a pb sb b (Some cs) = Inr y"
      unfolding unfold by (auto split: sum.splits)
    from invasion_step_conflicts [OF step] obtain nk
      where y: "y = Inr (Some (cs @ nk))"
        and plain_step: "invasion_step env pa sa a pb sb b None
          = (case nk of [] \<Rightarrow> Inr (Inr None) | c # _ \<Rightarrow> Inr (Inl (conflict_time c)))"
        and iters: "\<forall>c \<in> set nk. fst c = a \<and> fst (snd c) = b"
        and bounds: "contact_fractions_in_range env
           \<and> max (Spline_start_time sa) (Spline_start_time sb)
               \<le> min (Spline_finish_time sa) (Spline_finish_time sb)
         \<longrightarrow> (\<forall>c \<in> set nk.
                 max (Spline_start_time sa) (Spline_start_time sb) \<le> conflict_time c
               \<and> conflict_time c \<le> min (Spline_finish_time sa) (Spline_finish_time sb))"
      by blast
    have step': "invasion_step env pa sa a pb sb b (Some cs) = Inr (Inr (Some (cs @ nk)))"
      using step y by simp
    with "1.prems" have rest_run:
      "detect_invasion_loop env pa ta ?a' pb tb ?b' (Some (cs @ nk)) = Inr x"
      unfolding unfold by simp
    from "1.hyps" [OF inside refl sa sb step' refl rest_run] obtain rest
      where x: "x = Inr (Some ((cs @ nk) @ rest))"
        and plain_rest: "detect_invasion_loop env pa ta ?a' pb tb ?b' None
         = (case rest of [] \<Rightarrow> Inr (Inr None) | c # _ \<Rightarrow> Inr (Inl (conflict_time c)))"
        and order_rest: "strictly_increasing ta \<and> strictly_increasing tb
          \<and> contact_fractions_in_range env
          \<and> (?a' < length ta \<and> ?b' < length tb \<longrightarrow> aligned ta ?a' tb ?b')
         \<longrightarrow> (\<forall>c \<in> set rest.
                max (time (ta ! (?a' - 1))) (time (tb ! (?b' - 1))) \<le> conflict_time c)
           \<and> (\<forall>c \<in> set rest. same_pair c (hd rest) \<or> conflict_time (hd rest) \<le> conflict_time c)"
      by blast
    have plain: "?L None = (case nk @ rest of [] \<Rightarrow> Inr (Inr None)
                            | c # _ \<Rightarrow> Inr (Inl (conflict_time c)))"
      unfolding unfold [of None] plain_step using plain_rest by (cases nk) simp_all
    have order: "(\<forall>c \<in> set (nk @ rest).
                    max (time (ta ! (a - 1))) (time (tb ! (b - 1))) \<le> conflict_time c)
           \<and> (\<forall>c \<in> set (nk @ rest).
                    same_pair c (hd (nk @ rest))
                    \<or> conflict_time (hd (nk @ rest)) \<le> conflict_time c)"
      if inc_a: "strictly_increasing ta" and inc_b: "strictly_increasing tb"
        and frac: "contact_fractions_in_range env"
        and al: "a < length ta \<and> b < length tb \<longrightarrow> aligned ta a tb b"
    proof -
      from al inside have al: "aligned ta a tb b" by simp
      note tsa = make_Spline_times [OF sa] and tsb = make_Spline_times [OF sb]
      let ?st = "max (time (ta ! (a - 1))) (time (tb ! (b - 1)))"
      let ?fin = "min (time (ta ! a)) (time (tb ! b))"
      let ?st' = "max (time (ta ! (?a' - 1))) (time (tb ! (?b' - 1)))"
      have window: "?st \<le> ?fin"
        using aligned_window [OF al inc_a inc_b] inside by simp
      have nk_bounds: "\<forall>c \<in> set nk. ?st \<le> conflict_time c \<and> conflict_time c \<le> ?fin"
        using bounds frac window unfolding tsa(1,2) tsb(1,2) by simp
      have adv: "advance sa a sb b = (?a', ?b')" by simp
      note next_al = aligned_advance [OF al inc_a inc_b sa sb adv]
      from order_rest inc_a inc_b frac next_al(2)
      have rest_lower: "\<forall>c \<in> set rest. ?st' \<le> conflict_time c"
        and rest_order: "\<forall>c \<in> set rest. same_pair c (hd rest)
                           \<or> conflict_time (hd rest) \<le> conflict_time c"
        by blast+
      have rest_after: "\<forall>c \<in> set rest. ?fin \<le> conflict_time c"
        using rest_lower next_al(1) by fastforce
      have lower: "\<forall>c \<in> set (nk @ rest). ?st \<le> conflict_time c"
        using nk_bounds rest_after window by fastforce
      have ordered: "\<forall>c \<in> set (nk @ rest).
                    same_pair c (hd (nk @ rest))
                    \<or> conflict_time (hd (nk @ rest)) \<le> conflict_time c"
      proof (cases nk)
        case Nil
        then show ?thesis using rest_order by simp
      next
        case (Cons c0 nk')
        then have hd: "hd (nk @ rest) = c0" and c0: "c0 \<in> set nk" by simp_all
        have "same_pair c c0" if "c \<in> set nk" for c
          using iters that c0 by (simp add: same_pair_def)
        moreover have "conflict_time c0 \<le> conflict_time c" if "c \<in> set rest" for c
          using nk_bounds c0 rest_after that by fastforce
        ultimately show ?thesis unfolding hd by auto
      qed
      from lower ordered show ?thesis by blast
    qed
    from x plain order show ?thesis
      by (intro exI [of _ "nk @ rest"]) simp
  qed
qed

lemma Trajectory_find_after_start:
  assumes ne: "t \<noteq> []" and later: "time (hd t) < s" and inc: "strictly_increasing t"
  shows "0 < Trajectory_find t s"
    and "time (t ! (Trajectory_find t s - 1)) < s"
    and "Trajectory_find t s < length t \<longrightarrow> s \<le> time (t ! Trajectory_find t s)"
proof -
  let ?P = "\<lambda>w. time w < s"
  have find: "Trajectory_find t s = length (takeWhile ?P t)"
    using ne later by (cases t) (simp_all add: Trajectory_find_def)
  have "takeWhile ?P t \<noteq> []" using ne later by (cases t) simp_all
  then show pos: "0 < Trajectory_find t s" by (simp add: find)
  have "Trajectory_find t s - 1 < length (takeWhile ?P t)" using pos by (simp add: find)
  then have mem: "(takeWhile ?P t) ! (Trajectory_find t s - 1) \<in> set (takeWhile ?P t)"
    and same: "(takeWhile ?P t) ! (Trajectory_find t s - 1) = t ! (Trajectory_find t s - 1)"
    by (rule nth_mem, rule takeWhile_nth)
  from set_takeWhileD [OF mem] show "time (t ! (Trajectory_find t s - 1)) < s"
    unfolding same by simp
  show "Trajectory_find t s < length t \<longrightarrow> s \<le> time (t ! Trajectory_find t s)"
    unfolding find using nth_length_takeWhile [of ?P t] by auto
qed

lemma initial_iterators_aligned:
  assumes la: "2 \<le> length ta" and lb: "2 \<le> length tb"
    and inc_a: "strictly_increasing ta" and inc_b: "strictly_increasing tb"
    and it: "get_initial_iterators ta tb = Some (a, b)"
  shows "a < length ta \<and> b < length tb \<longrightarrow> aligned ta a tb b"
proof -
  have ne: "ta \<noteq> []" "tb \<noteq> []" using la lb by auto
  have hd: "hd ta = ta ! 0" "hd tb = tb ! 0" using ne by (simp_all add: hd_conv_nth)
  have a01: "time (ta ! 0) < time (ta ! 1)"
    using la inc_a by (intro strictly_increasing_nth) simp_all
  have b01: "time (tb ! 0) < time (tb ! 1)"
    using lb inc_b by (intro strictly_increasing_nth) simp_all
  from it la lb
  consider (a_first) "time (hd ta) < time (hd tb)" "a = Trajectory_find ta (time (hd tb))" "b = 1"
    | (b_first) "time (hd tb) < time (hd ta)" "a = 1" "b = Trajectory_find tb (time (hd ta))"
    | (same) "time (hd ta) = time (hd tb)" "a = 1" "b = 1"
    by (auto simp: get_initial_iterators_def Trajectory_start_time_def
             split: list.splits if_splits)
  then show ?thesis
  proof cases
    case a_first
    from Trajectory_find_after_start [OF ne(1) a_first(1) inc_a] a_first(2,3) b01
    show ?thesis unfolding hd by (auto simp: aligned_def)
  next
    case b_first
    from Trajectory_find_after_start [OF ne(2) b_first(1) inc_b] b_first(2,3) a01
    show ?thesis unfolding hd by (auto simp: aligned_def)
  next
    case same
    then show ?thesis using a01 b01 unfolding hd by (auto simp: aligned_def)
  qed
qed

lemma detect_invasion_conflicts:
  assumes "detect_invasion env pa ta a pb tb b (Some cs0) = Inr (r, out)"
  shows "\<exists>cs. out = Some cs \<and> r = front_time (Some cs)
     \<and> detect_invasion env pa ta a pb tb b None = Inr (r, None)
     \<and> (strictly_increasing ta \<and> strictly_increasing tb \<and> contact_fractions_in_range env
          \<and> (a < length ta \<and> b < length tb \<longrightarrow> aligned ta a tb b)
         \<longrightarrow> (\<forall>c \<in> set cs. same_pair c (hd cs)
                  \<or> (\<exists>t. r = Some t \<and> t \<le> conflict_time c)))"
proof -
  from assms obtain x where
    run: "detect_invasion_loop env pa ta a pb tb b (Some []) = Inr x"
    by (auto simp: detect_invasion_def split: sum.splits)
  from detect_invasion_loop_conflicts [OF run] obtain new
    where x: "x = Inr (Some new)"
      and plain: "detect_invasion_loop env pa ta a pb tb b None
         = (case new of [] \<Rightarrow> Inr (Inr None) | c # _ \<Rightarrow> Inr (Inl (conflict_time c)))"
      and order: "strictly_increasing ta \<and> strictly_increasing tb
          \<and> contact_fractions_in_range env
          \<and> (a < length ta \<and> b < length tb \<longrightarrow> aligned ta a tb b)
         \<longrightarrow> (\<forall>c \<in> set new. same_pair c (hd new)
                  \<or> conflict_time (hd new) \<le> conflict_time c)"
    by auto
  from assms run x have out: "out = Some new" and r: "r = front_time (Some new)"
    by (auto simp: detect_invasion_def)
  have plain': "detect_invasion env pa ta a pb tb b None = Inr (r, None)"
    unfolding detect_invasion_def using plain r
    by (cases new) (simp_all add: front_time_def)
  have "\<forall>c \<in> set new. same_pair c (hd new) \<or> (\<exists>t. r = Some t \<and> t \<le> conflict_time c)"
    if "strictly_increasing ta \<and> strictly_increasing tb \<and> contact_fractions_in_range env
          \<and> (a < length ta \<and> b < length tb \<longrightarrow> aligned ta a tb b)"
    using order that r by (cases new) (auto simp: front_time_def)
  with out r plain' show ?thesis by blast
qed

text \<open>
  Claim C2, as amended. When the two vehicles are not close at the start, so that
  \<^verbatim>\<open>between\<close> runs in invasion mode, and the extended form returns, then the plain form
  returns the same time, and that time is the time of the first conflict the extended
  form has recorded (none when it has recorded nothing). For trajectories whose waypoint
  times are strictly increasing and contact fractions between 0 and 1, every recorded
  conflict is on the same pair of splines as the first one or is no earlier than the
  returned time: the returned time is the earliest up to the order of the two tests on
  the first conflicting pair of splines. A close start, where \<^verbatim>\<open>between\<close> runs in approach
  mode, is not covered.
\<close>

theorem between_returns_first_detected:
  assumes apart: "\<not> close_at_start env profile_a trajectory_a profile_b trajectory_b"
    and run: "between env profile_a trajectory_a profile_b trajectory_b (Some []) = Inr (r, out)"
  shows "\<exists>cs. out = Some cs \<and> r = front_time (Some cs)
     \<and> between env profile_a trajectory_a profile_b trajectory_b None = Inr (r, None)
     \<and> (strictly_increasing trajectory_a \<and> strictly_increasing trajectory_b
          \<and> contact_fractions_in_range env
         \<longrightarrow> (\<forall>c \<in> set cs. same_pair c (hd cs)
                  \<or> (\<exists>t. r = Some t \<and> t \<le> conflict_time c)))"
proof -
  let ?PA = "convert_profile profile_a" and ?PB = "convert_profile profile_b"
  let ?ext = "between env profile_a trajectory_a profile_b trajectory_b (Some [])"
  let ?plain = "between env profile_a trajectory_a profile_b trajectory_b None"
  from run have la: "2 \<le> length trajectory_a" and lb: "2 \<le> length trajectory_b"
    by (auto simp: between_def split: if_splits)
  have early: ?thesis if "?ext = Inr (None, Some [])" "?plain = Inr (None, None)"
    using that run by (simp add: front_time_def)
  show ?thesis
  proof (cases "(footprint ?PA = None \<and> footprint ?PB = None)
                \<or> vicinity ?PA = None \<or> vicinity ?PB = None")
    case True
    then have "?ext = Inr (None, Some [])" "?plain = Inr (None, None)"
      using la lb by (auto simp: between_def Let_def)
    then show ?thesis by (rule early)
  next
    case geometry: False
    define ov where
      "ov \<longleftrightarrow> \<not> time (last trajectory_b) < time (hd trajectory_a)
                \<and> \<not> time (last trajectory_a) < time (hd trajectory_b)"
    have ov: "have_time_overlap trajectory_a trajectory_b = Some ov"
      using la lb by (simp add: have_time_overlap_valid ov_def)
    show ?thesis
    proof (cases ov)
      case False
      then have "?ext = Inr (None, Some [])" "?plain = Inr (None, None)"
        using la lb geometry ov by (auto simp: between_def Let_def)
      then show ?thesis by (rule early)
    next
      case True
      obtain a b where it: "get_initial_iterators trajectory_a trajectory_b = Some (a, b)"
        using la lb by (cases "the (get_initial_iterators trajectory_a trajectory_b)")
          (simp add: get_initial_iterators_valid)
      let ?close = "close_start env ?PA trajectory_a a ?PB trajectory_b b"
      have form: "between env profile_a trajectory_a profile_b trajectory_b vec =
                   (case ?close of
                      Inl e \<Rightarrow> Inl e
                    | Inr True \<Rightarrow> detect_approach env ?PA trajectory_a a ?PB trajectory_b b vec
                    | Inr False \<Rightarrow> detect_invasion env ?PA trajectory_a a ?PB trajectory_b b vec)"
        for vec
        using la lb geometry ov True it by (auto simp: between_def Let_def)
      from apart it have not_close: "?close \<noteq> Inr True"
        by (simp add: close_at_start_def)
      from run not_close have close: "?close = Inr False"
        unfolding form by (auto split: sum.splits bool.splits)
      from run have inv: "detect_invasion env ?PA trajectory_a a ?PB trajectory_b b (Some [])
                           = Inr (r, out)"
        unfolding form close by simp
      from detect_invasion_conflicts [OF inv] obtain cs
        where out: "out = Some cs" and r: "r = front_time (Some cs)"
          and plain: "detect_invasion env ?PA trajectory_a a ?PB trajectory_b b None
                        = Inr (r, None)"
          and order: "strictly_increasing trajectory_a \<and> strictly_increasing trajectory_b
              \<and> contact_fractions_in_range env
              \<and> (a < length trajectory_a \<and> b < length trajectory_b
                    \<longrightarrow> aligned trajectory_a a trajectory_b b)
             \<longrightarrow> (\<forall>c \<in> set cs. same_pair c (hd cs)
                      \<or> (\<exists>t. r = Some t \<and> t \<le> conflict_time c))"
        by blast
      have plain': "?plain = Inr (r, None)" unfolding form close using plain by simp
      have "\<forall>c \<in> set cs. same_pair c (hd cs) \<or> (\<exists>t. r = Some t \<and> t \<le> conflict_time c)"
        if "strictly_increasing trajectory_a \<and> strictly_increasing trajectory_b
              \<and> contact_fractions_in_range env"
        using order that initial_iterators_aligned [OF la lb _ _ it] by blast
      with out r plain' show ?thesis by blast
    qed
  qed
qed

section \<open>A trajectory against a region with an absent vicinity\<close>

text \<open>
  Claim C9, as amended. With neither a footprint nor a vicinity the region variant
  reports no conflict and leaves the vector as it is, once the debug build's check of the
  trajectory's size has passed. With a footprint and no vicinity it does what it does on
  the same profile with the vicinity set to the footprint: the footprint-only profile is
  tested against the region.
\<close>

theorem detect_conflicts_normalised_vicinity:
  "(footprint profile = None \<and> vicinity profile = None
      \<longrightarrow> detect_conflicts NDEBUG collide profile trajectory region output_conflicts
            = (if \<not> NDEBUG \<and> length trajectory < 2
               then Inl (invalid_trajectory_error (length trajectory))
               else Inr (False, output_conflicts)))
   \<and> (vicinity profile = None
      \<longrightarrow> detect_conflicts NDEBUG collide profile trajectory region output_conflicts
            = detect_conflicts NDEBUG collide (profile\<lparr>vicinity := footprint profile\<rparr>)
                trajectory region output_conflicts)"
  by (auto simp: detect_conflicts_def Profile_vicinity_def split: option.splits)

section \<open>The conflict engine on the two vehicles\<close>

lemma discs_sel:
  "get_characteristic_length discs = (\<lambda>radius. \<bar>radius\<bar>)"
  "get_params_coeffs discs = hermite_coeffs"
  "compute_position discs = hermite_position"
  "compute_velocity discs = hermite_velocity"
  "fcl_collide discs = discs_collide"
  "fcl_continuous_collide discs = discs_first_contact"
  "initially_approaching discs = uniform_initially_approaching"
  "approach_times discs = (\<lambda>spline_a spline_b. [])"
  "D_start_time discs = uniform_start_time"
  "D_finish_time discs = uniform_finish_time"
  by (simp_all add: discs_def)

lemma discs_collide_commute:
  "discs_collide ra pa rb pb = discs_collide rb pb ra pa"
  by (simp add: discs_collide_def power2_commute add.commute)

lemma discs_first_contact_commute:
  "discs_first_contact ra ma rb mb = discs_first_contact rb mb ra ma"
proof -
  define d0 where "d0 = fst (motion_x ma) - fst (motion_x mb)"
  define d1 where "d1 = snd (motion_x ma) - snd (motion_x mb)"
  define r where "r = \<bar>ra\<bar> + \<bar>rb\<bar>"
  have swap: "fst (motion_x mb) - fst (motion_x ma) = - d0"
    "snd (motion_x mb) - snd (motion_x ma) = - d1" "\<bar>rb\<bar> + \<bar>ra\<bar> = r"
    by (simp_all add: d0_def d1_def r_def)
  have q1: "(- d0 - r) / (- d0 - - d1) = (- r - d0) / (d1 - d0)"
    by (simp add: algebra_simps)
  have q2: "(- r - - d0) / (- d1 - - d0) = (d0 - r) / (d0 - d1)"
    by (simp add: algebra_simps)
  have L: "discs_first_contact ra ma rb mb =
       (if \<bar>d0\<bar> \<le> r then Some 0
         else if r < d0 then (if d1 \<le> r then Some ((d0 - r) / (d0 - d1)) else None)
         else (if - r \<le> d1 then Some ((- r - d0) / (d1 - d0)) else None))"
    by (simp add: discs_first_contact_def Let_def d0_def d1_def r_def)
  have R: "discs_first_contact rb mb ra ma =
       (if \<bar>- d0\<bar> \<le> r then Some 0
         else if r < - d0 then (if - d1 \<le> r then Some ((- d0 - r) / (- d0 - - d1)) else None)
         else (if - r \<le> - d1 then Some ((- r - - d0) / (- d1 - - d0)) else None))"
    unfolding discs_first_contact_def Let_def swap ..
  have "0 \<le> r" by (simp add: r_def)
  then show ?thesis unfolding L R q1 q2 by auto
qed

lemma x_gap_swap: "x_gap sb sa t = - x_gap sa sb t"
  by (simp add: x_gap_def)

lemma uniform_times_commute:
  "uniform_start_time sa sb = uniform_start_time sb sa"
  "uniform_finish_time sa sb = uniform_finish_time sb sa"
  by (simp_all add: uniform_start_time_def uniform_finish_time_def max.commute min.commute)

lemma uniform_initially_approaching_commute:
  "uniform_initially_approaching sa sb = uniform_initially_approaching sb sa"
proof -
  have "x_gap sb sa t * (x_gap sb sa t' - x_gap sb sa t)
          = x_gap sa sb t * (x_gap sa sb t' - x_gap sa sb t)" for t t'
    by (simp add: x_gap_swap [of sb sa] algebra_simps)
  then show ?thesis
    by (simp add: uniform_initially_approaching_def Let_def uniform_times_commute [of sb sa])
qed

lemma symmetric_discs: "symmetric_collaborators discs"
  unfolding symmetric_collaborators_def discs_sel
  using discs_collide_commute discs_first_contact_commute
    uniform_initially_approaching_commute uniform_times_commute
  by blast

lemma make_Spline_standing: "make_Spline standing (Suc 0) = Some standing_spline"
  by (simp add: make_Spline_def standing_def standing_spline_def)

lemma make_Spline_driving: "make_Spline driving (Suc 0) = Some driving_spline"
  by (simp add: make_Spline_def driving_def driving_spline_def)

lemma spline_times:
  "Spline_start_time standing_spline = 0" "Spline_finish_time standing_spline = 10000000000"
  "Spline_start_time driving_spline = 0" "Spline_finish_time driving_spline = 10000000000"
  "time (fst standing_spline) = 0" "time (snd standing_spline) = 10000000000"
  "time (fst driving_spline) = 0" "time (snd driving_spline) = 10000000000"
  by (simp_all add: Spline_start_time_def Spline_finish_time_def standing_spline_def
      driving_spline_def standing_def driving_def)

lemma coeffs_standing:
  "hermite_coeffs standing_spline = ((0, 0, 0, 0), (0, 0, 0, 0), (0, 0, 0, 0))"
  by (simp add: hermite_coeffs_def standing_spline_def standing_def hermite_def to_seconds_def)

lemma coeffs_driving:
  "hermite_coeffs driving_spline = ((10, - 10, 0, 0), (0, 0, 0, 0), (0, 0, 0, 0))"
  by (simp add: hermite_coeffs_def driving_spline_def driving_def hermite_def to_seconds_def)

lemma box_standing:
  "get_bounding_box discs standing_spline =
     \<lparr> box_min = (Finite 0, Finite 0), box_max = (Finite 0, Finite 0) \<rparr>"
  by (simp add: get_bounding_box_def discs_sel coeffs_standing get_local_extrema_def
      extrema_candidates_def)

lemma box_driving:
  "get_bounding_box discs driving_spline =
     \<lparr> box_min = (Finite 0, Finite 0), box_max = (Finite 10, Finite 0) \<rparr>"
  by (simp add: get_bounding_box_def discs_sel coeffs_driving get_local_extrema_def
      extrema_candidates_def)

lemma positions:
  "hermite_position standing_spline 0 = (0, 0, 0)"
  "hermite_position standing_spline 10000000000 = (0, 0, 0)"
  "hermite_position driving_spline 0 = (10, 0, 0)"
  "hermite_position driving_spline 10000000000 = (0, 0, 0)"
  by (simp_all add: hermite_position_def coeffs_standing coeffs_driving spline_times)

lemma motions:
  "motion_x (standing_spline, 0, 10000000000) = (0, 0)"
  "motion_x (driving_spline, 0, 10000000000) = (10, 0)"
  by (simp_all add: motion_x_def positions)

lemma profiles:
  "convert_profile wide_profile = \<lparr> footprint = Some (1 / 10), vicinity = Some 1 \<rparr>"
  "convert_profile plain_profile = \<lparr> footprint = Some (1 / 10), vicinity = Some (1 / 10) \<rparr>"
  by (simp_all add: convert_profile_def wide_profile_def plain_profile_def)

lemma bounds:
  "get_bounding_profile discs standing_spline \<lparr> footprint = Some (1 / 10), vicinity = Some 1 \<rparr> =
     \<lparr> bound_footprint = \<lparr> box_min = (Finite (- 1 / 10), Finite (- 1 / 10)),
                            box_max = (Finite (1 / 10), Finite (1 / 10)) \<rparr>,
       bound_vicinity = \<lparr> box_min = (Finite (- 1), Finite (- 1)),
                           box_max = (Finite 1, Finite 1) \<rparr> \<rparr>"
  "get_bounding_profile discs driving_spline
       \<lparr> footprint = Some (1 / 10), vicinity = Some (1 / 10) \<rparr> =
     \<lparr> bound_footprint = \<lparr> box_min = (Finite (- 1 / 10), Finite (- 1 / 10)),
                            box_max = (Finite (101 / 10), Finite (1 / 10)) \<rparr>,
       bound_vicinity = \<lparr> box_min = (Finite (- 1 / 10), Finite (- 1 / 10)),
                           box_max = (Finite (101 / 10), Finite (1 / 10)) \<rparr> \<rparr>"
  by (simp_all add: get_bounding_profile_def box_standing box_driving adjust_bounding_box_def
      discs_sel)

lemma contacts:
  "discs_first_contact (1 / 10) (standing_spline, 0, 10000000000)
      (1 / 10) (driving_spline, 0, 10000000000) = Some (49 / 50)"
  "discs_first_contact 1 (standing_spline, 0, 10000000000)
      (1 / 10) (driving_spline, 0, 10000000000) = Some (89 / 100)"
  "discs_first_contact (1 / 10) (driving_spline, 0, 10000000000)
      (1 / 10) (standing_spline, 0, 10000000000) = Some (49 / 50)"
  "discs_first_contact (1 / 10) (driving_spline, 0, 10000000000)
      1 (standing_spline, 0, 10000000000) = Some (89 / 100)"
  by (simp_all add: discs_first_contact_def motions)

lemma times:
  "compute_time (49 / 50) 0 10000000000 = 9800000000"
  "compute_time (89 / 100) 0 10000000000 = 8900000000"
  by (simp_all add: compute_time_def Duration_rep_def)

lemma step_ab:
  "invasion_step discs \<lparr> footprint = Some (1 / 10), vicinity = Some 1 \<rparr> standing_spline (Suc 0)
      \<lparr> footprint = Some (1 / 10), vicinity = Some (1 / 10) \<rparr> driving_spline (Suc 0) None
    = Inr (Inl 9800000000)"
  by (simp add: invasion_step_def Let_def spline_times bounds
      overlap_def check_collision_def discs_sel contacts times)

lemma step_ba:
  "invasion_step discs \<lparr> footprint = Some (1 / 10), vicinity = Some (1 / 10) \<rparr> driving_spline (Suc 0)
      \<lparr> footprint = Some (1 / 10), vicinity = Some 1 \<rparr> standing_spline (Suc 0)  None
    = Inr (Inl 8900000000)"
  by (simp add: invasion_step_def Let_def spline_times bounds
      overlap_def check_collision_def discs_sel contacts times)

lemma step_ab_all:
  "invasion_step discs \<lparr> footprint = Some (1 / 10), vicinity = Some 1 \<rparr> standing_spline (Suc 0)
      \<lparr> footprint = Some (1 / 10), vicinity = Some (1 / 10) \<rparr> driving_spline (Suc 0) (Some [])
    = Inr (Inr (Some [(Suc 0, Suc 0, 9800000000), (Suc 0, Suc 0, 8900000000)]))"
  by (simp add: invasion_step_def Let_def spline_times bounds emplace_back_def
      overlap_def check_collision_def discs_sel contacts times)


lemma lengths: "length standing = 2" "length driving = 2"
  by (simp_all add: standing_def driving_def)

lemma advance_example:
  "advance standing_spline (Suc 0) driving_spline (Suc 0) = (2, 2)"
  "advance driving_spline (Suc 0) standing_spline (Suc 0) = (2, 2)"
  by (simp_all add: advance_def spline_times)

lemma loop_ab:
  "detect_invasion_loop discs \<lparr> footprint = Some (1 / 10), vicinity = Some 1 \<rparr> standing (Suc 0)
      \<lparr> footprint = Some (1 / 10), vicinity = Some (1 / 10) \<rparr> driving (Suc 0) None
    = Inr (Inl 9800000000)"
  by (simp add: detect_invasion_loop.simps lengths make_Spline_standing make_Spline_driving step_ab)

lemma loop_ba:
  "detect_invasion_loop discs \<lparr> footprint = Some (1 / 10), vicinity = Some (1 / 10) \<rparr> driving (Suc 0)
      \<lparr> footprint = Some (1 / 10), vicinity = Some 1 \<rparr> standing (Suc 0) None
    = Inr (Inl 8900000000)"
  by (simp add: detect_invasion_loop.simps lengths make_Spline_standing make_Spline_driving step_ba)

lemma loop_ab_all:
  "detect_invasion_loop discs \<lparr> footprint = Some (1 / 10), vicinity = Some 1 \<rparr> standing (Suc 0)
      \<lparr> footprint = Some (1 / 10), vicinity = Some (1 / 10) \<rparr> driving (Suc 0) (Some [])
    = Inr (Inr (Some [(Suc 0, Suc 0, 9800000000), (Suc 0, Suc 0, 8900000000)]))"
  by (simp add: detect_invasion_loop.simps lengths make_Spline_standing make_Spline_driving
      step_ab_all advance_example)

lemma overlap_example:
  "have_time_overlap standing driving = Some True"
  "have_time_overlap driving standing = Some True"
  "get_initial_iterators standing driving = Some (Suc 0, Suc 0)"
  "get_initial_iterators driving standing = Some (Suc 0, Suc 0)"
  by (simp_all add: have_time_overlap_def get_initial_iterators_def Trajectory_start_time_def
      Trajectory_finish_time_def standing_def driving_def)

lemma close_start_example:
  "close_start discs \<lparr> footprint = Some (1 / 10), vicinity = Some 1 \<rparr> standing (Suc 0)
      \<lparr> footprint = Some (1 / 10), vicinity = Some (1 / 10) \<rparr> driving (Suc 0) = Inr False"
  "close_start discs \<lparr> footprint = Some (1 / 10), vicinity = Some (1 / 10) \<rparr> driving (Suc 0)
      \<lparr> footprint = Some (1 / 10), vicinity = Some 1 \<rparr> standing (Suc 0) = Inr False"
  by (simp_all add: close_start_def make_Spline_standing make_Spline_driving spline_times
      check_overlap_def discs_sel positions discs_collide_def power2_eq_square)

text \<open>
  Claim C1, as stated, fails: with the standing vehicle first the engine meets the pair
  (footprint of the standing one, vicinity of the driving one) first and returns its
  contact at \<open>9.8 s\<close>; with the driving vehicle first it meets the pair (footprint of the
  driving one, vicinity of the standing one) first and returns \<open>8.9 s\<close>.
\<close>

theorem between_asymmetric_counterexample:
  "between discs wide_profile standing plain_profile driving None = Inr (Some 9800000000, None)
   \<and> between discs plain_profile driving wide_profile standing None = Inr (Some 8900000000, None)"
  by (simp add: between_def Let_def lengths profiles overlap_example close_start_example
      detect_invasion_def loop_ab loop_ba)

text \<open>
  Claim C2, as stated, fails: on the same two vehicles the extended form records the
  conflict at \<open>9.8 s\<close> before the one at \<open>8.9 s\<close> and returns the time of the front,
  \<open>9.8 s\<close>, although a conflict detected during the call is earlier.
\<close>

theorem between_all_not_earliest_counterexample:
  "between discs wide_profile standing plain_profile driving (Some [])
     = Inr (Some 9800000000, Some [(1, 1, 9800000000), (1, 1, 8900000000)])
   \<and> conflict_time (1, 1, 8900000000) < 9800000000"
  by (simp add: between_def Let_def lengths profiles overlap_example close_start_example
      detect_invasion_def loop_ab_all front_time_def conflict_time_def)

text \<open>
  A close start: the standing vehicle and the passing one. \<^verbatim>\<open>detect_approach\<close> records
  the conflict at the start, finds the vehicles apart at the end of the pair of splines
  and hands over to \<^verbatim>\<open>detect_invasion\<close>, which clears the vector. The plain form returns
  the start, the extended form returns none and an empty vector.
\<close>

lemma make_Spline_passing: "make_Spline passing (Suc 0) = Some passing_spline"
  by (simp add: make_Spline_def passing_def passing_spline_def)

lemma passing_times:
  "Spline_start_time passing_spline = 0" "Spline_finish_time passing_spline = 10000000000"
  "time (fst passing_spline) = 0" "time (snd passing_spline) = 10000000000"
  by (simp_all add: Spline_start_time_def Spline_finish_time_def passing_spline_def passing_def)

lemma coeffs_passing:
  "hermite_coeffs passing_spline = ((1 / 2, - 21 / 2, 0, 0), (0, 0, 0, 0), (0, 0, 0, 0))"
  by (simp add: hermite_coeffs_def passing_spline_def passing_def hermite_def to_seconds_def)

lemma passing_positions:
  "hermite_position passing_spline 0 = (1 / 2, 0, 0)"
  "hermite_position passing_spline 10000000000 = (- 10, 0, 0)"
  by (simp_all add: hermite_position_def coeffs_passing passing_times)

lemma passing_overlap:
  "length passing = 2"
  "have_time_overlap standing passing = Some True"
  "get_initial_iterators standing passing = Some (Suc 0, Suc 0)"
  by (simp_all add: have_time_overlap_def get_initial_iterators_def Trajectory_start_time_def
      Trajectory_finish_time_def standing_def passing_def)

lemma passing_close:
  "check_overlap discs \<lparr> footprint = Some (1 / 10), vicinity = Some 1 \<rparr> standing_spline
      \<lparr> footprint = Some (1 / 10), vicinity = Some (1 / 10) \<rparr> passing_spline 0 = Inr True"
  "check_overlap discs \<lparr> footprint = Some (1 / 10), vicinity = Some 1 \<rparr> standing_spline
      \<lparr> footprint = Some (1 / 10), vicinity = Some (1 / 10) \<rparr> passing_spline 10000000000
     = Inr False"
  by (simp_all add: check_overlap_def discs_sel positions passing_positions discs_collide_def
      power2_eq_square)

lemma passing_approaching:
  "uniform_initially_approaching standing_spline passing_spline"
  "uniform_start_time standing_spline passing_spline = 0"
  "uniform_finish_time standing_spline passing_spline = 10000000000"
  by (simp_all add: uniform_initially_approaching_def uniform_start_time_def
      uniform_finish_time_def x_gap_def spline_times passing_times positions passing_positions)

lemma passing_advance: "advance standing_spline (Suc 0) passing_spline (Suc 0) = (2, 2)"
  by (simp add: advance_def spline_times passing_times)

lemma passing_after:
  "detect_invasion discs pa standing 2 pb passing 2 (Some cs) = Inr (None, Some [])"
  by (simp add: detect_invasion_def detect_invasion_loop.simps lengths passing_overlap
      front_time_def)

lemma between_approach_handover_example:
  "close_at_start discs wide_profile standing plain_profile passing"
  "between discs wide_profile standing plain_profile passing None = Inr (Some 0, None)"
  "between discs wide_profile standing plain_profile passing (Some []) = Inr (None, Some [])"
proof -
  have close: "close_start discs \<lparr> footprint = Some (1 / 10), vicinity = Some 1 \<rparr> standing (Suc 0)
      \<lparr> footprint = Some (1 / 10), vicinity = Some (1 / 10) \<rparr> passing (Suc 0) = Inr True"
    by (simp add: close_start_def make_Spline_standing make_Spline_passing spline_times
        passing_times passing_close)
  show "close_at_start discs wide_profile standing plain_profile passing"
    by (simp add: close_at_start_def passing_overlap profiles close)
  have plain: "detect_approach discs \<lparr> footprint = Some (1 / 10), vicinity = Some 1 \<rparr> standing (Suc 0)
      \<lparr> footprint = Some (1 / 10), vicinity = Some (1 / 10) \<rparr> passing (Suc 0) None
      = Inr (Some 0, None)"
    by (subst detect_approach.simps)
       (simp add: lengths passing_overlap make_Spline_standing make_Spline_passing
          approach_step_def discs_sel passing_approaching)
  have ext: "detect_approach discs \<lparr> footprint = Some (1 / 10), vicinity = Some 1 \<rparr> standing (Suc 0)
      \<lparr> footprint = Some (1 / 10), vicinity = Some (1 / 10) \<rparr> passing (Suc 0) (Some [])
      = Inr (None, Some [])"
    by (subst detect_approach.simps)
       (simp add: lengths passing_overlap make_Spline_standing make_Spline_passing
          approach_step_def discs_sel passing_approaching emplace_back_def passing_close
          passing_advance passing_after)
  show "between discs wide_profile standing plain_profile passing None = Inr (Some 0, None)"
    by (simp add: between_def Let_def lengths passing_overlap profiles close plain)
  show "between discs wide_profile standing plain_profile passing (Some []) = Inr (None, Some [])"
    by (simp add: between_def Let_def lengths passing_overlap profiles close ext)
qed

lemma standing_times:
  "Trajectory_start_time standing = Some 0"
  "Trajectory_finish_time standing = Some 10000000000"
  by (simp_all add: Trajectory_start_time_def Trajectory_finish_time_def standing_def)

lemma region_contact_standing:
  "disc_region_contact (1 / 10) (standing_spline, 0, 10000000000) 1 (0, 0, 0) = Some 0"
  by (simp add: disc_region_contact_def motions)

text \<open>
  Claim C9, as stated, fails: the standing vehicle with a footprint and no vicinity,
  against a disc of radius 1 at the origin, is tested and is in conflict from the start.
\<close>

theorem detect_conflicts_footprint_only_counterexample:
  "vicinity plain_profile = None
   \<and> detect_conflicts False disc_region_contact plain_profile standing disc_region (Some [])
       = Inr (True, Some [(1, 1, 0)])
   \<and> detect_conflicts False disc_region_contact plain_profile standing disc_region None
       = Inr (True, None)"
  by (simp add: detect_conflicts_def Profile_vicinity_def plain_profile_def standing_times
      lengths disc_region_def region_loop.simps make_Spline_standing spline_times
      region_contact_standing emplace_back_def compute_time_def Duration_rep_def)

text \<open>
  Claim C5 fails on the code: a profile with a vicinity and no footprint passes the early
  exits, and \<^verbatim>\<open>check_overlap\<close> then dereferences the null footprint, where the claim
  has \<^verbatim>\<open>invalid_trajectory_error\<close> as the only failure and \<open>none\<close> for missing geometry.
  The size check itself is as the claim says (\<open>between_raises_iff\<close>).
\<close>

theorem between_absent_footprint_undefined:
  "between env \<lparr> footprint = None, vicinity = Some v \<rparr> standing
           \<lparr> footprint = Some f, vicinity = None \<rparr> driving output_conflicts
     = Inl undefined_behaviour"
  by (simp add: between_def Let_def convert_profile_def lengths overlap_example
      close_start_def make_Spline_standing make_Spline_driving check_overlap_def)

section \<open>The theorems at concrete inputs\<close>

text \<open>
  Each theorem above that has a hypothesis is applied here to the two vehicles, with every
  hypothesis discharged.
\<close>

theorem between_no_time_overlap_witness:
  "2 \<le> length standing \<and> 2 \<le> length driving_later
   \<and> time (last standing) < time (hd driving_later)
   \<and> footprint wide_profile = Some (1 / 10) \<and> footprint plain_profile = Some (1 / 10)
   \<and> between discs wide_profile standing plain_profile driving_later (Some [])
       = Inr (None, Some [])"
proof -
  have l: "2 \<le> length standing" "2 \<le> length driving_later"
    by (simp_all add: standing_def driving_later_def)
  have t: "time (last standing) < time (hd driving_later)"
    by (simp add: standing_def driving_later_def)
  have "between discs wide_profile standing plain_profile driving_later (Some [])
       = Inr (None, Some [])"
    using l t by (intro between_no_time_overlap) simp_all
  with l t show ?thesis by (simp add: wide_profile_def plain_profile_def)
qed

theorem between_empty_geometry_witness:
  "2 \<le> length standing \<and> 2 \<le> length driving
   \<and> footprint \<lparr> footprint = None, vicinity = Some (1 :: real) \<rparr> = None
   \<and> between discs \<lparr> footprint = None, vicinity = Some 1 \<rparr> standing
                     \<lparr> footprint = None, vicinity = Some 1 \<rparr> driving None = Inr (None, None)
   \<and> vicinity (convert_profile \<lparr> footprint = None, vicinity = None :: real option \<rparr>) = None
   \<and> between discs wide_profile standing
                     \<lparr> footprint = None, vicinity = None \<rparr> driving None = Inr (None, None)"
proof -
  have l: "2 \<le> length standing" "2 \<le> length driving"
    by (simp_all add: standing_def driving_def)
  have f: "footprint \<lparr> footprint = None, vicinity = Some (1 :: real) \<rparr> = None" by simp
  have v: "vicinity (convert_profile \<lparr> footprint = None, vicinity = None :: real option \<rparr>) = None"
    by (simp add: convert_profile_def)
  have a: "between discs \<lparr> footprint = None, vicinity = Some 1 \<rparr> standing
                     \<lparr> footprint = None, vicinity = Some 1 \<rparr> driving None = Inr (None, None)"
    using l f by (intro between_empty_geometry) simp_all
  have b: "between discs wide_profile standing
                     \<lparr> footprint = None, vicinity = None \<rparr> driving None = Inr (None, None)"
    using l v by (intro between_empty_geometry) simp_all
  from l f v a b show ?thesis by blast
qed

theorem between_symmetric_witness:
  "symmetric_collaborators discs \<and> 2 \<le> length standing \<and> 2 \<le> length driving
   \<and> vicinity (convert_profile plain_profile) = footprint plain_profile
   \<and> between discs plain_profile standing plain_profile driving None
       = between discs plain_profile driving plain_profile standing None
   \<and> footprint wide_profile \<noteq> None \<and> footprint plain_profile \<noteq> None
   \<and> between discs wide_profile standing plain_profile driving None
       = Inr (Some 9800000000, None)
   \<and> between discs plain_profile driving wide_profile standing None
       = Inr (Some 8900000000, None)"
proof -
  have l: "2 \<le> length standing" "2 \<le> length driving"
    by (simp_all add: lengths)
  have p: "vicinity (convert_profile plain_profile) = footprint plain_profile"
    by (simp add: convert_profile_def plain_profile_def)
  have f: "footprint wide_profile \<noteq> None" "footprint plain_profile \<noteq> None"
    by (simp_all add: wide_profile_def plain_profile_def)
  note sym = between_symmetric [OF symmetric_discs l]
  from sym [of plain_profile plain_profile] p
  have same: "between discs plain_profile standing plain_profile driving None
       = between discs plain_profile driving plain_profile standing None"
    by blast
  from sym [of wide_profile plain_profile] f
  have either: "between discs wide_profile standing plain_profile driving None
         = between discs plain_profile driving wide_profile standing None
       \<or> (\<exists>t t'. between discs wide_profile standing plain_profile driving None
                     = Inr (Some t, None)
                \<and> between discs plain_profile driving wide_profile standing None
                     = Inr (Some t', None))"
    by blast
  have ab: "between discs wide_profile standing plain_profile driving None
       = Inr (Some 9800000000, None)"
    by (simp add: between_def Let_def lengths profiles overlap_example close_start_example
      detect_invasion_def loop_ab)
  have ba: "between discs plain_profile driving wide_profile standing None
       = Inr (Some 8900000000, None)"
    by (simp add: between_def Let_def lengths profiles overlap_example close_start_example
      detect_invasion_def loop_ba)
  from symmetric_discs l p same either f ab ba show ?thesis by blast
qed

lemma contact_fractions_discs: "contact_fractions_in_range discs"
proof -
  have "0 \<le> x \<and> x \<le> 1"
    if "discs_first_contact ra ma rb mb = Some x" for ra ma rb mb x
  proof -
    define d0 where "d0 = fst (motion_x ma) - fst (motion_x mb)"
    define d1 where "d1 = snd (motion_x ma) - snd (motion_x mb)"
    define r where "r = \<bar>ra\<bar> + \<bar>rb\<bar>"
    from that consider (touching) "x = 0"
      | (from_right) "r < d0" "d1 \<le> r" "x = (d0 - r) / (d0 - d1)"
      | (from_left) "d0 < - r" "- r \<le> d1" "x = (- r - d0) / (d1 - d0)"
      unfolding discs_first_contact_def Let_def d0_def [symmetric] d1_def [symmetric]
        r_def [symmetric]
      by (auto split: if_splits)
    then show ?thesis
    proof cases
      case touching
      then show ?thesis by simp
    next
      case from_right
      then have "0 \<le> (d0 - r) / (d0 - d1)" by (intro divide_nonneg_pos) linarith+
      moreover from from_right have "(d0 - r) / (d0 - d1) \<le> 1"
        by (intro divide_le_eq_1_pos [THEN iffD2]) linarith+
      ultimately show ?thesis unfolding from_right(3) by simp
    next
      case from_left
      then have "0 \<le> (- r - d0) / (d1 - d0)" by (intro divide_nonneg_pos) linarith+
      moreover from from_left have "(- r - d0) / (d1 - d0) \<le> 1"
        by (intro divide_le_eq_1_pos [THEN iffD2]) linarith+
      ultimately show ?thesis unfolding from_left(3) by simp
    qed
  qed
  then show ?thesis by (simp add: contact_fractions_in_range_def discs_sel)
qed

lemma increasing_example: "strictly_increasing standing" "strictly_increasing driving"
  by (simp_all add: strictly_increasing_def standing_def driving_def)

lemma apart_example: "\<not> close_at_start discs wide_profile standing plain_profile driving"
  by (simp add: close_at_start_def overlap_example profiles close_start_example)

theorem between_returns_first_detected_witness:
  "\<not> close_at_start discs wide_profile standing plain_profile driving
   \<and> between discs wide_profile standing plain_profile driving (Some [])
       = Inr (Some 9800000000, Some [(1, 1, 9800000000), (1, 1, 8900000000)])
   \<and> strictly_increasing standing \<and> strictly_increasing driving
   \<and> contact_fractions_in_range discs
   \<and> Some 9800000000 = front_time (Some [(1, 1, 9800000000), (1, 1, 8900000000)])
   \<and> between discs wide_profile standing plain_profile driving None
       = Inr (Some 9800000000, None)
   \<and> same_pair (1, 1, 8900000000) (1, 1, 9800000000)
   \<and> conflict_time (1, 1, 8900000000) < 9800000000"
proof -
  have run: "between discs wide_profile standing plain_profile driving (Some [])
       = Inr (Some 9800000000, Some [(1, 1, 9800000000), (1, 1, 8900000000)])"
    by (simp add: between_def Let_def lengths profiles overlap_example close_start_example
      detect_invasion_def loop_ab_all front_time_def conflict_time_def)
  from between_returns_first_detected [OF apart_example run]
  obtain cs where cs: "Some [(1, 1, 9800000000), (1, 1, 8900000000)] = Some cs"
    and front: "Some 9800000000 = front_time (Some cs)"
    and plain: "between discs wide_profile standing plain_profile driving None
                  = Inr (Some 9800000000, None)"
    and order: "strictly_increasing standing \<and> strictly_increasing driving
          \<and> contact_fractions_in_range discs
         \<longrightarrow> (\<forall>c \<in> set cs. same_pair c (hd cs)
                  \<or> (\<exists>t. Some (9800000000 :: int) = Some t \<and> t \<le> conflict_time c))"
    by blast
  from cs have cs': "cs = [(1, 1, 9800000000), (1, 1, 8900000000)]" by simp
  from order increasing_example contact_fractions_discs
  have "\<forall>c \<in> set cs. same_pair c (hd cs)
          \<or> (\<exists>t. Some (9800000000 :: int) = Some t \<and> t \<le> conflict_time c)"
    by blast
  then have "same_pair (1, 1, 8900000000) (1, 1, 9800000000)
              \<or> (9800000000 :: int) \<le> conflict_time (1, 1, 8900000000)"
    unfolding cs' by simp
  moreover have late: "conflict_time (1, 1, 8900000000) < 9800000000"
    by (simp add: conflict_time_def)
  ultimately have pair: "same_pair (1, 1, 8900000000) (1, 1, 9800000000)" by linarith
  from apart_example run increasing_example contact_fractions_discs front plain pair late
  show ?thesis unfolding cs' by blast
qed

theorem detect_conflicts_normalised_vicinity_witness:
  "footprint \<lparr> footprint = None, vicinity = None :: real option \<rparr> = None
   \<and> vicinity \<lparr> footprint = None, vicinity = None :: real option \<rparr> = None
   \<and> length standing = 2
   \<and> detect_conflicts False disc_region_contact \<lparr> footprint = None, vicinity = None \<rparr>
         standing disc_region (Some []) = Inr (False, Some [])
   \<and> vicinity plain_profile = None
   \<and> plain_profile\<lparr>vicinity := footprint plain_profile\<rparr>
       = \<lparr> footprint = Some (1 / 10), vicinity = Some (1 / 10) \<rparr>
   \<and> detect_conflicts False disc_region_contact plain_profile standing disc_region (Some [])
       = detect_conflicts False disc_region_contact
           \<lparr> footprint = Some (1 / 10), vicinity = Some (1 / 10) \<rparr>
           standing disc_region (Some [])"
proof -
  have none: "footprint \<lparr> footprint = None, vicinity = None :: real option \<rparr> = None"
    "vicinity \<lparr> footprint = None, vicinity = None :: real option \<rparr> = None"
    by simp_all
  have l: "length standing = 2" by (simp add: lengths)
  have v: "vicinity plain_profile = None" by (simp add: plain_profile_def)
  have p: "plain_profile\<lparr>vicinity := footprint plain_profile\<rparr>
       = \<lparr> footprint = Some (1 / 10), vicinity = Some (1 / 10) \<rparr>"
    by (simp add: plain_profile_def)
  have a: "detect_conflicts False disc_region_contact \<lparr> footprint = None, vicinity = None \<rparr>
         standing disc_region (Some []) = Inr (False, Some [])"
    using detect_conflicts_normalised_vicinity
      [where profile = "\<lparr> footprint = None, vicinity = None \<rparr>" and NDEBUG = False
         and trajectory = standing and collide = disc_region_contact
         and region = disc_region and output_conflicts = "Some []"] l
    by simp
  have b: "detect_conflicts False disc_region_contact plain_profile standing disc_region (Some [])
       = detect_conflicts False disc_region_contact
           \<lparr> footprint = Some (1 / 10), vicinity = Some (1 / 10) \<rparr>
           standing disc_region (Some [])"
    using detect_conflicts_normalised_vicinity
      [where profile = plain_profile and NDEBUG = False
         and trajectory = standing and collide = disc_region_contact
         and region = disc_region and output_conflicts = "Some []"] v p
    by simp
  from none l a v p b show ?thesis by blast
qed

section \<open>Theorems about the reservation system\<close>

text \<open>
  Two intervals overlap exactly when an instant lies in both, and a resource is free
  exactly when no reservation on it overlaps the request.
\<close>

lemma intervals_overlap_iff:
  "intervals_overlap s1 e1 s2 e2 \<longleftrightarrow>
     (\<exists>t. s1 \<le> t \<and> (\<forall>a. e1 = Some a \<longrightarrow> t < a) \<and> s2 \<le> t \<and> (\<forall>b. e2 = Some b \<longrightarrow> t < b))"
proof (cases e1; cases e2)
  fix a b assume e: "e1 = Some a" "e2 = Some b"
  show ?thesis
  proof
    assume "intervals_overlap s1 e1 s2 e2"
    then have "max s1 s2 < min a b" by (simp add: intervals_overlap_def e)
    then show "\<exists>t. s1 \<le> t \<and> (\<forall>a. e1 = Some a \<longrightarrow> t < a) \<and> s2 \<le> t \<and> (\<forall>b. e2 = Some b \<longrightarrow> t < b)"
      by (intro exI [of _ "max s1 s2"]) (simp add: e)
  next
    assume "\<exists>t. s1 \<le> t \<and> (\<forall>a. e1 = Some a \<longrightarrow> t < a) \<and> s2 \<le> t \<and> (\<forall>b. e2 = Some b \<longrightarrow> t < b)"
    then show "intervals_overlap s1 e1 s2 e2"
      by (auto simp: intervals_overlap_def e)
  qed
next
  fix a assume e: "e1 = Some a" "e2 = None"
  show ?thesis
  proof
    assume "intervals_overlap s1 e1 s2 e2"
    then have "max s1 s2 < a" by (simp add: intervals_overlap_def e)
    then show "\<exists>t. s1 \<le> t \<and> (\<forall>a. e1 = Some a \<longrightarrow> t < a) \<and> s2 \<le> t \<and> (\<forall>b. e2 = Some b \<longrightarrow> t < b)"
      by (intro exI [of _ "max s1 s2"]) (simp add: e)
  next
    assume "\<exists>t. s1 \<le> t \<and> (\<forall>a. e1 = Some a \<longrightarrow> t < a) \<and> s2 \<le> t \<and> (\<forall>b. e2 = Some b \<longrightarrow> t < b)"
    then show "intervals_overlap s1 e1 s2 e2"
      by (auto simp: intervals_overlap_def e)
  qed
next
  fix b assume e: "e1 = None" "e2 = Some b"
  show ?thesis
  proof
    assume "intervals_overlap s1 e1 s2 e2"
    then have "max s1 s2 < b" by (simp add: intervals_overlap_def e)
    then show "\<exists>t. s1 \<le> t \<and> (\<forall>a. e1 = Some a \<longrightarrow> t < a) \<and> s2 \<le> t \<and> (\<forall>b. e2 = Some b \<longrightarrow> t < b)"
      by (intro exI [of _ "max s1 s2"]) (simp add: e)
  next
    assume "\<exists>t. s1 \<le> t \<and> (\<forall>a. e1 = Some a \<longrightarrow> t < a) \<and> s2 \<le> t \<and> (\<forall>b. e2 = Some b \<longrightarrow> t < b)"
    then show "intervals_overlap s1 e1 s2 e2"
      by (auto simp: intervals_overlap_def e)
  qed
next
  assume e: "e1 = None" "e2 = None"
  show ?thesis
    by (auto simp: intervals_overlap_def e intro: exI [of _ "max s1 s2"])
qed

lemma is_free_iff:
  "is_free sys start finish resource \<longleftrightarrow>
     (\<forall>r \<in> set (reservations sys).
        reservation_waypoint r = resource \<longrightarrow>
        \<not> intervals_overlap (reservation_start r) (reservation_end r) start finish)"
  by (auto simp: is_free_def list_all_iff conflicts_with_def)

lemma reserve_None:
  "List.find (is_free sys start (map_option (\<lambda>d. start + d) duration)) resources = None
     \<Longrightarrow> reserve sys start resources duration = (None, sys)"
  by (simp add: reserve_def Let_def)

lemma reserve_Some:
  "List.find (is_free sys start (map_option (\<lambda>d. start + d) duration)) resources = Some w
     \<Longrightarrow> reserve sys start resources duration =
           (Some \<lparr> reservation_id = next_id sys, reservation_waypoint = w,
                    reservation_start = start,
                    reservation_end = map_option (\<lambda>d. start + d) duration \<rparr>,
            \<lparr> reservations =
                \<lparr> reservation_id = next_id sys, reservation_waypoint = w,
                  reservation_start = start,
                  reservation_end = map_option (\<lambda>d. start + d) duration \<rparr> # reservations sys,
              next_id = next_id sys + 1 \<rparr>)"
  by (simp add: reserve_def Let_def)

lemma self_overlap:
  assumes "\<forall>d. duration = Some d \<longrightarrow> 0 < d"
  shows "intervals_overlap start (map_option (\<lambda>d. start + d) duration)
           start (map_option (\<lambda>d. start + d) duration)"
  using assms by (cases duration) (simp_all add: intervals_overlap_def)

text \<open>
  Claim C7. Reservation admission order: \<^verbatim>\<open>reserve(start_time, resources, duration)\<close>
  tries the resources in the given order and returns a reservation on the first resource
  whose half-open interval from \<open>start\<close> to \<open>start + duration\<close> (unbounded when the duration
  is absent) overlaps no existing reservation on that resource, and returns none if and
  only if every listed resource conflicts. In particular, with two free resources and a
  non-empty interval, the first call is granted on the first resource, a second identical
  call on the second, and a third identical call returns none.
\<close>

theorem reserve_admission_order:
  fixes sys :: ReservationSystem and start :: Time and duration :: "int option"
  defines "finish \<equiv> map_option (\<lambda>d. start + d) duration"
  shows "(fst (reserve sys start resources duration) = None
            \<longleftrightarrow> (\<forall>w \<in> set resources. \<not> is_free sys start finish w))
       \<and> (\<forall>r. fst (reserve sys start resources duration) = Some r \<longrightarrow>
            reservation_start r = start \<and> reservation_end r = finish
            \<and> reservation_id r = next_id sys
            \<and> (\<exists>i < length resources.
                  reservation_waypoint r = resources ! i
                  \<and> is_free sys start finish (resources ! i)
                  \<and> (\<forall>j < i. \<not> is_free sys start finish (resources ! j))))
       \<and> (wp0 \<noteq> wp1 \<and> is_free sys start finish wp0 \<and> is_free sys start finish wp1
            \<and> (\<forall>d. duration = Some d \<longrightarrow> 0 < d) \<longrightarrow>
            (\<exists>r1 sys1 r2 sys2.
                reserve sys start [wp0, wp1] duration = (Some r1, sys1)
              \<and> reservation_waypoint r1 = wp0
              \<and> reserve sys1 start [wp0, wp1] duration = (Some r2, sys2)
              \<and> reservation_waypoint r2 = wp1
              \<and> reserve sys2 start [wp0, wp1] duration = (None, sys2)))"
proof (intro conjI allI impI)
  show "fst (reserve sys start resources duration) = None
            \<longleftrightarrow> (\<forall>w \<in> set resources. \<not> is_free sys start finish w)"
  proof -
    have "fst (reserve sys start resources duration) = None
            \<longleftrightarrow> List.find (is_free sys start finish) resources = None"
      by (simp add: reserve_def Let_def finish_def split: option.splits)
    then show ?thesis by (auto simp: find_None_iff)
  qed
next
  fix r assume r: "fst (reserve sys start resources duration) = Some r"
  then obtain w where w: "List.find (is_free sys start finish) resources = Some w"
    by (cases "List.find (is_free sys start finish) resources")
       (auto simp: reserve_def Let_def finish_def)
  with r have r_eq: "r = \<lparr> reservation_id = next_id sys, reservation_waypoint = w,
                    reservation_start = start, reservation_end = finish \<rparr>"
    by (simp add: reserve_Some [of sys start duration resources w, folded finish_def] finish_def)
  then show "reservation_start r = start" "reservation_end r = finish"
    "reservation_id r = next_id sys"
    by simp_all
  from w show "\<exists>i < length resources.
                  reservation_waypoint r = resources ! i
                  \<and> is_free sys start finish (resources ! i)
                  \<and> (\<forall>j < i. \<not> is_free sys start finish (resources ! j))"
    unfolding find_Some_iff r_eq by auto
next
  assume h: "wp0 \<noteq> wp1 \<and> is_free sys start finish wp0 \<and> is_free sys start finish wp1
            \<and> (\<forall>d. duration = Some d \<longrightarrow> 0 < d)"
  define r1 where "r1 = \<lparr> reservation_id = next_id sys, reservation_waypoint = wp0,
                    reservation_start = start, reservation_end = finish \<rparr>"
  define sys1 where "sys1 = \<lparr> reservations = r1 # reservations sys, next_id = next_id sys + 1 \<rparr>"
  define r2 where "r2 = \<lparr> reservation_id = next_id sys1, reservation_waypoint = wp1,
                    reservation_start = start, reservation_end = finish \<rparr>"
  define sys2 where "sys2 = \<lparr> reservations = r2 # reservations sys1, next_id = next_id sys1 + 1 \<rparr>"
  have self: "intervals_overlap start finish start finish"
    using h self_overlap [of duration start] by (simp add: finish_def)
  have first: "reserve sys start [wp0, wp1] duration = (Some r1, sys1)"
    using h by (simp add: reserve_def Let_def finish_def [symmetric] r1_def sys1_def)
  have free1: "\<not> is_free sys1 start finish wp0" "is_free sys1 start finish wp1"
    using h self by (auto simp: is_free_def sys1_def r1_def conflicts_with_def)
  have second: "reserve sys1 start [wp0, wp1] duration = (Some r2, sys2)"
    using free1 by (simp add: reserve_def Let_def finish_def [symmetric] r2_def sys2_def)
  have free2: "\<not> is_free sys2 start finish wp0" "\<not> is_free sys2 start finish wp1"
    using h self by (auto simp: is_free_def sys2_def sys1_def r1_def r2_def conflicts_with_def)
  have third: "reserve sys2 start [wp0, wp1] duration = (None, sys2)"
    using free2 by (simp add: reserve_def Let_def finish_def [symmetric])
  from first second third
  show "\<exists>r1 sys1 r2 sys2.
                reserve sys start [wp0, wp1] duration = (Some r1, sys1)
              \<and> reservation_waypoint r1 = wp0
              \<and> reserve sys1 start [wp0, wp1] duration = (Some r2, sys2)
              \<and> reservation_waypoint r2 = wp1
              \<and> reserve sys2 start [wp0, wp1] duration = (None, sys2)"
    by (intro exI [of _ r1] exI [of _ sys1] exI [of _ r2] exI [of _ sys2])
       (simp add: r1_def r2_def)
qed

lemma is_free_filter:
  "is_free sys start finish w \<Longrightarrow>
     is_free (sys\<lparr>reservations := filter P (reservations sys)\<rparr>) start finish w"
  by (simp add: is_free_def list_all_iff)

text \<open>
  Claim C8. Cancel round-trip: for every reservation \<open>r\<close> accepted by \<^verbatim>\<open>reserve\<close>,
  cancelling \<open>r\<close> by its id succeeds, and a subsequent \<^verbatim>\<open>reserve\<close> with the identical
  arguments (start time, resource list and duration) returns some reservation.
\<close>

theorem cancel_round_trip:
  assumes "reserve sys start resources duration = (Some r, sys1)"
  shows "\<exists>sys2. cancel_reservation sys1 (reservation_id r) = Inr sys2
              \<and> (\<exists>r'. fst (reserve sys2 start resources duration) = Some r')"
proof -
  let ?finish = "map_option (\<lambda>d. start + d) duration"
  from assms obtain w where w: "List.find (is_free sys start ?finish) resources = Some w"
    by (cases "List.find (is_free sys start ?finish) resources")
       (auto simp: reserve_def Let_def)
  from assms reserve_Some [OF w]
  have r: "reservation_id r = next_id sys"
    and sys1: "sys1 = \<lparr> reservations = r # reservations sys, next_id = next_id sys + 1 \<rparr>"
    by auto
  let ?keep = "\<lambda>x. reservation_id x \<noteq> reservation_id r"
  define sys2 where "sys2 = sys1\<lparr>reservations := filter ?keep (reservations sys1)\<rparr>"
  have cancel: "cancel_reservation sys1 (reservation_id r) = Inr sys2"
    by (simp add: cancel_reservation_def sys1 sys2_def)
  have res2: "reservations sys2 = filter ?keep (reservations sys)"
    by (simp add: sys2_def sys1)
  from w have "w \<in> set resources" "is_free sys start ?finish w"
    by (auto simp: find_Some_iff)
  then have "is_free sys2 start ?finish w"
    by (simp add: is_free_def list_all_iff res2)
  with \<open>w \<in> set resources\<close>
  have "List.find (is_free sys2 start ?finish) resources \<noteq> None"
    by (auto simp: find_None_iff)
  then have "\<exists>r'. fst (reserve sys2 start resources duration) = Some r'"
    by (auto simp: reserve_def Let_def)
  with cancel show ?thesis by blast
qed


theorem reserve_admission_order_witness:
  "''waypoint_0'' \<noteq> ''waypoint_1''
   \<and> is_free empty_system 36000000000000 (Some 43200000000000) ''waypoint_0''
   \<and> is_free empty_system 36000000000000 (Some 43200000000000) ''waypoint_1''
   \<and> (0 :: int) < 7200000000000
   \<and> fst (reserve empty_system 36000000000000 [''waypoint_0'', ''waypoint_1'']
             (Some 7200000000000))
       = Some \<lparr> reservation_id = 0, reservation_waypoint = ''waypoint_0'',
                reservation_start = 36000000000000,
                reservation_end = Some 43200000000000 \<rparr>
   \<and> (\<exists>r1 sys1 r2 sys2.
          reserve empty_system 36000000000000 [''waypoint_0'', ''waypoint_1'']
            (Some 7200000000000) = (Some r1, sys1)
        \<and> reservation_waypoint r1 = ''waypoint_0''
        \<and> reserve sys1 36000000000000 [''waypoint_0'', ''waypoint_1'']
            (Some 7200000000000) = (Some r2, sys2)
        \<and> reservation_waypoint r2 = ''waypoint_1''
        \<and> reserve sys2 36000000000000 [''waypoint_0'', ''waypoint_1'']
            (Some 7200000000000) = (None, sys2))"
proof -
  have ne: "''waypoint_0'' \<noteq> ''waypoint_1''" by simp
  have free: "is_free empty_system 36000000000000 (Some 43200000000000) ''waypoint_0''"
    "is_free empty_system 36000000000000 (Some 43200000000000) ''waypoint_1''"
    by (simp_all add: is_free_def empty_system_def)
  have pos: "(0 :: int) < 7200000000000" by simp
  have first: "fst (reserve empty_system 36000000000000 [''waypoint_0'', ''waypoint_1'']
             (Some 7200000000000))
       = Some \<lparr> reservation_id = 0, reservation_waypoint = ''waypoint_0'',
                reservation_start = 36000000000000,
                reservation_end = Some 43200000000000 \<rparr>"
    by (simp add: reserve_def Let_def is_free_def empty_system_def)
  note admission = reserve_admission_order [of empty_system 36000000000000
      "[''waypoint_0'', ''waypoint_1'']" "Some 7200000000000" "''waypoint_0''" "''waypoint_1''"]
  have "\<exists>r1 sys1 r2 sys2.
          reserve empty_system 36000000000000 [''waypoint_0'', ''waypoint_1'']
            (Some 7200000000000) = (Some r1, sys1)
        \<and> reservation_waypoint r1 = ''waypoint_0''
        \<and> reserve sys1 36000000000000 [''waypoint_0'', ''waypoint_1'']
            (Some 7200000000000) = (Some r2, sys2)
        \<and> reservation_waypoint r2 = ''waypoint_1''
        \<and> reserve sys2 36000000000000 [''waypoint_0'', ''waypoint_1'']
            (Some 7200000000000) = (None, sys2)"
    using admission ne free pos by simp
  with ne free pos first show ?thesis by blast
qed

theorem cancel_round_trip_witness:
  "reserve empty_system 36000000000000 [''waypoint_0''] (Some 7200000000000)
     = (Some \<lparr> reservation_id = 0, reservation_waypoint = ''waypoint_0'',
               reservation_start = 36000000000000,
               reservation_end = Some 43200000000000 \<rparr>,
        \<lparr> reservations = [\<lparr> reservation_id = 0, reservation_waypoint = ''waypoint_0'',
                             reservation_start = 36000000000000,
                             reservation_end = Some 43200000000000 \<rparr>],
          next_id = 1 \<rparr>)
   \<and> fst (reserve \<lparr> reservations = [\<lparr> reservation_id = 0, reservation_waypoint = ''waypoint_0'',
                             reservation_start = 36000000000000,
                             reservation_end = Some 43200000000000 \<rparr>],
          next_id = 1 \<rparr> 36000000000000 [''waypoint_0''] (Some 7200000000000)) = None
   \<and> (\<exists>sys2. cancel_reservation
                 \<lparr> reservations = [\<lparr> reservation_id = 0, reservation_waypoint = ''waypoint_0'',
                             reservation_start = 36000000000000,
                             reservation_end = Some 43200000000000 \<rparr>],
                   next_id = 1 \<rparr> 0 = Inr sys2
        \<and> (\<exists>r'. fst (reserve sys2 36000000000000 [''waypoint_0''] (Some 7200000000000))
                  = Some r'))"
proof -
  have made: "reserve empty_system 36000000000000 [''waypoint_0''] (Some 7200000000000)
     = (Some \<lparr> reservation_id = 0, reservation_waypoint = ''waypoint_0'',
               reservation_start = 36000000000000,
               reservation_end = Some 43200000000000 \<rparr>,
        \<lparr> reservations = [\<lparr> reservation_id = 0, reservation_waypoint = ''waypoint_0'',
                             reservation_start = 36000000000000,
                             reservation_end = Some 43200000000000 \<rparr>],
          next_id = 1 \<rparr>)"
    by (simp add: reserve_def Let_def is_free_def empty_system_def)
  have taken: "fst (reserve \<lparr> reservations = [\<lparr> reservation_id = 0,
                             reservation_waypoint = ''waypoint_0'',
                             reservation_start = 36000000000000,
                             reservation_end = Some 43200000000000 \<rparr>],
          next_id = 1 \<rparr> 36000000000000 [''waypoint_0''] (Some 7200000000000)) = None"
    by (simp add: reserve_def Let_def is_free_def conflicts_with_def intervals_overlap_def)
  from cancel_round_trip [OF made] made taken show ?thesis by simp
qed

end
